(* ===== verification/Dewey_Prelude.thy ===== *)
theory Dewey_Prelude
  imports Complex_Main "HOL-Library.Product_Lexorder"
begin

text \<open>
  Shared vocabulary of the development: instants and durations, the comparison
  operators SQL gives on nullable columns, and the row-wise view of an
  \<open>UPDATE ... WHERE\<close> on a table kept as a list of rows.  Everything here is generic;
  nothing in this theory models a particular file of the repository.
\<close>

named_theorems dewey_defs \<open>definitions of operations, to be unfolded on request\<close>
named_theorems rowwise \<open>facts about row-wise changes of a table\<close>

section \<open>Time\<close>

text \<open>
  A timezone-aware \<open>datetime\<close> is an instant, counted in microseconds since the Unix
  epoch (the resolution of Python's \<open>datetime\<close>); a \<open>timedelta\<close> is a signed number of
  microseconds.  A producer may also pass a naive \<open>datetime\<close>, which names no instant.
\<close>

type_synonym datetime = int
type_synonym timedelta = int

datatype py_datetime = Aware datetime | Naive int

abbreviation second :: timedelta where "second \<equiv> 1000000"
abbreviation minute :: timedelta where "minute \<equiv> 60000000"
abbreviation day :: timedelta where "day \<equiv> 86400000000"

section \<open>SQL comparisons on nullable columns\<close>

text \<open>
  A comparison with NULL is not true, so a \<open>WHERE\<close> clause never selects through it.
\<close>

definition sql_le :: "datetime option \<Rightarrow> datetime \<Rightarrow> bool" where
  "sql_le c t = (case c of None \<Rightarrow> False | Some x \<Rightarrow> x \<le> t)"

definition sql_lt :: "datetime option \<Rightarrow> datetime \<Rightarrow> bool" where
  "sql_lt c t = (case c of None \<Rightarrow> False | Some x \<Rightarrow> x < t)"

lemma sql_le_simps [simp]: "sql_le None t = False" "sql_le (Some x) t = (x \<le> t)"
  by (simp_all add: sql_le_def)

lemma sql_lt_simps [simp]: "sql_lt None t = False" "sql_lt (Some x) t = (x < t)"
  by (simp_all add: sql_lt_def)

lemma sql_leE: "sql_le c t \<Longrightarrow> (\<And>x. c = Some x \<Longrightarrow> x \<le> t \<Longrightarrow> P) \<Longrightarrow> P"
  by (cases c) auto

lemma sql_ltE: "sql_lt c t \<Longrightarrow> (\<And>x. c = Some x \<Longrightarrow> x < t \<Longrightarrow> P) \<Longrightarrow> P"
  by (cases c) auto

text \<open>
  \<open>ORDER BY\<close> on a nullable column: PostgreSQL sorts NULL after every value, in
  ascending order, and before every value in descending order.
\<close>

definition nulls_last :: "datetime option \<Rightarrow> nat \<times> int" where
  "nulls_last c = (case c of None \<Rightarrow> (1, 0) | Some t \<Rightarrow> (0, t))"

definition desc_nulls_first :: "datetime option \<Rightarrow> nat \<times> int" where
  "desc_nulls_first c = (case c of None \<Rightarrow> (0, 0) | Some t \<Rightarrow> (1, - t))"

section \<open>Tables as lists of rows\<close>

text \<open>
  \<open>update_where P f rows\<close> is \<open>UPDATE ... SET f WHERE P\<close>; \<open>delete_where P rows\<close> is
  \<open>DELETE ... WHERE P\<close>; \<open>order_limit k n rows\<close> is \<open>ORDER BY k LIMIT n\<close>.  Rows that tie on
  the key keep their order in the list; since statements are proved for tables in every
  order, they hold for every way a database may break a tie.
\<close>

definition update_where :: "('r \<Rightarrow> bool) \<Rightarrow> ('r \<Rightarrow> 'r) \<Rightarrow> 'r list \<Rightarrow> 'r list" where
  "update_where P f rows = map (\<lambda>r. if P r then f r else r) rows"

definition delete_where :: "('r \<Rightarrow> bool) \<Rightarrow> 'r list \<Rightarrow> 'r list" where
  "delete_where P rows = filter (\<lambda>r. \<not> P r) rows"

definition order_limit :: "('r \<Rightarrow> 'k::linorder) \<Rightarrow> nat \<Rightarrow> 'r list \<Rightarrow> 'r list" where
  "order_limit k n rows = take n (sort_key k rows)"

lemma length_update_where [simp]: "length (update_where P f rows) = length rows"
  by (simp add: update_where_def)

lemma set_update_where:
  "set (update_where P f rows) = {r \<in> set rows. \<not> P r} \<union> f ` {r \<in> set rows. P r}"
  by (auto simp: update_where_def image_iff)

lemma map_update_where [simp]:
  "(\<And>r. P r \<Longrightarrow> g (f r) = g r) \<Longrightarrow> map g (update_where P f rows) = map g rows"
  by (induction rows) (auto simp: update_where_def)

lemma update_where_cong:
  "(\<And>r. r \<in> set rows \<Longrightarrow> P r = Q r) \<Longrightarrow> (\<And>r. r \<in> set rows \<Longrightarrow> Q r \<Longrightarrow> f r = g r) \<Longrightarrow>
   update_where P f rows = update_where Q g rows"
  by (auto simp: update_where_def)

lemma update_where_none: "(\<And>r. r \<in> set rows \<Longrightarrow> \<not> P r) \<Longrightarrow> update_where P f rows = rows"
  by (induction rows) (auto simp: update_where_def)

lemma set_delete_where [simp]: "set (delete_where P rows) = {r \<in> set rows. \<not> P r}"
  by (auto simp: delete_where_def)

lemma set_order_limit_subset: "set (order_limit k n rows) \<subseteq> set rows"
  unfolding order_limit_def by (metis set_sort set_take_subset)

lemma order_limit_in [dest]: "r \<in> set (order_limit k n rows) \<Longrightarrow> r \<in> set rows"
  by (rule subsetD [OF set_order_limit_subset])

lemma length_order_limit: "length (order_limit k n rows) = min n (length rows)"
  by (simp add: order_limit_def)

lemma order_limit_Nil [simp]: "order_limit k n [] = []"
  by (simp add: order_limit_def)

lemma order_limit_all: "length rows \<le> n \<Longrightarrow> set (order_limit k n rows) = set rows"
  by (simp add: order_limit_def)

lemma sorted_order_limit: "sorted (map k (order_limit k n rows))"
  by (simp add: order_limit_def flip: take_map)

lemma distinct_map_order_limit:
  "distinct (map g rows) \<Longrightarrow> distinct (map g (order_limit k n rows))"
proof -
  assume "distinct (map g rows)"
  then have "distinct (map g (sort_key k rows))"
    by (simp add: distinct_map)
  then show ?thesis
    by (simp add: order_limit_def flip: take_map)
qed

text \<open>
  A row left out by the limit comes after every row that was taken.
\<close>

lemma order_limit_least:
  assumes "x \<in> set rows" and "x \<notin> set (order_limit k n rows)"
    and "y \<in> set (order_limit k n rows)"
  shows "k y \<le> k x"
proof -
  let ?s = "sort_key k rows"
  have "x \<in> set ?s" using assms(1) by simp
  then have "x \<in> set (take n ?s) \<union> set (drop n ?s)"
    by (metis append_take_drop_id set_append)
  with assms(2) have xd: "x \<in> set (drop n ?s)"
    by (simp add: order_limit_def)
  have "sorted (map k (take n ?s) @ map k (drop n ?s))"
    by (metis append_take_drop_id map_append sorted_sort_key)
  with xd assms(3) show ?thesis
    by (auto simp: sorted_append order_limit_def)
qed

lemma distinct_map_filter: "distinct (map g rows) \<Longrightarrow> distinct (map g (filter P rows))"
  by (induction rows) auto

section \<open>Row-wise change\<close>

text \<open>
  \<open>rows_changed R before after\<close>: the same rows in the same order, each left alone or
  changed as \<open>R\<close> allows.  Every \<open>UPDATE\<close> of the program is shown to be such a change, and
  invariants of single rows travel along it.
\<close>

definition rows_changed :: "('r \<Rightarrow> 'r \<Rightarrow> bool) \<Rightarrow> 'r list \<Rightarrow> 'r list \<Rightarrow> bool" where
  "rows_changed R before after = list_all2 (\<lambda>r r'. r' = r \<or> R r r') before after"

lemma rows_changed_refl [simp, intro]: "rows_changed R rows rows"
  by (simp add: rows_changed_def list_all2_refl)

lemma rows_changed_update [rowwise, intro]:
  "(\<And>r. r \<in> set rows \<Longrightarrow> P r \<Longrightarrow> R r (f r)) \<Longrightarrow> rows_changed R rows (update_where P f rows)"
  by (auto simp: rows_changed_def update_where_def list_all2_conv_all_nth)

lemma rows_changed_mono [rowwise]:
  "rows_changed R a b \<Longrightarrow> (\<And>r r'. r \<in> set a \<Longrightarrow> R r r' \<Longrightarrow> S r r') \<Longrightarrow> rows_changed S a b"
  unfolding rows_changed_def by (auto intro: list.rel_mono_strong)

lemma rows_changed_trans:
  assumes "rows_changed R a b" and "rows_changed S b c"
    and "\<And>x y z. (y = x \<or> R x y) \<Longrightarrow> (z = y \<or> S y z) \<Longrightarrow> z = x \<or> T x z"
  shows "rows_changed T a c"
  using assms(1,2) unfolding rows_changed_def
  by (rule list_all2_trans [rotated]) (use assms(3) in blast)

lemma rows_changed_list_all [rowwise]:
  "rows_changed R a b \<Longrightarrow> list_all I a \<Longrightarrow> (\<And>r r'. I r \<Longrightarrow> R r r' \<Longrightarrow> I r') \<Longrightarrow> list_all I b"
  unfolding rows_changed_def by (induction rule: list_all2_induct) auto

lemma rows_changed_map [rowwise]:
  "rows_changed R a b \<Longrightarrow> (\<And>r r'. R r r' \<Longrightarrow> g r' = g r) \<Longrightarrow> map g b = map g a"
  unfolding rows_changed_def by (induction rule: list_all2_induct) auto

lemma rows_changed_length: "rows_changed R a b \<Longrightarrow> length b = length a"
  by (auto simp: rows_changed_def dest: list_all2_lengthD)

lemma rows_changed_in:
  "rows_changed R a b \<Longrightarrow> r' \<in> set b \<Longrightarrow> \<exists>r \<in> set a. r' = r \<or> R r r'"
  unfolding rows_changed_def by (induction rule: list_all2_induct) auto

lemma rows_changed_in_source:
  "rows_changed R a b \<Longrightarrow> r \<in> set a \<Longrightarrow> \<exists>r' \<in> set b. r' = r \<or> R r r'"
  unfolding rows_changed_def by (induction rule: list_all2_induct) auto

text \<open>Sorting commutes with a map that keeps the key.\<close>

lemma sort_key_map:
  fixes k :: "'r \<Rightarrow> 'k::linorder"
  assumes "\<And>r. k (f r) = k r"
  shows "map f (sort_key k rows) = sort_key k (map f rows)"
proof (induction rows)
  case Nil
  then show ?case by simp
next
  case (Cons x rows)
  have "map f (insort_key k x l) = insort_key k (f x) (map f l)" for l
    by (induction l) (auto simp: assms)
  with Cons show ?case by simp
qed

lemma find_snoc:
  "find P (xs @ [x]) = (case find P xs of Some y \<Rightarrow> Some y | None \<Rightarrow> if P x then Some x else None)"
  by (induction xs) auto

end
