(* ===== verification/Py_Runtime.thy ===== *)
theory Py_Runtime
  imports Dewey_Prelude
begin

text \<open>
  What the source uses of Python: exception classes with \<open>isinstance\<close>, floats with their
  non-finite values, \<open>timedelta(seconds=...)\<close> and \<open>datetime + timedelta\<close> with their overflow
  errors, \<open>random.uniform\<close>; and the typed errors of \<open>src/dewey/errors.py\<close>.

  A finite float is an exact rational: binary rounding is not modelled, the range of a
  double is (\<open>float_pow\<close> overflows where Python's \<open>**\<close> does).
\<close>

section \<open>Exception classes\<close>

text \<open>
  The classes the code names, and application classes with their bases.
\<close>

datatype pyclass =
    BaseExceptionC | ExceptionC | KeyboardInterruptC
  | LookupErrorC | TypeErrorC | ValueErrorC | ArithmeticErrorC | OverflowErrorC
  | RuntimeErrorC | IntegrityErrorC
  | DeweyErrorC | TransientErrorC | NonRetryableErrorC | RetryAfterC | SerializationErrorC
  | IdempotencyConflictErrorC | DuplicateTaskTypeErrorC | UnknownTaskTypeErrorC
  | UserC string "pyclass list"

text \<open>The class and its ancestors (\<open>__mro__\<close> up to order).\<close>

fun supers :: "pyclass \<Rightarrow> pyclass list" where
  "supers BaseExceptionC = [BaseExceptionC]"
| "supers ExceptionC = [ExceptionC, BaseExceptionC]"
| "supers KeyboardInterruptC = [KeyboardInterruptC, BaseExceptionC]"
| "supers LookupErrorC = [LookupErrorC, ExceptionC, BaseExceptionC]"
| "supers TypeErrorC = [TypeErrorC, ExceptionC, BaseExceptionC]"
| "supers ValueErrorC = [ValueErrorC, ExceptionC, BaseExceptionC]"
| "supers ArithmeticErrorC = [ArithmeticErrorC, ExceptionC, BaseExceptionC]"
| "supers OverflowErrorC = [OverflowErrorC, ArithmeticErrorC, ExceptionC, BaseExceptionC]"
| "supers RuntimeErrorC = [RuntimeErrorC, ExceptionC, BaseExceptionC]"
| "supers IntegrityErrorC = [IntegrityErrorC, ExceptionC, BaseExceptionC]"
| "supers DeweyErrorC = [DeweyErrorC, ExceptionC, BaseExceptionC]"
| "supers TransientErrorC = [TransientErrorC, DeweyErrorC, ExceptionC, BaseExceptionC]"
| "supers NonRetryableErrorC = [NonRetryableErrorC, DeweyErrorC, ExceptionC, BaseExceptionC]"
| "supers RetryAfterC = [RetryAfterC, DeweyErrorC, ExceptionC, BaseExceptionC]"
| "supers SerializationErrorC =
     [SerializationErrorC, DeweyErrorC, TypeErrorC, ExceptionC, BaseExceptionC]"
| "supers IdempotencyConflictErrorC =
     [IdempotencyConflictErrorC, DeweyErrorC, ExceptionC, BaseExceptionC]"
| "supers DuplicateTaskTypeErrorC =
     [DuplicateTaskTypeErrorC, DeweyErrorC, ExceptionC, BaseExceptionC]"
| "supers UnknownTaskTypeErrorC =
     [UnknownTaskTypeErrorC, DeweyErrorC, LookupErrorC, ExceptionC, BaseExceptionC]"
| "supers (UserC n bases) = UserC n bases # concat (map supers bases)"

lemma supers_self [simp]: "c \<in> set (supers c)"
  by (cases c) auto

section \<open>Floats\<close>

datatype pyfloat = Fin rat | PosInf | NegInf | NaN

text \<open>\<open>x < y\<close>; every comparison with NaN is false.\<close>

fun float_lt :: "pyfloat \<Rightarrow> pyfloat \<Rightarrow> bool" where
  "float_lt NaN _ = False"
| "float_lt _ NaN = False"
| "float_lt (Fin x) (Fin y) = (x < y)"
| "float_lt (Fin _) PosInf = True"
| "float_lt NegInf (Fin _) = True"
| "float_lt NegInf PosInf = True"
| "float_lt _ _ = False"

section \<open>Exception values\<close>

text \<open>
  An exception instance: its class, \<open>str(exc)\<close>, and the attributes \<open>seconds\<close> of a
  \<open>RetryAfter\<close> and \<open>differing_fields\<close> of an \<open>IdempotencyConflictError\<close> (not read for
  instances of other classes).
\<close>

record exn =
  exn_class :: pyclass
  exn_text :: string
  exn_seconds :: pyfloat
  exn_fields :: "string list"

type_synonym 'a result = "exn + 'a"

definition py_exn :: "pyclass \<Rightarrow> string \<Rightarrow> exn" where
  "py_exn c msg = \<lparr>exn_class = c, exn_text = msg, exn_seconds = Fin 0, exn_fields = []\<rparr>"

definition isinstance :: "exn \<Rightarrow> pyclass list \<Rightarrow> bool" where
  "isinstance e cs = list_ex (\<lambda>c. c \<in> set (supers (exn_class e))) cs"

lemma exn_class_py_exn [simp]: "exn_class (py_exn c msg) = c"
  by (simp add: py_exn_def)

lemma isinstance_Nil [simp]: "isinstance e [] = False"
  by (simp add: isinstance_def)

lemma isinstance_append: "isinstance e (as @ bs) = (isinstance e as \<or> isinstance e bs)"
  by (simp add: isinstance_def)

text \<open>\<open>RetryAfter(seconds, message)\<close>; \<open>fmt\<close> is the default text \<open>f"retry after {seconds:g}s"\<close>.\<close>

definition retry_after :: "(pyfloat \<Rightarrow> string) \<Rightarrow> pyfloat \<Rightarrow> string \<Rightarrow> exn result" where
  "retry_after fmt seconds message =
     (if float_lt seconds (Fin 0)
      then Inl (py_exn ValueErrorC ''RetryAfter seconds must not be negative'')
      else Inr \<lparr>exn_class = RetryAfterC,
                exn_text = (if message = [] then fmt seconds else message),
                exn_seconds = seconds, exn_fields = []\<rparr>)"

text \<open>\<open>IdempotencyConflictError(differing_fields)\<close>.\<close>

fun join_comma :: "string list \<Rightarrow> string" where
  "join_comma [] = ''''"
| "join_comma [x] = x"
| "join_comma (x # xs) = x @ '', '' @ join_comma xs"

definition idempotency_conflict :: "string list \<Rightarrow> exn result" where
  "idempotency_conflict differing =
     (if differing = []
      then Inl (py_exn ValueErrorC
             ''IdempotencyConflictError requires at least one differing field'')
      else Inr \<lparr>exn_class = IdempotencyConflictErrorC,
                exn_text = ''idempotency key matched an existing task, but these immutable ''
                  @ ''creation fields differ: '' @ join_comma differing,
                exn_seconds = Fin 0, exn_fields = differing\<rparr>)"

section \<open>Durations and instants\<close>

text \<open>Rounding to the nearest integer, ties to even: the rounding of \<open>timedelta\<close>.\<close>

definition round_half_even :: "rat \<Rightarrow> int" where
  "round_half_even x =
     (let f = \<lfloor>x\<rfloor>; d = x - of_int f
      in if d < 1 / 2 then f else if d > 1 / 2 then f + 1 else if even f then f else f + 1)"

definition timedelta_min :: int where "timedelta_min = - (999999999 * day)"
definition timedelta_max :: int where "timedelta_max = 999999999 * day + day - 1"
definition datetime_min :: int where "datetime_min = - (62135596800 * second)"
definition datetime_max :: int where "datetime_max = 253402300800 * second - 1"

definition timedelta_seconds :: "pyfloat \<Rightarrow> timedelta result" where
  "timedelta_seconds x =
     (case x of
        NaN \<Rightarrow> Inl (py_exn ValueErrorC ''cannot convert float NaN to integer'')
      | PosInf \<Rightarrow> Inl (py_exn OverflowErrorC ''cannot convert float infinity to integer'')
      | NegInf \<Rightarrow> Inl (py_exn OverflowErrorC ''cannot convert float infinity to integer'')
      | Fin q \<Rightarrow>
          (let us = round_half_even (q * 1000000)
           in if us < timedelta_min \<or> timedelta_max < us
              then Inl (py_exn OverflowErrorC ''days out of range'')
              else Inr us))"

definition datetime_add :: "datetime \<Rightarrow> timedelta \<Rightarrow> datetime result" where
  "datetime_add t d =
     (if t + d < datetime_min \<or> datetime_max < t + d
      then Inl (py_exn OverflowErrorC ''date value out of range'')
      else Inr (t + d))"

text \<open>\<open>x ** n\<close> on floats, for \<open>n >= 0\<close>: \<open>OverflowError\<close> beyond the range of a double.\<close>

definition float_pow :: "rat \<Rightarrow> nat \<Rightarrow> rat result" where
  "float_pow x n =
     (if \<bar>x ^ n\<bar> \<ge> 2 ^ 1024 - 2 ^ 970
      then Inl (py_exn OverflowErrorC ''Numerical result out of range'')
      else Inr (x ^ n))"

text \<open>\<open>random.uniform(a, b)\<close> for a draw \<open>u\<close> of \<open>random.random()\<close>, a float in [0, 1).\<close>

definition uniform :: "rat \<Rightarrow> rat \<Rightarrow> rat \<Rightarrow> rat" where
  "uniform u a b = a + (b - a) * u"

definition valid_draw :: "rat \<Rightarrow> bool" where
  "valid_draw u = (0 \<le> u \<and> u < 1)"

lemma uniform_bounds: "valid_draw u \<Longrightarrow> a \<le> b \<Longrightarrow> a \<le> uniform u a b \<and> uniform u a b \<le> b"
proof -
  assume u: "valid_draw u" and ab: "a \<le> b"
  have "0 \<le> (b - a) * u" using u ab by (simp add: valid_draw_def)
  moreover have "(b - a) * u \<le> (b - a) * 1"
    using u ab by (intro mult_left_mono) (auto simp: valid_draw_def)
  ultimately show ?thesis by (simp add: uniform_def)
qed

lemma round_half_even_of_int [simp]: "round_half_even (of_int n) = n"
  by (simp add: round_half_even_def)

lemma round_half_even_mono:
  assumes "x \<le> y" shows "round_half_even x \<le> round_half_even y"
proof (cases "\<lfloor>x\<rfloor> = \<lfloor>y\<rfloor>")
  case True
  then show ?thesis
    using assms by (auto simp: round_half_even_def Let_def)
next
  case False
  with assms have "\<lfloor>x\<rfloor> + 1 \<le> \<lfloor>y\<rfloor>"
    by (metis add1_zle_eq floor_mono order_le_less)
  then show ?thesis
    by (auto simp: round_half_even_def Let_def)
qed

lemma round_half_even_nonneg: "0 \<le> x \<Longrightarrow> 0 \<le> round_half_even x"
  using round_half_even_mono [of 0 x] by (simp add: round_half_even_def)

lemma timedelta_seconds_Fin:
  "timedelta_seconds (Fin q) = Inr d \<Longrightarrow> d = round_half_even (q * 1000000)"
  by (auto simp: timedelta_seconds_def Let_def split: if_splits)

lemma timedelta_seconds_nonneg:
  "timedelta_seconds (Fin q) = Inr d \<Longrightarrow> 0 \<le> q \<Longrightarrow> 0 \<le> d"
  by (drule timedelta_seconds_Fin) (simp add: round_half_even_nonneg)

lemma timedelta_seconds_le:
  "timedelta_seconds (Fin q) = Inr d \<Longrightarrow> q \<le> c \<Longrightarrow> d \<le> round_half_even (c * 1000000)"
  by (drule timedelta_seconds_Fin) (simp add: round_half_even_mono)

lemma datetime_add_Inr: "datetime_add t d = Inr r \<Longrightarrow> r = t + d"
  by (auto simp: datetime_add_def split: if_splits)

end
