(* ===== verification/Task_Policy.thy ===== *)
theory Task_Policy
  imports Py_Runtime "HOL-Library.AList" "HOL-Library.List_Lexorder" "HOL-Library.Char_ord"
begin

text \<open>
  Task policy (\<open>src/dewey/policy.py\<close>, \<open>src/dewey/core/backoff.py\<close>): backoff policies, the
  \<open>TaskPolicy\<close> record with its failure classification, validation of policy layers, the
  process-local registry, and the resolver that merges the three layers.

  \<open>'h\<close> stands for handler functions and \<open>'f\<close> for user backoff functions, compared by
  identity as Python does; what calling a user backoff function gives is the argument \<open>fn\<close>
  of the operations that call one.  \<open>u\<close> is the draw of \<open>random.random()\<close>.
\<close>

section \<open>Backoff\<close>

datatype 'f backoff_policy =
    Constant rat rat                  \<comment> \<open>seconds, jitter\<close>
  | Exponential rat rat rat rat       \<comment> \<open>base\_s, factor, cap\_s, jitter\<close>
  | Custom 'f

datatype backoff_value = AsTimedelta timedelta | AsSeconds pyfloat

definition jittered :: "rat \<Rightarrow> rat \<Rightarrow> rat \<Rightarrow> rat option \<Rightarrow> rat" where
  "jittered u seconds jitter cap =
     (let spread = seconds * jitter;
          s1 = (if jitter > 0 then seconds + uniform u (- spread) spread else seconds);
          s2 = (case cap of None \<Rightarrow> s1 | Some c \<Rightarrow> min s1 c)
      in max 0 s2)"

definition constant_delay_for :: "rat \<Rightarrow> rat \<Rightarrow> rat \<Rightarrow> int \<Rightarrow> timedelta result" where
  "constant_delay_for u seconds jitter attempt =
     timedelta_seconds (Fin (jittered u seconds jitter None))"

definition exponential_delay_for ::
    "rat \<Rightarrow> rat \<Rightarrow> rat \<Rightarrow> rat \<Rightarrow> rat \<Rightarrow> int \<Rightarrow> timedelta result" where
  "exponential_delay_for u base_s factor cap_s jitter attempt =
     (case float_pow factor (nat (max 0 (attempt - 1))) of
        Inl e \<Rightarrow> Inl e
      | Inr p \<Rightarrow>
          timedelta_seconds (Fin (jittered u (min (base_s * p) cap_s) jitter (Some cap_s))))"

definition custom_delay_for ::
    "('f \<Rightarrow> int \<Rightarrow> backoff_value result) \<Rightarrow> 'f \<Rightarrow> int \<Rightarrow> timedelta result" where
  "custom_delay_for fn f attempt =
     (case fn f attempt of
        Inl e \<Rightarrow> Inl e
      | Inr (AsTimedelta d) \<Rightarrow> Inr d
      | Inr (AsSeconds x) \<Rightarrow> timedelta_seconds x)"

fun backoff_delay_for ::
    "('f \<Rightarrow> int \<Rightarrow> backoff_value result) \<Rightarrow> rat \<Rightarrow> 'f backoff_policy \<Rightarrow> int \<Rightarrow> timedelta result" where
  "backoff_delay_for fn u (Constant s j) attempt = constant_delay_for u s j attempt"
| "backoff_delay_for fn u (Exponential b f c j) attempt = exponential_delay_for u b f c j attempt"
| "backoff_delay_for fn u (Custom f) attempt = custom_delay_for fn f attempt"

text \<open>\<open>core.backoff.retry_delay\<close>: exponential backoff over integer delays.\<close>

definition default_base_delay_seconds :: int where "default_base_delay_seconds = 120"
definition default_max_delay_seconds :: int where "default_max_delay_seconds = 3600"
definition default_jitter_fraction :: rat where "default_jitter_fraction = 1 / 4"

text \<open>\<open>2 ** attempts\<close>: an integer, or a float below 1 for a negative exponent.\<close>

definition two_pow :: "int \<Rightarrow> rat" where
  "two_pow n = (if 0 \<le> n then 2 ^ nat n else 1 / 2 ^ nat (- n))"

definition retry_delay :: "rat \<Rightarrow> int \<Rightarrow> int \<Rightarrow> int \<Rightarrow> rat \<Rightarrow> timedelta result" where
  "retry_delay u attempts base_delay max_delay jitter =
     (let delay = min (of_int base_delay * two_pow attempts) (of_int max_delay);
          jitter_amount = delay * jitter;
          jittered_delay = delay + uniform u (- jitter_amount) jitter_amount;
          delay' = (if jitter > 0 then max 0 (min jittered_delay (of_int max_delay)) else delay)
      in timedelta_seconds (Fin delay'))"

definition default_task_backoff :: "rat \<Rightarrow> int \<Rightarrow> timedelta result" where
  "default_task_backoff u attempts =
     retry_delay u attempts default_base_delay_seconds default_max_delay_seconds
       default_jitter_fraction"

section \<open>Policies\<close>

text \<open>
  The value of \<open>retry_on\<close> or \<open>fail_fast_on\<close>: a tuple of classes, a bare class (accepted as a
  slip), or anything else.
\<close>

datatype exc_spec = ExcTuple "pyclass list" | ExcClass pyclass | NotExc

fun spec_truthy :: "exc_spec \<Rightarrow> bool" where
  "spec_truthy (ExcTuple cs) = (cs \<noteq> [])"
| "spec_truthy _ = True"

fun spec_classes :: "exc_spec \<Rightarrow> pyclass list" where
  "spec_classes (ExcTuple cs) = cs"
| "spec_classes (ExcClass c) = [c]"
| "spec_classes NotExc = []"

record ('h, 'f) task_policy =
  p_task_type :: string
  p_handler :: "'h option"
  p_queue :: string
  p_priority :: int
  p_max_attempts :: int
  p_backoff :: "'f backoff_policy"
  p_retry_on :: exc_spec
  p_fail_fast_on :: exc_spec

definition task_defaults :: "('h, 'f) task_policy" where
  "task_defaults = \<lparr>p_task_type = '''', p_handler = None, p_queue = ''default'',
     p_priority = 0, p_max_attempts = 5, p_backoff = Exponential 120 2 3600 (1 / 4),
     p_retry_on = ExcTuple [], p_fail_fast_on = ExcTuple [NonRetryableErrorC]\<rparr>"

definition is_retryable :: "('h, 'f) task_policy \<Rightarrow> exn \<Rightarrow> bool" where
  "is_retryable p exc =
     (if spec_truthy (p_fail_fast_on p) \<and> isinstance exc (spec_classes (p_fail_fast_on p))
      then False
      else if \<not> spec_truthy (p_retry_on p) then True
      else isinstance exc (spec_classes (p_retry_on p)))"

definition policy_delay_for ::
    "('f \<Rightarrow> int \<Rightarrow> backoff_value result) \<Rightarrow> rat \<Rightarrow> ('h, 'f) task_policy \<Rightarrow> int
     \<Rightarrow> timedelta result" where
  "policy_delay_for fn u p attempt = backoff_delay_for fn u (p_backoff p) attempt"

section \<open>Policy layers\<close>

text \<open>
  A layer is a keyword dictionary: one entry per key.  \<open>OUnknown\<close> is a key outside
  \<open>POLICY_FIELDS\<close>; \<open>NotInt\<close> is a value that is no \<open>int\<close> (or is a \<open>bool\<close>); \<open>OBackoff None\<close> is a
  value without \<open>delay_for\<close>.
\<close>

datatype max_value = IntValue int | NotInt

datatype 'f override =
    OQueue string | OPriority int | OMaxAttempts max_value
  | OBackoff "'f backoff_policy option" | ORetryOn exc_spec | OFailFastOn exc_spec
  | OUnknown string

type_synonym 'f overrides = "'f override list"

fun is_unknown :: "'f override \<Rightarrow> bool" where
  "is_unknown (OUnknown _) = True"
| "is_unknown _ = False"

fun bad_max_attempts :: "'f override \<Rightarrow> bool" where
  "bad_max_attempts (OMaxAttempts (IntValue n)) = (n < 1)"
| "bad_max_attempts (OMaxAttempts NotInt) = True"
| "bad_max_attempts _ = False"

fun bad_exceptions :: "'f override \<Rightarrow> bool" where
  "bad_exceptions (ORetryOn NotExc) = True"
| "bad_exceptions (OFailFastOn NotExc) = True"
| "bad_exceptions _ = False"

fun bad_backoff :: "'f override \<Rightarrow> bool" where
  "bad_backoff (OBackoff None) = True"
| "bad_backoff _ = False"

text \<open>\<open>overrides[key] = (value,)\<close> for a bare class.\<close>

fun normalise_override :: "'f override \<Rightarrow> 'f override" where
  "normalise_override (ORetryOn (ExcClass c)) = ORetryOn (ExcTuple [c])"
| "normalise_override (OFailFastOn (ExcClass c)) = OFailFastOn (ExcTuple [c])"
| "normalise_override o' = o'"

definition validate_overrides :: "'f overrides \<Rightarrow> 'f overrides result" where
  "validate_overrides os =
     (if list_ex is_unknown os then Inl (py_exn TypeErrorC ''Unknown policy field(s)'')
      else if list_ex bad_max_attempts os
      then Inl (py_exn ValueErrorC ''max_attempts must be an int >= 1'')
      else if list_ex bad_exceptions os
      then Inl (py_exn TypeErrorC ''must be a tuple of exception classes'')
      else if list_ex bad_backoff os
      then Inl (py_exn TypeErrorC ''backoff must implement delay_for(attempt)'')
      else Inr (map normalise_override os))"

text \<open>\<open>dataclasses.replace(policy, **overrides)\<close>.\<close>

fun apply_override :: "'f override \<Rightarrow> ('h, 'f) task_policy \<Rightarrow> ('h, 'f) task_policy" where
  "apply_override (OQueue q) p = p\<lparr>p_queue := q\<rparr>"
| "apply_override (OPriority n) p = p\<lparr>p_priority := n\<rparr>"
| "apply_override (OMaxAttempts (IntValue n)) p = p\<lparr>p_max_attempts := n\<rparr>"
| "apply_override (OBackoff (Some b)) p = p\<lparr>p_backoff := b\<rparr>"
| "apply_override (ORetryOn e) p = p\<lparr>p_retry_on := e\<rparr>"
| "apply_override (OFailFastOn e) p = p\<lparr>p_fail_fast_on := e\<rparr>"
| "apply_override _ p = p"

definition replace_policy :: "'f overrides \<Rightarrow> ('h, 'f) task_policy \<Rightarrow> ('h, 'f) task_policy" where
  "replace_policy os p = fold apply_override os p"

section \<open>The registry and the resolver\<close>

text \<open>The two process-global dictionaries: the registry and the project-wide layer.\<close>

record ('h, 'f) policy_state =
  registered :: "(string \<times> ('h, 'f) task_policy) list"
  project_policies :: "(string \<times> 'f overrides) list"

definition register ::
    "('h, 'f) task_policy \<Rightarrow> bool \<Rightarrow> ('h, 'f) policy_state
     \<Rightarrow> (('h, 'f) task_policy \<times> ('h, 'f) policy_state) result" where
  "register policy replace_existing st =
     (case map_of (registered st) (p_task_type policy) of
        Some existing \<Rightarrow>
          if \<not> replace_existing
          then (if existing = policy then Inr (existing, st)
                else Inl (py_exn DuplicateTaskTypeErrorC ''Task type is already registered''))
          else Inr (policy, st\<lparr>registered :=
                 AList.update (p_task_type policy) policy (registered st)\<rparr>)
      | None \<Rightarrow> Inr (policy, st\<lparr>registered :=
                 AList.update (p_task_type policy) policy (registered st)\<rparr>))"

definition registry_get :: "string \<Rightarrow> ('h, 'f) policy_state \<Rightarrow> ('h, 'f) task_policy option" where
  "registry_get task_type st = map_of (registered st) task_type"

definition task_types :: "('h, 'f) policy_state \<Rightarrow> string list" where
  "task_types st = sort (map fst (registered st))"

definition unregister :: "string \<Rightarrow> ('h, 'f) policy_state \<Rightarrow> ('h, 'f) policy_state" where
  "unregister task_type st = st\<lparr>registered := AList.delete task_type (registered st)\<rparr>"

definition clear_registry :: "('h, 'f) policy_state \<Rightarrow> ('h, 'f) policy_state" where
  "clear_registry st = st\<lparr>registered := []\<rparr>"

text \<open>\<open>@task(task_type, **policy_kwargs)\<close> applied to the function \<open>fn\<close>.\<close>

definition task_decorator ::
    "string \<Rightarrow> 'f overrides \<Rightarrow> 'h \<Rightarrow> ('h, 'f) policy_state \<Rightarrow> ('h, 'f) policy_state result" where
  "task_decorator task_type kwargs fn st =
     (case validate_overrides kwargs of
        Inl e \<Rightarrow> Inl e
      | Inr overrides \<Rightarrow>
          (case register (replace_policy overrides
                  (task_defaults\<lparr>p_task_type := task_type, p_handler := Some fn\<rparr>)) False st of
             Inl e \<Rightarrow> Inl e
           | Inr (_, st') \<Rightarrow> Inr st'))"

text \<open>
  \<open>configure_policies\<close>: a first loop validates a copy of every layer, a second one stores
  the layers as they were given.
\<close>

fun first_invalid :: "(string \<times> 'f overrides) list \<Rightarrow> exn option" where
  "first_invalid [] = None"
| "first_invalid ((_, os) # ps) =
     (case validate_overrides os of Inl e \<Rightarrow> Some e | Inr _ \<Rightarrow> first_invalid ps)"

fun store_layers ::
    "(string \<times> 'f overrides) list \<Rightarrow> (string \<times> 'f overrides) list
     \<Rightarrow> (string \<times> 'f overrides) list" where
  "store_layers [] project = project"
| "store_layers ((task_type, os) # ps) project = store_layers ps (AList.update task_type os project)"

definition configure_policies ::
    "(string \<times> 'f overrides) list \<Rightarrow> ('h, 'f) policy_state \<Rightarrow> ('h, 'f) policy_state result" where
  "configure_policies policies st =
     (case first_invalid policies of
        Some e \<Rightarrow> Inl e
      | None \<Rightarrow> Inr (st\<lparr>project_policies := store_layers policies (project_policies st)\<rparr>))"

definition clear_project_policies :: "('h, 'f) policy_state \<Rightarrow> ('h, 'f) policy_state" where
  "clear_project_policies st = st\<lparr>project_policies := []\<rparr>"

definition resolve_policy :: "('h, 'f) policy_state \<Rightarrow> string \<Rightarrow> ('h, 'f) task_policy" where
  "resolve_policy st task_type =
     (let policy = (case registry_get task_type st of
                      Some declared \<Rightarrow> declared
                    | None \<Rightarrow> task_defaults\<lparr>p_task_type := task_type\<rparr>)
      in case map_of (project_policies st) task_type of
           None \<Rightarrow> policy
         | Some overrides \<Rightarrow>
             if overrides = [] then policy else replace_policy overrides policy)"

section \<open>The contract of a backoff policy\<close>

text \<open>
  What a scheduler may rely on when it asks a backoff for a delay: the delay is never
  negative and never above a known bound.
\<close>

locale bounded_backoff =
  fixes delay :: "int \<Rightarrow> timedelta result" and bound :: timedelta
  assumes delay_range: "delay n = Inr d \<Longrightarrow> 0 \<le> d \<and> d \<le> bound"
begin

text \<open>The time of a retry scheduled with such a backoff lies in a known window.\<close>

lemma retry_window:
  "delay n = Inr d \<Longrightarrow> datetime_add now d = Inr t \<Longrightarrow> now \<le> t \<and> t \<le> now + bound"
  by (auto dest!: delay_range datetime_add_Inr)

text \<open>A longer requested delay replaces it without leaving the window's lower end.\<close>

lemma floor_window:
  "delay n = Inr d \<Longrightarrow> datetime_add now (if d < r then r else d) = Inr t \<Longrightarrow>
   now + d \<le> t \<and> now + r \<le> t \<and> t \<le> now + max bound r"
  by (auto dest!: delay_range datetime_add_Inr split: if_splits)

end

lemma jittered_nonneg [simp]: "0 \<le> jittered u s j c"
  by (simp add: jittered_def Let_def)

lemma jittered_le_cap: "jittered u s j (Some c) \<le> max 0 c"
  by (simp add: jittered_def Let_def)

lemma jittered_no_jitter: "j \<le> 0 \<Longrightarrow> jittered u s j None = max 0 s"
  by (simp add: jittered_def Let_def)

lemma jittered_spread:
  assumes "valid_draw u" and "0 \<le> s" and "0 \<le> j"
  shows "jittered u s j None \<le> s * (1 + j)"
proof -
  have "uniform u (- (s * j)) (s * j) \<le> s * j"
    using uniform_bounds [OF assms(1), of "- (s * j)" "s * j"] assms(2,3) by simp
  then show ?thesis
    using assms(2,3) by (auto simp: jittered_def Let_def algebra_simps)
qed

lemma exponential_delay_range:
  assumes "exponential_delay_for u b f c j n = Inr d"
  shows "0 \<le> d \<and> d \<le> round_half_even (max 0 c * 1000000)"
proof -
  obtain s where s: "timedelta_seconds (Fin (jittered u s j (Some c))) = Inr d"
    using assms by (auto simp: exponential_delay_for_def split: sum.splits)
  show ?thesis
    using timedelta_seconds_nonneg [OF s jittered_nonneg]
      timedelta_seconds_le [OF s jittered_le_cap] by simp
qed

lemma retry_delay_range:
  assumes r: "retry_delay u n b m j = Inr d" and "0 \<le> b" and "0 \<le> m"
  shows "0 \<le> d \<and> d \<le> round_half_even (of_int m * 1000000)"
proof -
  let ?x = "min (of_int b * two_pow n) (of_int m :: rat)"
  let ?y = "if j > 0 then max 0 (min (?x + uniform u (- (?x * j)) (?x * j)) (of_int m)) else ?x"
  have x: "0 \<le> ?x" using assms(2,3) by (auto simp: two_pow_def)
  then have y: "0 \<le> ?y" "?y \<le> of_int m" using assms(3) by auto
  have td: "timedelta_seconds (Fin ?y) = Inr d"
    using r by (simp add: retry_delay_def Let_def)
  show ?thesis
    using timedelta_seconds_nonneg [OF td y(1)] timedelta_seconds_le [OF td y(2)] by simp
qed

interpretation exponential_backoff: bounded_backoff
  "exponential_delay_for u b f c j" "round_half_even (max 0 c * 1000000)"
  for u b f c j
  by unfold_locales (rule exponential_delay_range)

interpretation default_backoff: bounded_backoff "default_task_backoff u" "3600 * second" for u
proof unfold_locales
  fix n d assume "default_task_backoff u n = Inr d"
  then show "0 \<le> d \<and> d \<le> 3600 * second"
    using retry_delay_range [of u n 120 3600 "1 / 4" d] round_half_even_of_int [of 3600000000]
    by (simp add: default_task_backoff_def default_base_delay_seconds_def
        default_max_delay_seconds_def default_jitter_fraction_def)
qed

interpretation constant_backoff: bounded_backoff
  "constant_delay_for u s 0" "round_half_even (max 0 s * 1000000)" for u s
proof unfold_locales
  fix n d assume "constant_delay_for u s 0 n = Inr d"
  then have td: "timedelta_seconds (Fin (max 0 s)) = Inr d"
    by (simp add: constant_delay_for_def jittered_no_jitter)
  show "0 \<le> d \<and> d \<le> round_half_even (max 0 s * 1000000)"
    using timedelta_seconds_nonneg [OF td] timedelta_seconds_le [OF td order_refl] by simp
qed

section \<open>Facts about policies\<close>

lemma spec_classes_one [simp]: "spec_classes (ExcTuple [c]) = spec_classes (ExcClass c)"
  by simp

text \<open>Applying a layer never touches the task type or the handler.\<close>

lemma replace_policy_identity [simp]:
  "p_task_type (replace_policy os p) = p_task_type p"
  "p_handler (replace_policy os p) = p_handler p"
proof -
  have "p_task_type (fold apply_override os p) = p_task_type p \<and>
        p_handler (fold apply_override os p) = p_handler p"
  proof (induction os arbitrary: p)
    case Nil
    then show ?case by simp
  next
    case (Cons a os)
    have "p_task_type (apply_override a p) = p_task_type p \<and>
          p_handler (apply_override a p) = p_handler p"
      by (cases "(a, p)" rule: apply_override.cases) auto
    with Cons show ?case by simp
  qed
  then show "p_task_type (replace_policy os p) = p_task_type p"
    and "p_handler (replace_policy os p) = p_handler p"
    by (simp_all add: replace_policy_def)
qed

text \<open>
  The key of an entry in its keyword dictionary.  In a layer with distinct keys (every
  Python dictionary) each entry is in effect after the merge, and a field no entry names
  keeps the value of the layer below.
\<close>

fun override_key :: "'f override \<Rightarrow> string" where
  "override_key (OQueue _) = ''queue''"
| "override_key (OPriority _) = ''priority''"
| "override_key (OMaxAttempts _) = ''max_attempts''"
| "override_key (OBackoff _) = ''backoff''"
| "override_key (ORetryOn _) = ''retry_on''"
| "override_key (OFailFastOn _) = ''fail_fast_on''"
| "override_key (OUnknown k) = k"

lemma apply_override_idem: "apply_override a (apply_override a p) = apply_override a p"
  by (cases "(a, p)" rule: apply_override.cases) auto

lemma apply_override_commute:
  "override_key a \<noteq> override_key b \<Longrightarrow>
   apply_override a (apply_override b p) = apply_override b (apply_override a p)"
  by (cases "(a, p)" rule: apply_override.cases; cases "(b, p)" rule: apply_override.cases)
    simp_all

lemma replace_policy_commute:
  "override_key a \<notin> override_key ` set os \<Longrightarrow>
   apply_override a (replace_policy os p) = replace_policy os (apply_override a p)"
proof (induction os arbitrary: p)
  case Nil
  then show ?case by (simp add: replace_policy_def)
next
  case (Cons b os)
  then have "apply_override a (replace_policy os (apply_override b p))
      = replace_policy os (apply_override a (apply_override b p))"
    by simp
  also have "\<dots> = replace_policy os (apply_override b (apply_override a p))"
    using Cons.prems apply_override_commute [of a b p] by simp
  finally show ?case by (simp add: replace_policy_def)
qed

lemma replace_policy_in_effect:
  "distinct (map override_key os) \<Longrightarrow> a \<in> set os \<Longrightarrow>
   apply_override a (replace_policy os p) = replace_policy os p"
proof (induction os arbitrary: p)
  case Nil
  then show ?case by simp
next
  case (Cons b os)
  show ?case
  proof (cases "a = b")
    case True
    then have "override_key a \<notin> override_key ` set os" using Cons.prems by auto
    then have "apply_override a (replace_policy os (apply_override a p))
        = replace_policy os (apply_override a p)"
      by (simp add: replace_policy_commute apply_override_idem)
    with True show ?thesis by (simp add: replace_policy_def)
  next
    case False
    with Cons have "apply_override a (replace_policy os (apply_override b p))
        = replace_policy os (apply_override b p)"
      by simp
    then show ?thesis by (simp add: replace_policy_def)
  qed
qed

end
