(* ===== verification/Task_States.thy ===== *)
theory Task_States
  imports Dewey_Prelude
begin

text \<open>
  The task status state machine (\<open>src/dewey/core/states.py\<close>): the enum \<open>TaskStatus\<close> with
  its database values, the terminal states, the table of allowed transitions, and the two
  attempt-budget predicates.
\<close>

datatype task_status =
    PENDING | DISPATCHING | PROCESSING | COMPLETED | FAILED | DEAD | EXPIRED

fun status_value :: "task_status \<Rightarrow> string" where
  "status_value PENDING = ''pending''"
| "status_value DISPATCHING = ''dispatching''"
| "status_value PROCESSING = ''processing''"
| "status_value COMPLETED = ''completed''"
| "status_value FAILED = ''failed''"
| "status_value DEAD = ''dead''"
| "status_value EXPIRED = ''expired''"

definition all_statuses :: "task_status list" where
  "all_statuses = [PENDING, DISPATCHING, PROCESSING, COMPLETED, FAILED, DEAD, EXPIRED]"

text \<open>\<open>TaskStatus(value)\<close>: the member with that value, or \<open>ValueError\<close>.\<close>

definition status_of_value :: "string \<Rightarrow> task_status option" where
  "status_of_value v = find (\<lambda>s. status_value s = v) all_statuses"

definition terminal_states :: "task_status list" where
  "terminal_states = [COMPLETED, DEAD, EXPIRED]"

definition is_terminal :: "task_status \<Rightarrow> bool" where
  "is_terminal s = (s \<in> set terminal_states)"

fun allowed_transitions :: "task_status \<Rightarrow> task_status list option" where
  "allowed_transitions PENDING = Some [DISPATCHING, PROCESSING, DEAD, EXPIRED]"
| "allowed_transitions DISPATCHING = Some [PROCESSING, PENDING, DEAD, EXPIRED]"
| "allowed_transitions PROCESSING = Some [COMPLETED, FAILED, DEAD, PENDING]"
| "allowed_transitions FAILED = Some [PENDING, DISPATCHING, DEAD, EXPIRED]"
| "allowed_transitions DEAD = Some [PENDING]"
| "allowed_transitions _ = None"

definition can_transition_to :: "task_status \<Rightarrow> task_status \<Rightarrow> bool" where
  "can_transition_to s target =
     (target \<in> set (case allowed_transitions s of None \<Rightarrow> [] | Some ts \<Rightarrow> ts))"

definition should_retry :: "int \<Rightarrow> int \<Rightarrow> bool" where
  "should_retry attempts max_attempts = (attempts < max_attempts)"

definition should_die :: "int \<Rightarrow> int \<Rightarrow> bool" where
  "should_die attempts max_attempts = (attempts \<ge> max_attempts)"

section \<open>Facts\<close>

lemma is_terminal_simps [simp]:
  "is_terminal PENDING = False" "is_terminal DISPATCHING = False"
  "is_terminal PROCESSING = False" "is_terminal FAILED = False"
  "is_terminal COMPLETED" "is_terminal DEAD" "is_terminal EXPIRED"
  by (simp_all add: is_terminal_def terminal_states_def)

lemma set_all_statuses: "set all_statuses = UNIV"
  unfolding all_statuses_def by (auto intro: task_status.exhaust)

lemma distinct_all_statuses: "distinct all_statuses"
  by (simp add: all_statuses_def)

lemma status_value_inj: "status_value s = status_value t \<Longrightarrow> s = t"
  by (cases s; cases t) auto

lemma can_transition_table [simp]:
  "can_transition_to PENDING t = (t \<in> {DISPATCHING, PROCESSING, DEAD, EXPIRED})"
  "can_transition_to DISPATCHING t = (t \<in> {PROCESSING, PENDING, DEAD, EXPIRED})"
  "can_transition_to PROCESSING t = (t \<in> {COMPLETED, FAILED, DEAD, PENDING})"
  "can_transition_to FAILED t = (t \<in> {PENDING, DISPATCHING, DEAD, EXPIRED})"
  "can_transition_to DEAD t = (t = PENDING)"
  "can_transition_to COMPLETED t = False"
  "can_transition_to EXPIRED t = False"
  by (auto simp: can_transition_to_def)

lemma should_die_not_retry: "should_die a m = (\<not> should_retry a m)"
  by (auto simp: should_die_def should_retry_def)

end
