(* ===== verification/Failure_Handling.thy ===== *)
theory Failure_Handling
  imports Task_Policy Task_States
begin

text \<open>
  The failure decision shared by the three executors (\<open>src/dewey/core/execution.py\<close>):
  \<open>classify_failure\<close> and \<open>resolve_handler\<close>.
\<close>

record failure_outcome =
  out_status :: task_status
  out_retry_at :: "datetime option"
  out_reason :: string

definition is_dead :: "failure_outcome \<Rightarrow> bool" where
  "is_dead out = (out_status out = DEAD)"

text \<open>
  \<open>delay_for\<close> is the policy's own backoff, \<open>backoff\<close> the caller's override.  A backoff
  function may raise, and so may the arithmetic on its result; the error is the caller's.
\<close>

definition classify_failure ::
    "exn \<Rightarrow> ('h, 'f) task_policy \<Rightarrow> (int \<Rightarrow> timedelta result) \<Rightarrow> int \<Rightarrow> int \<Rightarrow> datetime
     \<Rightarrow> (int \<Rightarrow> timedelta result) option \<Rightarrow> failure_outcome result" where
  "classify_failure exc policy delay_for attempts max_attempts now backoff =
     (let requested = (if isinstance exc [RetryAfterC]
                       then (case timedelta_seconds (exn_seconds exc) of
                               Inl e \<Rightarrow> Inl e | Inr d \<Rightarrow> Inr (Some d))
                       else Inr None)
      in case requested of
           Inl e \<Rightarrow> Inl e
         | Inr requested_delay \<Rightarrow>
             if requested_delay = None \<and> \<not> is_retryable policy exc
             then Inr \<lparr>out_status = DEAD, out_retry_at = None, out_reason = ''non-retryable''\<rparr>
             else if should_die attempts max_attempts
             then Inr \<lparr>out_status = DEAD, out_retry_at = None,
                       out_reason = ''attempts exhausted''\<rparr>
             else (case (case backoff of Some b \<Rightarrow> b attempts | None \<Rightarrow> delay_for attempts) of
                     Inl e \<Rightarrow> Inl e
                   | Inr delay \<Rightarrow>
                       (case datetime_add now
                               (case requested_delay of
                                  Some r \<Rightarrow> if r > delay then r else delay
                                | None \<Rightarrow> delay) of
                          Inl e \<Rightarrow> Inl e
                        | Inr t \<Rightarrow> Inr \<lparr>out_status = FAILED, out_retry_at = Some t,
                                       out_reason = ''retry''\<rparr>)))"

definition resolve_handler ::
    "string \<Rightarrow> 'h option \<Rightarrow> ('h, 'f) task_policy \<Rightarrow> 'h result" where
  "resolve_handler task_type explicit policy =
     (case explicit of
        Some h \<Rightarrow> Inr h
      | None \<Rightarrow> (case p_handler policy of
          None \<Rightarrow> Inl (py_exn UnknownTaskTypeErrorC
                  (''No handler registered for task type '' @ task_type))
        | Some h \<Rightarrow> Inr h))"

section \<open>Facts\<close>

lemmas classify_cases =
  classify_failure_def Let_def is_dead_def

lemma classify_status:
  "classify_failure exc p df a m now b = Inr out \<Longrightarrow>
   (out_status out = DEAD \<and> out_retry_at out = None) \<or>
   (out_status out = FAILED \<and> out_retry_at out \<noteq> None)"
  by (auto simp: classify_cases split: sum.splits option.splits if_splits)

lemma classify_failed_budget:
  "classify_failure exc p df a m now b = Inr out \<Longrightarrow> out_status out = FAILED \<Longrightarrow> a < m"
  by (auto simp: classify_cases should_die_def split: sum.splits option.splits if_splits)

lemma classify_is_dead:
  "classify_failure exc p df a m now b = Inr out \<Longrightarrow>
   \<not> is_dead out \<Longrightarrow> out_status out = FAILED \<and> (\<exists>t. out_retry_at out = Some t)"
  by (auto dest: classify_status simp: is_dead_def)

text \<open>A retry is scheduled no earlier than the backoff in force allows.\<close>

lemma classify_retry_at:
  assumes "classify_failure exc p df a m now None = Inr out" and "out_status out = FAILED"
  obtains d t where "df a = Inr d" and "out_retry_at out = Some t" and "now + d \<le> t"
  using assms
  by (auto simp: classify_cases split: sum.splits option.splits if_splits
      dest!: datetime_add_Inr)

end
