(* ===== verification/Json_Args.thy ===== *)
theory Json_Args
  imports Py_Runtime
begin

text \<open>
  Task arguments (\<open>src/dewey/serialization.py\<close>): the JSON values a row stores, Python's
  equality on them, and the encoder that turns call arguments into JSON or refuses them.
\<close>

section \<open>JSON values and Python equality\<close>

text \<open>
  A decoded JSON value.  A dictionary is its items in insertion order, keys distinct.
\<close>

datatype json =
    JNull | JBool bool | JInt int | JFloat rat | JStr string
  | JList "json list" | JDict "(string \<times> json) list"

text \<open>The number a value is, for \<open>==\<close>: \<open>True == 1 == 1.0\<close> in Python.\<close>

fun json_number :: "json \<Rightarrow> rat option" where
  "json_number (JBool b) = Some (if b then 1 else 0)"
| "json_number (JInt i) = Some (of_int i)"
| "json_number (JFloat q) = Some q"
| "json_number _ = None"

text \<open>Python's \<open>==\<close>: numbers by value, lists item by item, dictionaries key by key.\<close>

fun py_eq :: "json \<Rightarrow> json \<Rightarrow> bool"
and py_eq_list :: "json list \<Rightarrow> json list \<Rightarrow> bool"
and py_eq_items :: "(string \<times> json) list \<Rightarrow> (string \<times> json) list \<Rightarrow> bool" where
  "py_eq JNull b = (b = JNull)"
| "py_eq (JStr s) b = (b = JStr s)"
| "py_eq (JList xs) b = (case b of JList ys \<Rightarrow> py_eq_list xs ys | _ \<Rightarrow> False)"
| "py_eq (JDict kvs) b =
     (case b of JDict lws \<Rightarrow> length kvs = length lws \<and> py_eq_items kvs lws | _ \<Rightarrow> False)"
| "py_eq a b = (json_number b = json_number a)"
| "py_eq_list [] ys = (ys = [])"
| "py_eq_list (x # xs) ys = (case ys of [] \<Rightarrow> False | y # ys' \<Rightarrow> py_eq x y \<and> py_eq_list xs ys')"
| "py_eq_items [] lws = True"
| "py_eq_items (kv # kvs) lws =
     ((case map_of lws (fst kv) of None \<Rightarrow> False | Some w \<Rightarrow> py_eq (snd kv) w)
      \<and> py_eq_items kvs lws)"

text \<open>A value the decoder can produce: every dictionary has distinct keys.\<close>

fun json_wf :: "json \<Rightarrow> bool" where
  "json_wf (JList xs) = list_all json_wf xs"
| "json_wf (JDict kvs) = (distinct (map fst kvs) \<and> list_all (\<lambda>kv. json_wf (snd kv)) kvs)"
| "json_wf _ = True"

text \<open>At most \<open>n\<close> levels of lists and dictionaries around every value inside.\<close>

fun json_fits :: "nat \<Rightarrow> json \<Rightarrow> bool" where
  "json_fits n (JList xs) = list_all (\<lambda>x. 0 < n \<and> json_fits (n - 1) x) xs"
| "json_fits n (JDict kvs) = list_all (\<lambda>kv. 0 < n \<and> json_fits (n - 1) (snd kv)) kvs"
| "json_fits n _ = True"

lemma py_eq_items_refl:
  "(\<And>kv. kv \<in> set kvs \<Longrightarrow> map_of lws (fst kv) = Some (snd kv) \<and> py_eq (snd kv) (snd kv)) \<Longrightarrow>
   py_eq_items kvs lws"
  by (induction kvs) auto

lemma py_eq_refl: "json_wf j \<Longrightarrow> py_eq j j"
proof (induction j rule: json_wf.induct)
  case (1 xs)
  then have "\<forall>x \<in> set xs. py_eq x x" by (auto simp: list_all_iff)
  then have "py_eq_list xs xs" by (induction xs) auto
  then show ?case by simp
next
  case (2 kvs)
  then have "py_eq_items kvs kvs"
    by (intro py_eq_items_refl) (auto simp: list_all_iff)
  then show ?case by simp
qed auto

section \<open>Call arguments\<close>

text \<open>
  A Python value, by the \<open>isinstance\<close> branch of \<open>encode_value\<close> that takes it: a \<open>str\<close>, \<open>bool\<close>
  or \<open>int\<close> (subclasses and mixed-in enums included), a float, bytes, any other enum member
  with its value, a date or time with its ISO text, a UUID with its text, a Decimal
  (finite or not) with its text, a mapping, a set, any other sequence, any other object.
\<close>

datatype pyval =
    PyNone | PyStr string | PyBool bool | PyInt int | PyFloat pyfloat | PyBytes
  | PyEnum pyval | PyTime string | PyUUID string | PyDecimal bool string
  | PyMapping "(pyval \<times> pyval) list" | PySet | PySeq "pyval list" | PyObject

datatype path_elem = PKey string | PIndex nat

record json_path =
  path_root :: string
  path_elems :: "path_elem list"

definition extend_path :: "json_path \<Rightarrow> path_elem \<Rightarrow> json_path" where
  "extend_path p e = p\<lparr>path_elems := path_elems p @ [e]\<rparr>"

datatype ser_error =
    TooDeep json_path | NotFinite json_path | IsBytes json_path | IsSet json_path
  | KeyNotString json_path | NotSerializable json_path
  | NotASequence string | NotAMapping string | KwargNotString string

definition max_depth :: nat where "max_depth = 10"

fun encode_value :: "json_path \<Rightarrow> nat \<Rightarrow> pyval \<Rightarrow> ser_error + json"
and encode_mapping ::
  "json_path \<Rightarrow> nat \<Rightarrow> (pyval \<times> pyval) list \<Rightarrow> ser_error + (string \<times> json) list"
and encode_sequence :: "json_path \<Rightarrow> nat \<Rightarrow> nat \<Rightarrow> pyval list \<Rightarrow> ser_error + json list" where
  "encode_value path depth v =
     (if depth > max_depth then Inl (TooDeep path)
      else case v of
        PyNone \<Rightarrow> Inr JNull
      | PyStr s \<Rightarrow> Inr (JStr s)
      | PyBool b \<Rightarrow> Inr (JBool b)
      | PyInt i \<Rightarrow> Inr (JInt i)
      | PyFloat x \<Rightarrow> (case x of Fin q \<Rightarrow> Inr (JFloat q) | _ \<Rightarrow> Inl (NotFinite path))
      | PyBytes \<Rightarrow> Inl (IsBytes path)
      | PyEnum w \<Rightarrow> encode_value path (Suc depth) w
      | PyTime s \<Rightarrow> Inr (JStr s)
      | PyUUID s \<Rightarrow> Inr (JStr s)
      | PyDecimal is_finite s \<Rightarrow> if is_finite then Inr (JStr s) else Inl (NotFinite path)
      | PyMapping kvs \<Rightarrow>
          (case encode_mapping path depth kvs of Inl e \<Rightarrow> Inl e | Inr js \<Rightarrow> Inr (JDict js))
      | PySet \<Rightarrow> Inl (IsSet path)
      | PySeq vs \<Rightarrow>
          (case encode_sequence path depth 0 vs of Inl e \<Rightarrow> Inl e | Inr js \<Rightarrow> Inr (JList js))
      | PyObject \<Rightarrow> Inl (NotSerializable path))"
| "encode_mapping path depth [] = Inr []"
| "encode_mapping path depth (kv # kvs) =
     (case fst kv of
        PyStr k \<Rightarrow>
          (case encode_value (extend_path path (PKey k)) (Suc depth) (snd kv) of
             Inl e \<Rightarrow> Inl e
           | Inr j \<Rightarrow>
               (case encode_mapping path depth kvs of
                  Inl e \<Rightarrow> Inl e | Inr js \<Rightarrow> Inr ((k, j) # js)))
      | _ \<Rightarrow> Inl (KeyNotString path))"
| "encode_sequence path depth index [] = Inr []"
| "encode_sequence path depth index (v # vs) =
     (case encode_value (extend_path path (PIndex index)) (Suc depth) v of
        Inl e \<Rightarrow> Inl e
      | Inr j \<Rightarrow>
          (case encode_sequence path depth (Suc index) vs of
             Inl e \<Rightarrow> Inl e | Inr js \<Rightarrow> Inr (j # js)))"

declare encode_value.simps [simp del]

fun encode_args_from :: "string \<Rightarrow> nat \<Rightarrow> pyval list \<Rightarrow> ser_error + json list" where
  "encode_args_from label index [] = Inr []"
| "encode_args_from label index (v # vs) =
     (case encode_value \<lparr>path_root = label, path_elems = [PIndex index]\<rparr> 0 v of
        Inl e \<Rightarrow> Inl e
      | Inr j \<Rightarrow> (case encode_args_from label (Suc index) vs of
                   Inl e \<Rightarrow> Inl e | Inr js \<Rightarrow> Inr (j # js)))"

definition encode_args :: "pyval \<Rightarrow> ser_error + json list" where
  "encode_args args =
     (case args of
        PyNone \<Rightarrow> Inr []
      | PySeq vs \<Rightarrow> encode_args_from ''args'' 0 vs
      | _ \<Rightarrow> Inl (NotASequence ''args''))"

fun encode_kwargs_from :: "string \<Rightarrow> (pyval \<times> pyval) list \<Rightarrow> ser_error + (string \<times> json) list" where
  "encode_kwargs_from label [] = Inr []"
| "encode_kwargs_from label (kv # kvs) =
     (case fst kv of
        PyStr k \<Rightarrow>
          (case encode_value \<lparr>path_root = label, path_elems = [PKey k]\<rparr> 0 (snd kv) of
             Inl e \<Rightarrow> Inl e
           | Inr j \<Rightarrow> (case encode_kwargs_from label kvs of
                        Inl e \<Rightarrow> Inl e | Inr js \<Rightarrow> Inr ((k, j) # js)))
      | _ \<Rightarrow> Inl (KwargNotString label))"

definition encode_kwargs :: "pyval \<Rightarrow> ser_error + (string \<times> json) list" where
  "encode_kwargs kwargs =
     (case kwargs of
        PyNone \<Rightarrow> Inr []
      | PyMapping kvs \<Rightarrow> encode_kwargs_from ''kwargs'' kvs
      | _ \<Rightarrow> Inl (NotAMapping ''kwargs''))"

text \<open>The exception the executors let through.\<close>

definition ser_exn :: "ser_error \<Rightarrow> exn" where
  "ser_exn e = py_exn SerializationErrorC ''Cannot serialize task arguments''"

section \<open>Facts\<close>

text \<open>A decoded value as a call argument: what a handler would pass on to another task.\<close>

fun embed :: "json \<Rightarrow> pyval" where
  "embed JNull = PyNone"
| "embed (JBool b) = PyBool b"
| "embed (JInt i) = PyInt i"
| "embed (JFloat q) = PyFloat (Fin q)"
| "embed (JStr s) = PyStr s"
| "embed (JList js) = PySeq (map embed js)"
| "embed (JDict kvs) = PyMapping (map (\<lambda>kv. (PyStr (fst kv), embed (snd kv))) kvs)"

lemma json_fits_mono: "json_fits m j \<Longrightarrow> m \<le> n \<Longrightarrow> json_fits n j"
proof (induction m j arbitrary: n rule: json_fits.induct)
  case (1 m xs)
  then show ?case by (auto simp: list_all_iff)
next
  case (2 m kvs)
  then show ?case by (auto simp: list_all_iff)
qed auto

text \<open>What the encoder accepts is never deeper than the guard allows.\<close>

lemma encode_fits:
  "encode_value p d v = Inr j \<Longrightarrow> d \<le> max_depth \<and> json_fits (max_depth - d) j"
  "encode_mapping p d kvs = Inr js \<Longrightarrow> d \<le> max_depth \<Longrightarrow>
   json_fits (max_depth - d) (JDict js)"
  "encode_sequence p d i vs = Inr xs \<Longrightarrow> d \<le> max_depth \<Longrightarrow>
   json_fits (max_depth - d) (JList xs)"
proof (induction p d v and p d kvs and p d i vs arbitrary: j and js and xs
    rule: encode_value_encode_mapping_encode_sequence.induct)
  case (1 path depth v)
  show ?case
  proof (cases "max_depth < depth")
    case True
    with "1.prems" show ?thesis by (simp add: encode_value.simps [of path depth v])
  next
    case False
    then have d: "depth \<le> max_depth" by simp
    have enum: "json_fits (max_depth - depth) j"
      if "v = PyEnum w" "encode_value path (Suc depth) w = Inr j" for w
      using "1.IH"(1) [OF False that] by (auto intro: json_fits_mono)
    have mapping: "json_fits (max_depth - depth) (JDict js)"
      if "v = PyMapping kvs" "encode_mapping path depth kvs = Inr js" for kvs js
      using "1.IH"(2) [OF False that d] .
    have seq: "json_fits (max_depth - depth) (JList js)"
      if "v = PySeq vs" "encode_sequence path depth 0 vs = Inr js" for vs js
      using "1.IH"(3) [OF False that d] .
    from "1.prems" False have "json_fits (max_depth - depth) j"
      by (auto simp: encode_value.simps [of path depth v] enum
          split: pyval.splits pyfloat.splits sum.splits if_splits
          dest!: mapping seq simp del: json_fits.simps(1,2))
    with d show ?thesis by simp
  qed
next
  case (2 path depth)
  then show ?case by simp
next
  case (3 path depth kv kvs)
  from "3.prems"(1) obtain k j' js' where k: "fst kv = PyStr k"
    and j: "encode_value (extend_path path (PKey k)) (Suc depth) (snd kv) = Inr j'"
    and js': "encode_mapping path depth kvs = Inr js'" and js: "js = (k, j') # js'"
    by (auto split: pyval.splits sum.splits)
  from "3.IH"(1) [OF k j] "3.IH"(2) [OF k j js' "3.prems"(2)] js show ?case
    by auto
next
  case (4 path depth index)
  then show ?case by simp
next
  case (5 path depth index v vs)
  then show ?case
    by (auto split: sum.splits)
qed

text \<open>A stored value encodes to itself, at every depth where it fits.\<close>

lemma encode_sequence_embed:
  "(\<And>x q. x \<in> set xs \<Longrightarrow> encode_value q (Suc d) (embed x) = Inr x) \<Longrightarrow>
   encode_sequence p d i (map embed xs) = Inr xs"
  by (induction xs arbitrary: i) auto

lemma encode_mapping_embed:
  "(\<And>kv q. kv \<in> set kvs \<Longrightarrow> encode_value q (Suc d) (embed (snd kv)) = Inr (snd kv)) \<Longrightarrow>
   encode_mapping p d (map (\<lambda>kv. (PyStr (fst kv), embed (snd kv))) kvs) = Inr kvs"
  by (induction kvs) auto

lemma encode_embed:
  "d \<le> max_depth \<Longrightarrow> json_fits (max_depth - d) j \<Longrightarrow> encode_value p d (embed j) = Inr j"
proof (induction j arbitrary: p d)
  case (JList xs)
  have "encode_sequence p d 0 (map embed xs) = Inr xs"
  proof (rule encode_sequence_embed)
    fix x q assume x: "x \<in> set xs"
    with JList.prems have "Suc d \<le> max_depth" "json_fits (max_depth - Suc d) x"
      by (auto simp: list_all_iff)
    then show "encode_value q (Suc d) (embed x) = Inr x"
      by (rule JList.IH [OF x])
  qed
  with JList.prems(1) show ?case by (simp add: encode_value.simps)
next
  case (JDict kvs)
  have "encode_mapping p d (map (\<lambda>kv. (PyStr (fst kv), embed (snd kv))) kvs) = Inr kvs"
  proof (rule encode_mapping_embed)
    fix kv q assume kv: "kv \<in> set kvs"
    with JDict.prems have "Suc d \<le> max_depth" "json_fits (max_depth - Suc d) (snd kv)"
      by (auto simp: list_all_iff)
    moreover have "snd kv \<in> Basic_BNFs.snds kv" by (cases kv) simp
    ultimately show "encode_value q (Suc d) (embed (snd kv)) = Inr (snd kv)"
      using JDict.IH [OF kv] by blast
  qed
  with JDict.prems(1) show ?case by (simp add: encode_value.simps)
qed (simp_all add: encode_value.simps)

lemma encode_args_from_fits:
  "encode_args_from l i vs = Inr js \<Longrightarrow> list_all (json_fits max_depth) js"
  by (induction vs arbitrary: i js) (auto split: sum.splits dest: encode_fits(1))

lemma encode_args_from_embed:
  "list_all (json_fits max_depth) js \<Longrightarrow> encode_args_from l i (map embed js) = Inr js"
  by (induction js arbitrary: i) (auto simp: encode_embed)

lemma encode_kwargs_from_fits:
  "encode_kwargs_from l kvs = Inr js \<Longrightarrow> list_all (\<lambda>kv. json_fits max_depth (snd kv)) js"
  by (induction kvs arbitrary: js) (auto split: sum.splits pyval.splits dest: encode_fits(1))

lemma encode_kwargs_from_embed:
  "list_all (\<lambda>kv. json_fits max_depth (snd kv)) js \<Longrightarrow>
   encode_kwargs_from l (map (\<lambda>kv. (PyStr (fst kv), embed (snd kv))) js) = Inr js"
  by (induction js) (auto simp: encode_embed)

lemma encode_args_fits: "encode_args v = Inr js \<Longrightarrow> list_all (json_fits max_depth) js"
  by (auto simp: encode_args_def split: pyval.splits dest: encode_args_from_fits)

lemma encode_kwargs_fits:
  "encode_kwargs v = Inr js \<Longrightarrow> list_all (\<lambda>kv. json_fits max_depth (snd kv)) js"
  by (auto simp: encode_kwargs_def split: pyval.splits dest: encode_kwargs_from_fits)

end
