(* ===== verification/Policy_Properties.thy ===== *)
theory Policy_Properties
  imports Failure_Handling Json_Args
begin

text \<open>
  Properties of the policy layer: what a failed attempt becomes and when it is retried, how
  the three policy layers merge, the registry, and the encoding of arguments.
\<close>

section \<open>What a failure becomes\<close>

text \<open>The delay a handler asked for by raising \<open>RetryAfter\<close>, 0 for any other exception.\<close>

definition asked_delay :: "exn \<Rightarrow> timedelta" where
  "asked_delay exc =
     (if isinstance exc [RetryAfterC]
      then (case timedelta_seconds (exn_seconds exc) of Inl _ \<Rightarrow> 0 | Inr d \<Rightarrow> d) else 0)"

definition may_retry :: "('h, 'f) task_policy \<Rightarrow> exn \<Rightarrow> bool" where
  "may_retry p exc = (isinstance exc [RetryAfterC] \<or> is_retryable p exc)"

lemma classify_split:
  assumes "classify_failure exc p df a m now b = Inr out"
  shows "(\<not> may_retry p exc \<longrightarrow>
      out = \<lparr>out_status = DEAD, out_retry_at = None, out_reason = ''non-retryable''\<rparr>) \<and>
    (may_retry p exc \<and> m \<le> a \<longrightarrow>
      out = \<lparr>out_status = DEAD, out_retry_at = None, out_reason = ''attempts exhausted''\<rparr>) \<and>
    (may_retry p exc \<and> a < m \<longrightarrow>
      (\<exists>d. (case b of Some f \<Rightarrow> f a | None \<Rightarrow> df a) = Inr d \<and>
        out = \<lparr>out_status = FAILED,
               out_retry_at = Some (now + (if isinstance exc [RetryAfterC]
                                            then max d (asked_delay exc) else d)),
               out_reason = ''retry''\<rparr>))"
  using assms
  by (auto simp: classify_failure_def Let_def may_retry_def asked_delay_def should_die_def max_def
      split: if_splits sum.splits option.splits dest!: datetime_add_Inr)






text \<open>
  With the exponential backoff of the defaults (any base, factor, cap and jitter, any random
  draw) a retry is scheduled no earlier than now and than the delay the handler asked for, and no
  later than the cap, or that delay if it is longer.
\<close>

lemma exponential_retry_window:
  assumes "p_backoff p = Exponential base factor cap jitter"
    and "classify_failure exc p (policy_delay_for fn u p) a m now None = Inr out"
    and "out_status out = FAILED"
  shows "\<exists>t. out_retry_at out = Some t \<and> now \<le> t \<and> now + asked_delay exc \<le> t \<and>
    t \<le> now + max (round_half_even (max 0 cap * 1000000)) (asked_delay exc)"
proof -
  obtain d where d: "exponential_delay_for u base factor cap jitter a = Inr d"
    and t: "out_retry_at out = Some (now + (if isinstance exc [RetryAfterC]
      then max d (asked_delay exc) else d))"
    using classify_split [OF assms(2)] assms(1,3)
    by (cases "may_retry p exc"; cases "a < m") (auto simp: policy_delay_for_def)
  have "0 \<le> d \<and> d \<le> round_half_even (max 0 cap * 1000000)"
    using exponential_backoff.delay_range [OF d] .
  then show ?thesis using t by (auto simp: asked_delay_def max_def)
qed

section \<open>Layers and registry\<close>

lemma replace_policy_field:
  assumes "\<And>o' p. o' \<in> set os \<Longrightarrow> g (apply_override o' p) = g p"
  shows "g (replace_policy os p) = g p"
  using assms unfolding replace_policy_def by (induction os arbitrary: p) auto

lemma override_other_field:
  "override_key o' \<noteq> ''queue'' \<Longrightarrow> p_queue (apply_override o' p) = p_queue p"
  "override_key o' \<noteq> ''priority'' \<Longrightarrow> p_priority (apply_override o' p) = p_priority p"
  "override_key o' \<noteq> ''max_attempts'' \<Longrightarrow> p_max_attempts (apply_override o' p) = p_max_attempts p"
  "override_key o' \<noteq> ''backoff'' \<Longrightarrow> p_backoff (apply_override o' p) = p_backoff p"
  "override_key o' \<noteq> ''retry_on'' \<Longrightarrow> p_retry_on (apply_override o' p) = p_retry_on p"
  "override_key o' \<noteq> ''fail_fast_on'' \<Longrightarrow> p_fail_fast_on (apply_override o' p) = p_fail_fast_on p"
  by (cases "(o', p)" rule: apply_override.cases; simp)+

definition declared_policy :: "('h, 'f) policy_state \<Rightarrow> string \<Rightarrow> ('h, 'f) task_policy" where
  "declared_policy st ty =
     (case registry_get ty st of
        Some declared \<Rightarrow> declared | None \<Rightarrow> task_defaults\<lparr>p_task_type := ty\<rparr>)"

lemma resolve_declared:
  "map_of (project_policies st) ty = Some os \<Longrightarrow>
   resolve_policy st ty = replace_policy os (declared_policy st ty)"
  by (simp add: resolve_policy_def declared_policy_def replace_policy_def Let_def)

text \<open>
  Policy resolution is layered: every entry of a project-wide layer is in effect (applying it
  once more changes nothing), every field the layer does not name keeps the value of the
  declaration (or of the defaults), and the task type and the handler are never overridden.
\<close>

lemma project_layer_in_effect:
  assumes "map_of (project_policies st) ty = Some os" and "distinct (map override_key os)"
  shows "(\<forall>o' \<in> set os. apply_override o' (resolve_policy st ty) = resolve_policy st ty) \<and>
    p_task_type (resolve_policy st ty) = p_task_type (declared_policy st ty) \<and>
    p_handler (resolve_policy st ty) = p_handler (declared_policy st ty) \<and>
    (''queue'' \<notin> override_key ` set os \<longrightarrow>
       p_queue (resolve_policy st ty) = p_queue (declared_policy st ty)) \<and>
    (''priority'' \<notin> override_key ` set os \<longrightarrow>
       p_priority (resolve_policy st ty) = p_priority (declared_policy st ty)) \<and>
    (''max_attempts'' \<notin> override_key ` set os \<longrightarrow>
       p_max_attempts (resolve_policy st ty) = p_max_attempts (declared_policy st ty)) \<and>
    (''backoff'' \<notin> override_key ` set os \<longrightarrow>
       p_backoff (resolve_policy st ty) = p_backoff (declared_policy st ty)) \<and>
    (''retry_on'' \<notin> override_key ` set os \<longrightarrow>
       p_retry_on (resolve_policy st ty) = p_retry_on (declared_policy st ty)) \<and>
    (''fail_fast_on'' \<notin> override_key ` set os \<longrightarrow>
       p_fail_fast_on (resolve_policy st ty) = p_fail_fast_on (declared_policy st ty))"
  unfolding resolve_declared [OF assms(1)]
  using replace_policy_in_effect [OF assms(2)]
  by (intro conjI impI ballI)
    (auto intro!: replace_policy_field override_other_field, (metis image_eqI)+)

definition sample_state :: "(nat, unit) policy_state" where
  "sample_state =
     \<lparr>registered = [(''email'', task_defaults\<lparr>p_task_type := ''email'', p_handler := Some 7,
        p_queue := ''mail'', p_priority := 3\<rparr>)],
      project_policies = [(''email'', [OPriority 9, OMaxAttempts (IntValue 2)])]\<rparr>"

lemma store_layers_lookup:
  "map_of (store_layers ps project) ty =
     (case map_of (rev ps) ty of Some os \<Rightarrow> Some os | None \<Rightarrow> map_of project ty)"
proof (induction ps project rule: store_layers.induct)
  case (1 project)
  then show ?case by simp
next
  case (2 task_type os ps project)
  then show ?case
    by (auto simp: map_add_def update_conv' split: option.splits)
qed

lemma first_invalid_None:
  "first_invalid ps = None \<longleftrightarrow> list_all (\<lambda>p. \<exists>os. validate_overrides (snd p) = Inr os) ps"
  by (induction ps rule: first_invalid.induct) (auto split: sum.split)

text \<open>
  \<open>configure_policies\<close> is all or nothing: it succeeds only if every layer is valid, and then
  each named type has its new layer, every other type keeps its old one, and the registry of
  declarations is untouched; if any layer is invalid nothing is stored.
\<close>

lemma configure_policies_atomic:
  "(case configure_policies ps st of
      Inl e \<Rightarrow> \<not> list_all (\<lambda>p. \<exists>os. validate_overrides (snd p) = Inr os) ps
    | Inr st' \<Rightarrow>
        list_all (\<lambda>p. \<exists>os. validate_overrides (snd p) = Inr os) ps \<and>
        registered st' = registered st \<and>
        (\<forall>ty. map_of (project_policies st') ty =
           (case map_of (rev ps) ty of Some os \<Rightarrow> Some os
            | None \<Rightarrow> map_of (project_policies st) ty)))"
proof (cases "first_invalid ps")
  case None
  then have "list_all (\<lambda>p. \<exists>os. validate_overrides (snd p) = Inr os) ps"
    by (simp add: first_invalid_None)
  with None show ?thesis by (simp add: configure_policies_def store_layers_lookup)
next
  case (Some e)
  then have "\<not> list_all (\<lambda>p. \<exists>os. validate_overrides (snd p) = Inr os) ps"
    using first_invalid_None [of ps] by simp
  with Some show ?thesis by (simp add: configure_policies_def)
qed

text \<open>
  Declaring a task type is idempotent and exclusive: repeating the same declaration changes
  nothing, and no other function can take the name over.
\<close>

lemma declaration_exclusive:
  assumes "task_decorator ty kw fn st = Inr st'"
  shows "task_decorator ty kw fn st' = Inr st' \<and>
    (\<exists>p. registry_get ty st' = Some p \<and> p_handler p = Some fn \<and> p_task_type p = ty) \<and>
    (\<forall>kw2 fn2. fn2 \<noteq> fn \<longrightarrow> (\<exists>e. task_decorator ty kw2 fn2 st' = Inl e))"
proof -
  obtain os where v: "validate_overrides kw = Inr os"
    using assms by (auto simp: task_decorator_def split: sum.splits)
  define p where "p = replace_policy os (task_defaults\<lparr>p_task_type := ty, p_handler := Some fn\<rparr>)"
  have id: "p_task_type p = ty" "p_handler p = Some fn" by (simp_all add: p_def)
  have reg: "map_of (registered st') ty = Some p"
    using assms v id
    by (auto simp: task_decorator_def register_def p_def [symmetric] update_conv'
        split: sum.splits option.splits if_splits)
  have "\<exists>e. task_decorator ty kw2 fn2 st' = Inl e" if "fn2 \<noteq> fn" for kw2 fn2
  proof (cases "validate_overrides kw2")
    case (Inl e)
    then show ?thesis by (simp add: task_decorator_def)
  next
    case (Inr os2)
    let ?q = "replace_policy os2 (task_defaults\<lparr>p_task_type := ty, p_handler := Some fn2\<rparr>)"
    have "p_handler ?q \<noteq> p_handler p" using that id by simp
    then have "p \<noteq> ?q" by metis
    then show ?thesis using Inr reg by (simp add: task_decorator_def register_def)
  qed
  moreover have "task_decorator ty kw fn st' = Inr st'"
    using v reg id by (simp add: task_decorator_def register_def p_def [symmetric])
  ultimately show ?thesis using reg id by (auto simp: registry_get_def)
qed

section \<open>Arguments\<close>

text \<open>
  Encoding is stable: what \<open>encode_args\<close> stored, passed on by a handler as arguments of
  another task, is accepted and stored unchanged, and nothing stored is nested deeper than the
  guard of ten levels.
\<close>

lemma encode_args_stable:
  assumes "encode_args v = Inr js"
  shows "encode_args (PySeq (map embed js)) = Inr js \<and> list_all (json_fits max_depth) js"
  using encode_args_fits [OF assms]
  by (auto simp: encode_args_def intro!: encode_args_from_embed)

end
