(* ===== verification/Ledger.thy ===== *)
theory Ledger
  imports Task_States Json_Args
begin

text \<open>
  The task ledger: the row of \<open>task_entries\<close> (\<open>src/dewey/sqlalchemy/models.py\<close>), the table as
  a list of rows, the row an \<open>INSERT\<close> creates with its unique constraints, notifications,
  and a producer's transaction with its savepoint.

  A committed table is a value of type \<open>ledger\<close>.  What other transactions commit between
  two statements of an operation is an argument \<open>env\<close> of that operation, an arbitrary
  function on ledgers; \<open>clk\<close> gives the operation's successive clock readings, and need not
  be monotone.
\<close>

section \<open>Rows\<close>

record task_row =
  row_id :: string
  task_type :: string
  status :: task_status
  args :: "json list"
  kwargs :: "(string \<times> json) list"
  task_metadata :: "(string \<times> json) list"
  queue :: string
  priority :: int
  attempts :: int
  max_attempts :: int
  error :: string
  created_at :: datetime
  updated_at :: datetime
  scheduled_for :: "datetime option"
  initial_scheduled_for :: "datetime option"
  dispatching_at :: "datetime option"
  started_at :: "datetime option"
  completed_at :: "datetime option"
  expires_at :: "datetime option"
  expired_at :: "datetime option"
  idempotency_key :: "string option"

type_synonym ledger = "task_row list"

definition find_row :: "string \<Rightarrow> ledger \<Rightarrow> task_row option" where
  "find_row i db = find (\<lambda>r. row_id r = i) db"

abbreviation set_row :: "string \<Rightarrow> (task_row \<Rightarrow> task_row) \<Rightarrow> ledger \<Rightarrow> ledger" where
  "set_row i f \<equiv> update_where (\<lambda>r. row_id r = i) f"

text \<open>
  The primary key, and \<open>uq_task_type_idempotency_key\<close>, in which NULL keys are distinct.
\<close>

definition key_clash :: "task_row \<Rightarrow> task_row \<Rightarrow> bool" where
  "key_clash r s =
     (row_id r = row_id s \<or>
      (task_type r = task_type s \<and> idempotency_key r \<noteq> None \<and>
       idempotency_key r = idempotency_key s))"

definition insert_row :: "task_row \<Rightarrow> ledger \<Rightarrow> ledger result" where
  "insert_row r db =
     (if list_ex (key_clash r) db then Inl (py_exn IntegrityErrorC ''duplicate key value'')
      else Inr (db @ [r]))"

definition ledger_wf :: "ledger \<Rightarrow> bool" where
  "ledger_wf db = sorted_wrt (\<lambda>r s. \<not> key_clash r s) db"

section \<open>Notifications and transactions\<close>

record notification =
  n_kind :: string
  n_id :: string
  n_queue :: "string option"

definition task_notification :: "string \<Rightarrow> string \<Rightarrow> notification" where
  "task_notification i q = \<lparr>n_kind = ''task'', n_id = i, n_queue = Some q\<rparr>"

text \<open>
  \<open>notify_work_available\<close>: \<open>pg_notify\<close> inside the transaction on PostgreSQL, nothing on
  another database.
\<close>

definition notify_work_available :: "bool \<Rightarrow> notification \<Rightarrow> notification list \<Rightarrow> notification list" where
  "notify_work_available is_postgresql n queued =
     (if is_postgresql then queued @ [n] else queued)"

text \<open>
  A caller-owned transaction: the committed table and the notifications delivered so far,
  the table as the transaction sees it, and the notifications it will send if it commits.
\<close>

record transaction =
  committed :: ledger
  delivered :: "notification list"
  working :: ledger
  queued :: "notification list"

definition begin_transaction :: "ledger \<Rightarrow> notification list \<Rightarrow> transaction" where
  "begin_transaction db sent = \<lparr>committed = db, delivered = sent, working = db, queued = []\<rparr>"

definition commit :: "transaction \<Rightarrow> transaction" where
  "commit t = t\<lparr>committed := working t, delivered := delivered t @ queued t, queued := []\<rparr>"

definition rollback :: "transaction \<Rightarrow> transaction" where
  "rollback t = t\<lparr>working := committed t, queued := []\<rparr>"

text \<open>\<open>begin_nested\<close>: a savepoint; an exception in the body restores it.\<close>

definition nested ::
    "(transaction \<Rightarrow> ('a \<times> transaction) result) \<Rightarrow> transaction \<Rightarrow> 'a result \<times> transaction" where
  "nested body t =
     (case body t of Inl e \<Rightarrow> (Inl e, t) | Inr (x, t') \<Rightarrow> (Inr x, t'))"

lemma commit_simps:
  "committed (commit t) = working t" "delivered (commit t) = delivered t @ queued t"
  by (simp_all add: commit_def)

lemma begin_simps [simp]:
  "working (begin_transaction db sent) = db" "committed (begin_transaction db sent) = db"
  "delivered (begin_transaction db sent) = sent" "queued (begin_transaction db sent) = []"
  by (simp_all add: begin_transaction_def)

section \<open>What an operation may do to a row\<close>

text \<open>
  The creation contract of a row: the columns no operation of the program writes after
  the \<open>INSERT\<close>.
\<close>

definition same_contract :: "task_row \<Rightarrow> task_row \<Rightarrow> bool" where
  "same_contract r s =
     (row_id s = row_id r \<and> task_type s = task_type r \<and> args s = args r \<and> kwargs s = kwargs r \<and>
      task_metadata s = task_metadata r \<and> queue s = queue r \<and> priority s = priority r \<and>
      max_attempts s = max_attempts r \<and> created_at s = created_at r \<and>
      initial_scheduled_for s = initial_scheduled_for r \<and> expires_at s = expires_at r \<and>
      idempotency_key s = idempotency_key r)"

definition legal_change :: "task_row \<Rightarrow> task_row \<Rightarrow> bool" where
  "legal_change r s = (same_contract r s \<and> can_transition_to (status r) (status s))"

lemma same_contract_refl [simp]: "same_contract r r"
  by (simp add: same_contract_def)

lemma same_contract_id: "same_contract r s \<Longrightarrow> row_id s = row_id r"
  by (simp add: same_contract_def)

lemma legal_change_id: "legal_change r s \<Longrightarrow> row_id s = row_id r"
  by (simp add: legal_change_def same_contract_def)

lemma terminal_no_change:
  "legal_change r s \<Longrightarrow> status r \<noteq> COMPLETED \<and> status r \<noteq> EXPIRED \<and>
   (status r = DEAD \<longrightarrow> status s = PENDING)"
  by (auto simp: legal_change_def)

lemma key_clash_contract:
  "same_contract r r' \<Longrightarrow> same_contract s s' \<Longrightarrow> key_clash r' s' = key_clash r s"
  by (simp add: same_contract_def key_clash_def)

text \<open>Changes of rows that keep the contract keep the table's constraints.\<close>

lemma rows_changed_wf:
  assumes "rows_changed R a b" and "\<And>r s. R r s \<Longrightarrow> same_contract r s"
  shows "ledger_wf b = ledger_wf a"
proof -
  have rel: "list_all2 same_contract a b"
    using assms unfolding rows_changed_def
    by (auto elim!: list.rel_mono_strong)
  have "key_clash (b ! i) (b ! j) = key_clash (a ! i) (a ! j)"
    if "i < length a" and "j < length a" for i j
    using rel that by (intro key_clash_contract) (auto simp: list_all2_conv_all_nth)
  moreover have "length b = length a"
    using rel by (simp add: list_all2_conv_all_nth)
  ultimately show ?thesis
    unfolding ledger_wf_def sorted_wrt_iff_nth_less by auto
qed

lemma ledger_wf_distinct: "ledger_wf db \<Longrightarrow> distinct (map row_id db)"
  unfolding ledger_wf_def
  by (induction db) (auto simp: key_clash_def)

lemma find_row_Some: "find_row i db = Some r \<Longrightarrow> r \<in> set db \<and> row_id r = i"
  by (auto simp: find_row_def find_Some_iff)

lemma find_row_None: "find_row i db = None \<longleftrightarrow> (\<forall>r \<in> set db. row_id r \<noteq> i)"
  by (auto simp: find_row_def find_None_iff)

lemma find_row_unique:
  "distinct (map row_id db) \<Longrightarrow> r \<in> set db \<Longrightarrow> find_row (row_id r) db = Some r"
  by (induction db) (auto simp: find_row_def)

lemma find_row_eq:
  "distinct (map row_id db) \<Longrightarrow> find_row i db = Some r \<Longrightarrow> s \<in> set db \<Longrightarrow> row_id s = i \<Longrightarrow> s = r"
  using find_row_unique by fastforce

lemma find_row_set_row:
  "(\<And>r. row_id (f r) = row_id r) \<Longrightarrow>
   find_row j (set_row i f db) = (if i = j then map_option f (find_row j db) else find_row j db)"
  by (induction db) (auto simp: find_row_def update_where_def)

lemma insert_row_wf:
  assumes "insert_row r db = Inr db'" and "ledger_wf db" shows "ledger_wf db'"
proof -
  have "db' = db @ [r]" and "\<forall>s \<in> set db. \<not> key_clash r s"
    using assms(1) by (auto simp: insert_row_def list_ex_iff split: if_splits)
  moreover have "key_clash s r = key_clash r s" for s
    unfolding key_clash_def by metis
  ultimately show ?thesis
    using assms(2) by (simp add: ledger_wf_def sorted_wrt_append)
qed

end
