(* ===== verification/Task_Lifecycle.thy ===== *)
theory Task_Lifecycle
  imports Ledger "HOL-Library.Transitive_Closure_Table"
begin

text \<open>
  The abstract specification of a task row: \<open>row_step\<close> lists everything the executors, the
  sweeps, the dispatch backends and the operator actions may do to one row, with the guard
  under which they do it.  Every \<open>UPDATE\<close> of the components is proved to be such a step on
  each row it touches, so an invariant of rows needs one proof, here: the locale
  \<open>row_invariant\<close> is the contract, and the components add their lemmas to it.
\<close>

section \<open>Steps of a row\<close>

inductive row_step :: "task_row \<Rightarrow> task_row \<Rightarrow> bool" where
  Dispatch: "status r = PENDING \<or> (status r = FAILED \<and> attempts r < max_attempts r) \<Longrightarrow>
    row_step r (r\<lparr>status := DISPATCHING, dispatching_at := Some t, updated_at := u\<rparr>)"
| Expire: "status r \<in> {PENDING, DISPATCHING, FAILED} \<Longrightarrow> sql_le (expires_at r) t \<Longrightarrow>
    row_step r (r\<lparr>status := EXPIRED, expired_at := Some t, dispatching_at := None,
                  updated_at := u\<rparr>)"
| Start: "status r \<in> {PENDING, DISPATCHING} \<Longrightarrow> \<not> sql_le (expires_at r) t \<Longrightarrow>
    row_step r (r\<lparr>status := PROCESSING, started_at := Some t, dispatching_at := None,
                  attempts := attempts r + 1, updated_at := u\<rparr>)"
| Complete: "status r = PROCESSING \<Longrightarrow>
    row_step r (r\<lparr>status := COMPLETED, completed_at := Some t, error := '''', updated_at := u\<rparr>)"
| Fail: "status r = PROCESSING \<Longrightarrow>
    row_step r (r\<lparr>error := e, status := FAILED, scheduled_for := Some t, updated_at := u\<rparr>)"
| Bury: "status r = PROCESSING \<Longrightarrow>
    row_step r (r\<lparr>error := e, status := DEAD, updated_at := u\<rparr>)"
| Requeue: "status r \<in> {FAILED, PROCESSING} \<Longrightarrow> attempts r < max_attempts r \<Longrightarrow>
    row_step r (r\<lparr>status := PENDING, updated_at := u\<rparr>)"
| Exhaust: "status r \<in> {FAILED, PROCESSING} \<Longrightarrow> attempts r \<ge> max_attempts r \<Longrightarrow>
    row_step r (r\<lparr>status := DEAD, updated_at := u\<rparr>)"
| Reclaim: "status r = DISPATCHING \<Longrightarrow>
    row_step r (r\<lparr>status := PENDING, dispatching_at := None, updated_at := u\<rparr>)"
| Abandon: "status r = DISPATCHING \<Longrightarrow> attempts r \<ge> max_attempts r \<Longrightarrow>
    row_step r (r\<lparr>status := DEAD, dispatching_at := None, updated_at := u\<rparr>)"
| Retry: "can_transition_to (status r) PENDING \<Longrightarrow>
    row_step r (r\<lparr>status := PENDING, scheduled_for := None, error := '''', attempts := 0,
                  updated_at := u\<rparr>)"
| Kill: "can_transition_to (status r) DEAD \<Longrightarrow>
    row_step r (r\<lparr>status := DEAD, updated_at := u\<rparr>)"

inductive_cases row_stepE: "row_step r s"

text \<open>A step keeps the creation contract and follows the transition table.\<close>

lemma row_step_legal: "row_step r s \<Longrightarrow> legal_change r s"
  by (induction rule: row_step.induct)
    (auto simp: legal_change_def same_contract_def)

lemma row_step_contract: "row_step r s \<Longrightarrow> same_contract r s"
  using row_step_legal by (simp add: legal_change_def)

lemma row_step_id: "row_step r s \<Longrightarrow> row_id s = row_id r"
  by (simp add: row_step_contract same_contract_id)

lemma row_steps_contract: "row_step\<^sup>*\<^sup>* r s \<Longrightarrow> same_contract r s"
  by (induction rule: rtranclp_induct)
    (auto simp: same_contract_def dest!: row_step_contract)

lemma row_steps_final:
  assumes "row_step\<^sup>*\<^sup>* r s" and "status r \<in> {COMPLETED, EXPIRED}" shows "s = r"
  using assms
proof (induction rule: rtranclp_induct)
  case base
  show ?case by simp
next
  case (step y z)
  then have "legal_change r z" using row_step_legal by blast
  then show ?case using step.prems by (auto simp: legal_change_def)
qed

text \<open>The program's own \<open>updated_at\<close> may also be left alone (Django's \<open>QuerySet.update\<close>).\<close>

lemma keep_updated: "r\<lparr>updated_at := updated_at r\<rparr> = r"
  by simp

section \<open>Invariants of rows\<close>

text \<open>
  A table is in order for \<open>I\<close> when its constraints hold and \<open>I\<close> holds of every row.  This is
  also what is asked of the other transactions: each leaves such a table in order.
\<close>

definition table_ok :: "(task_row \<Rightarrow> bool) \<Rightarrow> ledger \<Rightarrow> bool" where
  "table_ok I db = (ledger_wf db \<and> list_all I db)"

definition keeps :: "(task_row \<Rightarrow> bool) \<Rightarrow> (ledger \<Rightarrow> ledger) \<Rightarrow> bool" where
  "keeps I e = (\<forall>db. table_ok I db \<longrightarrow> table_ok I (e db))"

lemma keepsD: "keeps I e \<Longrightarrow> table_ok I db \<Longrightarrow> table_ok I (e db)"
  by (simp add: keeps_def)

lemma keeps_id [simp]: "keeps I (\<lambda>db. db)"
  by (simp add: keeps_def)

lemma table_ok_ids: "table_ok I db \<Longrightarrow> distinct (map row_id db)"
  by (simp add: table_ok_def ledger_wf_distinct)

lemma row_changed_wf: "rows_changed row_step a b \<Longrightarrow> ledger_wf b = ledger_wf a"
  by (erule rows_changed_wf) (rule row_step_contract)

locale row_invariant =
  fixes I :: "task_row \<Rightarrow> bool"
  assumes step: "I r \<Longrightarrow> row_step r s \<Longrightarrow> I s"
begin

lemma inv_changed: "table_ok I a \<Longrightarrow> rows_changed row_step a b \<Longrightarrow> table_ok I b"
  unfolding table_ok_def
  by (auto simp: row_changed_wf elim!: rows_changed_list_all intro: step)

lemma inv_update:
  assumes "table_ok I db" and "\<And>r. r \<in> set db \<Longrightarrow> P r \<Longrightarrow> row_step r (f r)"
  shows "table_ok I (update_where P f db)"
  using assms(1) by (rule inv_changed) (rule rows_changed_update, rule assms(2))

lemma inv_two_updates:
  assumes "table_ok I db" and "keeps I e1" and "keeps I e2"
    and "\<And>r. P r \<Longrightarrow> row_step r (f r)" and "\<And>r. Q r \<Longrightarrow> row_step r (g r)"
  shows "table_ok I (update_where Q g (e2 (update_where P f (e1 db))))"
  by (intro inv_update assms keepsD [OF assms(3)] keepsD [OF assms(2)])

lemma inv_delete: "table_ok I db \<Longrightarrow> table_ok I (delete_where P db)"
  by (auto simp: table_ok_def delete_where_def list_all_iff ledger_wf_def sorted_wrt_filter)

lemma inv_insert:
  "table_ok I db \<Longrightarrow> I r \<Longrightarrow> insert_row r db = Inr db' \<Longrightarrow> table_ok I db'"
  using insert_row_wf by (auto simp: table_ok_def insert_row_def split: if_splits)

end

text \<open>
  The invariant of every row: the timestamp each status needs to be recovered is there, and
  the attempt budget is never overdrawn.
\<close>

definition row_ok :: "task_row \<Rightarrow> bool" where
  "row_ok r =
     ((status r = FAILED \<longrightarrow> scheduled_for r \<noteq> None) \<and>
      (status r = PROCESSING \<longrightarrow> started_at r \<noteq> None) \<and>
      (status r = DISPATCHING \<longrightarrow> dispatching_at r \<noteq> None) \<and>
      (status r = COMPLETED \<longrightarrow> completed_at r \<noteq> None) \<and>
      (status r = EXPIRED \<longrightarrow> expired_at r \<noteq> None \<and> expires_at r \<noteq> None) \<and>
      (1 \<le> max_attempts r \<longrightarrow> attempts r \<le> max_attempts r \<and>
         (status r \<in> {PENDING, DISPATCHING} \<longrightarrow> attempts r < max_attempts r)))"

lemma row_ok_step: "row_step r s \<Longrightarrow> row_ok r \<Longrightarrow> row_ok s"
  by (induction rule: row_step.induct) (auto simp: row_ok_def elim!: sql_leE)

text \<open>
  The history of the row that had the identifier of \<open>r0\<close>: as long as identifiers are not
  reused, it went through steps only.
\<close>

definition descends :: "task_row \<Rightarrow> task_row \<Rightarrow> bool" where
  "descends r0 r = (row_id r = row_id r0 \<longrightarrow> row_step\<^sup>*\<^sup>* r0 r)"

lemma descends_step: "row_step r s \<Longrightarrow> descends r0 r \<Longrightarrow> descends r0 s"
  by (auto simp: descends_def row_step_id intro: rtranclp.rtrancl_into_rtrancl)

interpretation ok: row_invariant row_ok
  by unfold_locales (rule row_ok_step)

interpretation history: row_invariant "descends r0" for r0
  by unfold_locales (rule descends_step)

section \<open>Statement-level tools\<close>

text \<open>
  Rows selected \<open>FOR UPDATE\<close> are locked until the transaction ends: what others commit
  meanwhile leaves them as they were.
\<close>

definition respects_locks :: "string list \<Rightarrow> (ledger \<Rightarrow> ledger) \<Rightarrow> ledger \<Rightarrow> bool" where
  "respects_locks ids e db = list_all (\<lambda>r. row_id r \<in> set ids \<longrightarrow> r \<in> set db) (e db)"

lemma respects_locks_id [simp]: "respects_locks ids (\<lambda>db. db) db"
  by (simp add: respects_locks_def list_all_iff)

text \<open>\<open>SELECT id ... WHERE P ORDER BY k LIMIT n\<close>.\<close>

definition select_ids ::
    "(task_row \<Rightarrow> bool) \<Rightarrow> (task_row \<Rightarrow> 'k::linorder) \<Rightarrow> nat \<Rightarrow> ledger \<Rightarrow> string list" where
  "select_ids P k n db = map row_id (order_limit k n (filter P db))"

text \<open>\<open>UPDATE ... WHERE P RETURNING row\<close>: the rows as updated, and the table.\<close>

definition update_returning ::
    "(task_row \<Rightarrow> bool) \<Rightarrow> (task_row \<Rightarrow> task_row) \<Rightarrow> ledger \<Rightarrow> task_row list \<times> ledger" where
  "update_returning P f db = (map f (filter P db), update_where P f db)"

lemma update_returning_simps [simp]:
  "snd (update_returning P f db) = update_where P f db"
  "fst (update_returning P f db) = map f (filter P db)"
  by (simp_all add: update_returning_def)

lemma select_ids_in:
  "i \<in> set (select_ids P k n db) \<Longrightarrow> \<exists>r \<in> set db. row_id r = i \<and> P r"
  by (auto simp: select_ids_def dest!: order_limit_in)

lemma select_ids_row:
  assumes "distinct (map row_id db)" and "r \<in> set db" and "row_id r \<in> set (select_ids P k n db)"
  shows "P r"
proof -
  obtain s where s: "s \<in> set db" "row_id s = row_id r" "P s"
    using select_ids_in [OF assms(3)] by blast
  then have "s = r" using assms(1,2) by (metis find_row_unique option.inject)
  with s show ?thesis by simp
qed

lemma select_ids_locked:
  assumes "distinct (map row_id db)" and "respects_locks (select_ids P k n db) e db"
    and "r \<in> set (e db)" and "row_id r \<in> set (select_ids P k n db)"
  shows "P r"
  using assms select_ids_row [of db r P k n] by (auto simp: respects_locks_def list_all_iff)

lemma length_select_ids: "length (select_ids P k n db) \<le> n"
  by (simp add: select_ids_def length_order_limit)

lemma distinct_select_ids: "distinct (map row_id db) \<Longrightarrow> distinct (select_ids P k n db)"
  unfolding select_ids_def by (intro distinct_map_order_limit distinct_map_filter)

lemma select_ids_Nil: "select_ids P k n db = [] \<longleftrightarrow> n = 0 \<or> (\<forall>r \<in> set db. \<not> P r)"
proof -
  have "select_ids P k n db = [] \<longleftrightarrow> length (select_ids P k n db) = 0" by simp
  also have "\<dots> \<longleftrightarrow> n = 0 \<or> filter P db = []"
    by (auto simp: select_ids_def length_order_limit min_def)
  finally show ?thesis by (simp add: filter_empty_conv)
qed

lemma select_ids_all:
  "length (filter P db) \<le> n \<Longrightarrow> set (select_ids P k n db) = row_id ` {r \<in> set db. P r}"
  by (auto simp: select_ids_def order_limit_all)

text \<open>A change of the one row with an identifier.\<close>

lemma set_row_changed:
  assumes "distinct (map row_id db)" and "find_row i db = Some task" and "row_step task (f task)"
  shows "rows_changed row_step db (set_row i f db)"
proof (rule rows_changed_update)
  fix r assume "r \<in> set db" and "row_id r = i"
  then have "r = task" using find_row_eq [OF assms(1,2)] by blast
  then show "row_step r (f r)" using assms(3) by simp
qed

lemma row_changed_ids: "rows_changed row_step a b \<Longrightarrow> map row_id b = map row_id a"
  by (erule rows_changed_map) (simp add: row_step_id)

lemma row_changed_legal: "rows_changed row_step a b \<Longrightarrow> rows_changed legal_change a b"
  by (erule rows_changed_mono) (rule row_step_legal)

lemma find_set_row:
  assumes "find_row i db = Some task" and "\<And>r. row_id (f r) = row_id r"
  shows "find_row i (set_row i f db) = Some (f task)"
  using assms(1) find_row_set_row [of f i i db] assms(2) by simp

end
