(* ===== verification/Trace_Context.thy ===== *)
theory Trace_Context
  imports Json_Args "HOL-Library.AList"
begin

text \<open>
  The trace context of \<open>src/dewey/core/logging.py\<close>: a context variable holding a dictionary
  or nothing, carried through the \<open>"trace"\<close> key of a task's metadata.  A dictionary is the
  list of its items; \<open>AList.update\<close> is item assignment (in place for a present key, at the
  end for a new one).
\<close>

type_synonym dict = "(string \<times> json) list"
type_synonym context_var = "dict option"

definition trace_metadata_key :: string where "trace_metadata_key = ''trace''"

definition get_trace_context :: "context_var \<Rightarrow> dict" where
  "get_trace_context var = (case var of Some ctx \<Rightarrow> if ctx = [] then [] else ctx | None \<Rightarrow> [])"

text \<open>
  Each setter gives the token (the previous value) and the new value of the variable.
\<close>

definition set_trace_context :: "dict option \<Rightarrow> context_var \<Rightarrow> context_var \<times> context_var" where
  "set_trace_context ctx var =
     (var, case ctx of None \<Rightarrow> None | Some d \<Rightarrow> if d = [] then None else Some d)"

definition reset_trace_context :: "context_var \<Rightarrow> context_var \<Rightarrow> context_var" where
  "reset_trace_context token var = token"

definition dict_update :: "dict \<Rightarrow> dict \<Rightarrow> dict" where
  "dict_update d new = fold (\<lambda>kv d. AList.update (fst kv) (snd kv) d) new d"

definition update_trace_context :: "dict \<Rightarrow> context_var \<Rightarrow> context_var \<times> context_var" where
  "update_trace_context new var =
     (var, Some (dict_update (get_trace_context var) new))"

text \<open>\<open>x or {}\<close> and \<open>dict(x)\<close>: \<open>dict_of\<close> is the constructor on a truthy value that is no dictionary.\<close>

fun json_truthy :: "json \<Rightarrow> bool" where
  "json_truthy JNull = False"
| "json_truthy (JBool b) = b"
| "json_truthy (JInt i) = (i \<noteq> 0)"
| "json_truthy (JFloat q) = (q \<noteq> 0)"
| "json_truthy (JStr s) = (s \<noteq> [])"
| "json_truthy (JList xs) = (xs \<noteq> [])"
| "json_truthy (JDict kvs) = (kvs \<noteq> [])"

definition as_dict :: "(json \<Rightarrow> dict result) \<Rightarrow> json option \<Rightarrow> dict result" where
  "as_dict dict_of v =
     (case v of
        None \<Rightarrow> Inr []
      | Some j \<Rightarrow> if \<not> json_truthy j then Inr []
                  else case j of JDict kvs \<Rightarrow> Inr kvs | _ \<Rightarrow> dict_of j)"

definition bind_to_metadata ::
    "(json \<Rightarrow> dict result) \<Rightarrow> dict option \<Rightarrow> dict option \<Rightarrow> context_var \<Rightarrow> dict result" where
  "bind_to_metadata dict_of metadata extra var =
     (let out = (case metadata of None \<Rightarrow> [] | Some d \<Rightarrow> d);
          ctx = get_trace_context var;
          bound = (if ctx = [] then Inr out
                   else case as_dict dict_of (map_of out trace_metadata_key) of
                          Inl e \<Rightarrow> Inl e
                        | Inr existing \<Rightarrow>
                            Inr (AList.update trace_metadata_key
                                   (JDict (dict_update existing ctx)) out))
      in case bound of
           Inl e \<Rightarrow> Inl e
         | Inr out' \<Rightarrow> Inr (case extra of None \<Rightarrow> out' | Some x \<Rightarrow> dict_update out' x))"

definition extract_trace_context :: "dict option \<Rightarrow> dict" where
  "extract_trace_context metadata =
     (case metadata of
        None \<Rightarrow> []
      | Some d \<Rightarrow> (case map_of d trace_metadata_key of
                     Some (JDict ctx) \<Rightarrow> ctx
                   | _ \<Rightarrow> []))"

text \<open>\<open>with restore_trace_context(metadata) as ctx: body\<close>; the variable is reset on every exit.\<close>

definition restore_trace_context ::
    "dict option \<Rightarrow> (dict \<Rightarrow> context_var \<Rightarrow> 'a result \<times> context_var) \<Rightarrow> context_var
     \<Rightarrow> 'a result \<times> context_var" where
  "restore_trace_context metadata body var =
     (let ctx = extract_trace_context metadata
      in (fst (body ctx (Some ctx)), reset_trace_context var (snd (body ctx (Some ctx)))))"

text \<open>\<open>TraceContextFilter.filter\<close>: the attributes set on a log record.\<close>

definition trace_filter :: "context_var \<Rightarrow> dict \<Rightarrow> dict" where
  "trace_filter var record_attrs =
     (let ctx = get_trace_context var
      in dict_update (AList.update ''dewey_trace'' (JDict ctx) record_attrs)
           (map (\<lambda>kv. (''dewey_'' @ fst kv, snd kv)) ctx))"

section \<open>Facts\<close>

lemma dict_update_lookup:
  "map_of (dict_update d new) k =
     (case map_of (rev new) k of Some v \<Rightarrow> Some v | None \<Rightarrow> map_of d k)"
proof (induction new arbitrary: d)
  case Nil
  then show ?case by (simp add: dict_update_def)
next
  case (Cons kv new)
  have "map_of (dict_update d (kv # new)) k
      = map_of (dict_update (AList.update (fst kv) (snd kv) d) new) k"
    by (simp add: dict_update_def)
  also have "\<dots> = (case map_of (rev new) k of Some v \<Rightarrow> Some v
      | None \<Rightarrow> map_of (AList.update (fst kv) (snd kv) d) k)"
    by (rule Cons.IH)
  also have "\<dots> = (case map_of (rev (kv # new)) k of Some v \<Rightarrow> Some v | None \<Rightarrow> map_of d k)"
    by (cases kv) (auto simp: map_add_def update_conv' split: option.splits)
  finally show ?case .
qed

lemma map_of_rev_items: "distinct (map fst d) \<Longrightarrow> map_of (rev d) = map_of d"
  by (subst map_of_inject_set) (simp_all flip: rev_map)

end
