(* ===== verification/Sa_Executor.thy ===== *)
theory Sa_Executor
  imports Task_Lifecycle Failure_Handling Trace_Context
begin

text \<open>
  \<open>src/dewey/sqlalchemy/executor.py\<close> with \<open>core/validation.py\<close>: \<open>create_task\<close>,
  \<open>create_or_get_task\<close> and the two-phase \<open>process_task\<close>.

  \<open>new_id\<close> is the UUID the model mints.  A handler is an argument \<open>call\<close>: what a handler
  does with its arguments under a trace context, namely the exception it raises, if any, and
  the context it leaves.  \<open>env\<close> is what everybody else commits while the handler runs, the
  handler's own transactions included.
\<close>

section \<open>Producers\<close>

record task_request =
  rq_task_type :: string
  rq_args :: pyval
  rq_kwargs :: pyval
  rq_queue :: "string option"
  rq_priority :: "int option"
  rq_max_attempts :: "int option"
  rq_scheduled_for :: "py_datetime option"
  rq_expires_at :: "py_datetime option"
  rq_idempotency_key :: "string option"
  rq_metadata :: "dict option"

definition require_timezone_aware :: "py_datetime option \<Rightarrow> string \<Rightarrow> unit result" where
  "require_timezone_aware value field =
     (case value of
        Some (Naive _) \<Rightarrow> Inl (py_exn ValueErrorC (field @ '' must be a timezone-aware datetime''))
      | _ \<Rightarrow> Inr ())"

text \<open>The instant of a datetime that passed the check.\<close>

fun instant :: "py_datetime option \<Rightarrow> datetime option" where
  "instant (Some (Aware t)) = Some t"
| "instant _ = None"

definition or_default :: "'a \<Rightarrow> 'a option \<Rightarrow> 'a" where
  "or_default d v = (case v of None \<Rightarrow> d | Some x \<Rightarrow> x)"

text \<open>The values the two producer operations check and encode before they touch the table.\<close>

definition check_request :: "task_request \<Rightarrow> unit result" where
  "check_request rq =
     (case require_timezone_aware (rq_scheduled_for rq) ''scheduled_for'' of
        Inl e \<Rightarrow> Inl e
      | Inr _ \<Rightarrow>
          (case rq_expires_at rq of
             Some (Naive _) \<Rightarrow>
               Inl (py_exn ValueErrorC ''expires_at must be a timezone-aware datetime'')
           | _ \<Rightarrow> Inr ()))"

definition encode_request :: "task_request \<Rightarrow> (json list \<times> dict) result" where
  "encode_request rq =
     (case encode_args (rq_args rq) of
        Inl e \<Rightarrow> Inl (ser_exn e)
      | Inr js \<Rightarrow> (case encode_kwargs (rq_kwargs rq) of
                     Inl e \<Rightarrow> Inl (ser_exn e) | Inr kvs \<Rightarrow> Inr (js, kvs)))"

text \<open>The row an \<open>INSERT\<close> writes: the columns given, and the model's defaults for the others.\<close>

definition new_row ::
    "string \<Rightarrow> (nat \<Rightarrow> datetime) \<Rightarrow> ('h, 'f) task_policy \<Rightarrow> task_request \<Rightarrow> json list \<Rightarrow> dict
     \<Rightarrow> task_row" where
  "new_row new_id clk policy rq js kvs =
     \<lparr>row_id = new_id, task_type = rq_task_type rq, status = PENDING, args = js, kwargs = kvs,
      task_metadata = or_default [] (rq_metadata rq),
      queue = or_default (p_queue policy) (rq_queue rq),
      priority = or_default (p_priority policy) (rq_priority rq), attempts = 0,
      max_attempts = or_default (p_max_attempts policy) (rq_max_attempts rq),
      error = '''', created_at = clk 0, updated_at = clk 1,
      scheduled_for = instant (rq_scheduled_for rq),
      initial_scheduled_for = instant (rq_scheduled_for rq),
      dispatching_at = None, started_at = None, completed_at = None,
      expires_at = instant (rq_expires_at rq), expired_at = None,
      idempotency_key = rq_idempotency_key rq\<rparr>"

definition create_task ::
    "bool \<Rightarrow> ('h, 'f) policy_state \<Rightarrow> string \<Rightarrow> (nat \<Rightarrow> datetime) \<Rightarrow> task_request \<Rightarrow> transaction
     \<Rightarrow> (task_row \<times> transaction) result" where
  "create_task is_pg st new_id clk rq t =
     (case check_request rq of
        Inl e \<Rightarrow> Inl e
      | Inr _ \<Rightarrow>
          (case encode_request rq of
             Inl e \<Rightarrow> Inl e
           | Inr (js, kvs) \<Rightarrow>
               (let row = new_row new_id clk (resolve_policy st (rq_task_type rq)) rq js kvs
                in case insert_row row (working t) of
                     Inl e \<Rightarrow> Inl e
                   | Inr db \<Rightarrow>
                       Inr (row, t\<lparr>working := db,
                          queued := notify_work_available is_pg
                            (task_notification (row_id row) (queue row)) (queued t)\<rparr>))))"

text \<open>
  \<open>actual[name] != value\<close>, field by field, in the order of the \<open>expected\<close> dictionary.
  Arguments are compared as Python compares decoded JSON.
\<close>

definition differing_fields :: "task_row \<Rightarrow> task_row \<Rightarrow> string list" where
  "differing_fields expected actual =
     map fst (filter snd
       [(''task_type'', task_type actual \<noteq> task_type expected),
        (''args'', \<not> py_eq (JList (args actual)) (JList (args expected))),
        (''kwargs'', \<not> py_eq (JDict (kwargs actual)) (JDict (kwargs expected))),
        (''queue'', queue actual \<noteq> queue expected),
        (''priority'', priority actual \<noteq> priority expected),
        (''max_attempts'', max_attempts actual \<noteq> max_attempts expected),
        (''scheduled_for'', initial_scheduled_for actual \<noteq> scheduled_for expected),
        (''expires_at'', expires_at actual \<noteq> expires_at expected)])"

text \<open>\<open>scalar_one_or_none()\<close> on the row with that type and key.\<close>

definition find_key :: "string \<Rightarrow> string option \<Rightarrow> ledger \<Rightarrow> task_row option" where
  "find_key ty key db =
     find (\<lambda>r. task_type r = ty \<and> key \<noteq> None \<and> idempotency_key r = key) db"

text \<open>
  \<open>env\<close>: what others commit between the failed \<open>INSERT\<close> and the \<open>SELECT\<close> of the existing row.
\<close>

definition create_or_get_task ::
    "bool \<Rightarrow> ('h, 'f) policy_state \<Rightarrow> string \<Rightarrow> (nat \<Rightarrow> datetime) \<Rightarrow> (ledger \<Rightarrow> ledger)
     \<Rightarrow> task_request \<Rightarrow> transaction \<Rightarrow> task_row result \<times> transaction" where
  "create_or_get_task is_pg st new_id clk env rq t =
     (if or_default '''' (rq_idempotency_key rq) = ''''
      then (Inl (py_exn ValueErrorC
              ''create_or_get_task requires a non-empty idempotency_key''), t)
      else
        case check_request rq of
          Inl e \<Rightarrow> (Inl e, t)
        | Inr _ \<Rightarrow>
            let policy = resolve_policy st (rq_task_type rq);
                rq' = rq\<lparr>rq_queue := Some (or_default (p_queue policy) (rq_queue rq)),
                         rq_priority := Some (or_default (p_priority policy) (rq_priority rq)),
                         rq_max_attempts :=
                           Some (or_default (p_max_attempts policy) (rq_max_attempts rq))\<rparr>
            in case encode_request rq of
                 Inl e \<Rightarrow> (Inl e, t)
               | Inr (js, kvs) \<Rightarrow>
                   let expected = new_row new_id clk policy rq js kvs
                   in case nested (create_task is_pg st new_id clk rq') t of
                        (Inr row, t') \<Rightarrow> (Inr row, t')
                      | (Inl exc, t') \<Rightarrow>
                          if \<not> isinstance exc [IntegrityErrorC] then (Inl exc, t')
                          else
                            let t'' = t'\<lparr>working := env (working t')\<rparr>
                            in case find_key (rq_task_type rq) (rq_idempotency_key rq)
                                      (working t'') of
                                 None \<Rightarrow> (Inl exc, t'')
                               | Some existing \<Rightarrow>
                                   let differing = differing_fields expected existing
                                   in if differing = [] then (Inr existing, t'')
                                      else case idempotency_conflict differing of
                                             Inl e \<Rightarrow> (Inl e, t'')
                                           | Inr e \<Rightarrow> (Inl e, t''))"

section \<open>Workers\<close>

definition claimable :: "task_status list" where
  "claimable = [PENDING, DISPATCHING]"

text \<open>The values cached before the commit of phase 1.\<close>

record ('h, 'f) task_claim =
  c_type :: string
  c_args :: "json list"
  c_kwargs :: dict
  c_attempts :: int
  c_max_attempts :: int
  c_metadata :: dict
  c_policy :: "('h, 'f) task_policy"

text \<open>
  Phase 1, under \<open>SELECT ... FOR UPDATE\<close>: \<open>None\<close> is a return of \<open>False\<close> before the handler.
\<close>

definition process_claim ::
    "('h, 'f) policy_state \<Rightarrow> (nat \<Rightarrow> datetime) \<Rightarrow> string \<Rightarrow> ledger
     \<Rightarrow> ('h, 'f) task_claim option \<times> ledger" where
  "process_claim st clk task_id db =
     (case find_row task_id db of
        None \<Rightarrow> (None, db)
      | Some task \<Rightarrow>
          let now = clk 0 in
          if is_terminal (status task) then (None, db)
          else if status task \<notin> set claimable then (None, db)
          else if sql_le (expires_at task) now
          then (None, set_row task_id
                  (\<lambda>r. r\<lparr>status := EXPIRED, expired_at := Some now, dispatching_at := None,
                         updated_at := clk 1\<rparr>) db)
          else if (case scheduled_for task of None \<Rightarrow> False | Some s \<Rightarrow> s > now) then (None, db)
          else if \<not> can_transition_to (status task) PROCESSING then (None, db)
          else (Some \<lparr>c_type = task_type task, c_args = args task, c_kwargs = kwargs task,
                      c_attempts = attempts task + 1, c_max_attempts = max_attempts task,
                      c_metadata = task_metadata task,
                      c_policy = resolve_policy st (task_type task)\<rparr>,
                set_row task_id
                  (\<lambda>r. r\<lparr>status := PROCESSING, started_at := Some now, dispatching_at := None,
                         attempts := attempts r + 1, updated_at := clk 1\<rparr>) db))"

text \<open>
  Phase 3.  \<open>raised\<close> is the handler's exception.  An error of \<open>classify_failure\<close> itself leaves
  the function before the commit, and the row as phase 1 left it.
\<close>

definition process_finish ::
    "('f \<Rightarrow> int \<Rightarrow> backoff_value result) \<Rightarrow> rat \<Rightarrow> (nat \<Rightarrow> datetime)
     \<Rightarrow> (int \<Rightarrow> timedelta result) option \<Rightarrow> string \<Rightarrow> ('h, 'f) task_claim \<Rightarrow> exn option \<Rightarrow> ledger
     \<Rightarrow> bool result \<times> ledger" where
  "process_finish fn u clk backoff task_id c raised db =
     (case raised of
        Some exc \<Rightarrow>
          (case find_row task_id db of
             None \<Rightarrow> (Inr False, db)
           | Some task \<Rightarrow>
               if status task \<noteq> PROCESSING then (Inr False, db)
               else
                 case classify_failure exc (c_policy c) (policy_delay_for fn u (c_policy c))
                        (c_attempts c) (c_max_attempts c) (clk 0) backoff of
                   Inl e \<Rightarrow> (Inl e, db)
                 | Inr out \<Rightarrow>
                     (Inr False, set_row task_id
                        (\<lambda>r. if is_dead out
                             then r\<lparr>error := exn_text exc, status := out_status out,
                                    updated_at := clk 1\<rparr>
                             else r\<lparr>error := exn_text exc, status := out_status out,
                                    scheduled_for := out_retry_at out, updated_at := clk 1\<rparr>) db))
      | None \<Rightarrow>
          (case find_row task_id db of
             None \<Rightarrow> (Inr False, db)
           | Some task \<Rightarrow>
               if status task \<noteq> PROCESSING then (Inr False, db)
               else (Inr True, set_row task_id
                       (\<lambda>r. r\<lparr>status := COMPLETED, completed_at := Some (clk 0), error := '''',
                              updated_at := clk 1\<rparr>) db)))"

text \<open>
  Phase 2: the handler that resolves, or the error of resolving none, which the same
  \<open>except\<close> clause catches.
\<close>

definition run_handler ::
    "('h \<Rightarrow> json list \<Rightarrow> dict \<Rightarrow> context_var \<Rightarrow> exn option \<times> context_var) \<Rightarrow> 'h option
     \<Rightarrow> ('h, 'f) task_claim \<Rightarrow> context_var \<Rightarrow> exn option \<times> context_var" where
  "run_handler call handler c var =
     (case resolve_handler (c_type c) handler (c_policy c) of
        Inl e \<Rightarrow> (Some e, var)
      | Inr h \<Rightarrow> call h (c_args c) (c_kwargs c) var)"

definition process_task ::
    "('h \<Rightarrow> json list \<Rightarrow> dict \<Rightarrow> context_var \<Rightarrow> exn option \<times> context_var)
     \<Rightarrow> ('h, 'f) policy_state \<Rightarrow> ('f \<Rightarrow> int \<Rightarrow> backoff_value result) \<Rightarrow> rat
     \<Rightarrow> (nat \<Rightarrow> nat \<Rightarrow> datetime) \<Rightarrow> (ledger \<Rightarrow> ledger) \<Rightarrow> 'h option
     \<Rightarrow> (int \<Rightarrow> timedelta result) option \<Rightarrow> string \<Rightarrow> ledger \<times> context_var
     \<Rightarrow> bool result \<times> ledger \<times> context_var" where
  "process_task call st fn u clk env handler backoff task_id s =
     (case process_claim st (clk 0) task_id (fst s) of
        (None, db) \<Rightarrow> (Inr False, db, snd s)
      | (Some c, db) \<Rightarrow>
          let (token, var) = set_trace_context
                 (Some (extract_trace_context (Some (c_metadata c)))) (snd s);
              (raised, var') = run_handler call handler c var;
              db' = env db
          in case raised of
               Some exc \<Rightarrow>
                 if \<not> isinstance exc [ExceptionC]
                 then (Inl exc, db', reset_trace_context token var')
                 else let (res, db'') = process_finish fn u (clk 1) backoff task_id c raised db'
                      in (res, db'', reset_trace_context token var')
             | None \<Rightarrow>
                 let (res, db'') = process_finish fn u (clk 1) backoff task_id c raised db'
                 in (res, db'', reset_trace_context token var'))"

section \<open>Facts\<close>

lemma process_claim_changed:
  assumes "distinct (map row_id db)"
  shows "rows_changed row_step db (snd (process_claim st clk i db))"
proof (cases "find_row i db")
  case None
  then show ?thesis by (simp add: process_claim_def)
next
  case (Some task)
  have expire: "status task \<in> set claimable \<Longrightarrow> sql_le (expires_at task) (clk 0) \<Longrightarrow>
      rows_changed row_step db (set_row i (\<lambda>r. r\<lparr>status := EXPIRED, expired_at := Some (clk 0),
        dispatching_at := None, updated_at := clk 1\<rparr>) db)"
    by (rule set_row_changed [OF assms Some]) (auto simp: claimable_def intro: row_step.Expire)
  have start: "status task \<in> set claimable \<Longrightarrow> \<not> sql_le (expires_at task) (clk 0) \<Longrightarrow>
      rows_changed row_step db (set_row i (\<lambda>r. r\<lparr>status := PROCESSING,
        started_at := Some (clk 0), dispatching_at := None, attempts := attempts r + 1,
        updated_at := clk 1\<rparr>) db)"
    by (rule set_row_changed [OF assms Some]) (auto simp: claimable_def intro: row_step.Start)
  show ?thesis
    using Some expire start by (simp add: process_claim_def Let_def)
qed

lemma process_finish_changed:
  fixes c :: "('h, 'f) task_claim"
  assumes "distinct (map row_id db)"
  shows "rows_changed row_step db (snd (process_finish fn u clk b i c raised db))"
proof (cases "find_row i db")
  case None
  then show ?thesis by (simp add: process_finish_def split: option.split)
next
  case (Some task)
  have complete: "status task = PROCESSING \<Longrightarrow>
      rows_changed row_step db (set_row i (\<lambda>r. r\<lparr>status := COMPLETED,
        completed_at := Some (clk 0), error := '''', updated_at := clk 1\<rparr>) db)"
    by (rule set_row_changed [OF assms Some]) (rule row_step.Complete)
  have failed: "status task = PROCESSING \<Longrightarrow>
      classify_failure exc p df a m now b = Inr out \<Longrightarrow>
      rows_changed row_step db (set_row i
        (\<lambda>r. if is_dead out
             then r\<lparr>error := exn_text exc, status := out_status out, updated_at := clk 1\<rparr>
             else r\<lparr>error := exn_text exc, status := out_status out,
                    scheduled_for := out_retry_at out, updated_at := clk 1\<rparr>) db)"
    for exc out and p :: "('h, 'f) task_policy" and df a m now
    by (rule set_row_changed [OF assms Some])
      (auto simp: is_dead_def dest!: classify_status intro: row_step.Bury row_step.Fail)
  show ?thesis
    using Some complete failed
    by (auto simp: process_finish_def split: option.split sum.split)
qed

lemma process_claim_Some:
  assumes "process_claim st clk i db = (Some c, db')"
  obtains task where "find_row i db = Some task" and "status task \<in> {PENDING, DISPATCHING}"
    and "\<not> sql_le (expires_at task) (clk 0)"
    and "case scheduled_for task of None \<Rightarrow> True | Some s \<Rightarrow> s \<le> clk 0"
    and "c = \<lparr>c_type = task_type task, c_args = args task, c_kwargs = kwargs task,
              c_attempts = attempts task + 1, c_max_attempts = max_attempts task,
              c_metadata = task_metadata task,
              c_policy = resolve_policy st (task_type task)\<rparr>"
    and "db' = set_row i (\<lambda>r. r\<lparr>status := PROCESSING, started_at := Some (clk 0),
              dispatching_at := None, attempts := attempts r + 1, updated_at := clk 1\<rparr>) db"
  using assms
  by (cases "find_row i db")
    (auto simp: process_claim_def Let_def claimable_def split: if_splits option.splits)

context row_invariant begin

lemma inv_process_claim:
  "table_ok I db \<Longrightarrow> table_ok I (snd (process_claim st clk i db))"
  by (rule inv_changed [OF _ process_claim_changed]) (auto intro: table_ok_ids)

lemma inv_process_finish:
  "table_ok I db \<Longrightarrow> table_ok I (snd (process_finish fn u clk b i c raised db))"
  by (rule inv_changed [OF _ process_finish_changed]) (auto intro: table_ok_ids)

lemma inv_process_task:
  assumes "table_ok I db" and "keeps I env"
  shows "table_ok I (fst (snd (process_task call st fn u clk env h b i (db, var))))"
  using inv_process_claim [OF assms(1), of st "clk 0" i] assms(2)
  by (auto simp: process_task_def Let_def split: prod.split option.split
      dest!: keepsD intro: inv_process_finish)
    (metis inv_process_finish snd_conv)+

end

lemma new_row_ok: "row_ok (new_row new_id clk policy rq js kvs)"
  by (simp add: row_ok_def new_row_def)

lemma new_row_fields [simp]:
  "row_id (new_row new_id clk policy rq js kvs) = new_id"
  "status (new_row new_id clk policy rq js kvs) = PENDING"
  "task_type (new_row new_id clk policy rq js kvs) = rq_task_type rq"
  "idempotency_key (new_row new_id clk policy rq js kvs) = rq_idempotency_key rq"
  "attempts (new_row new_id clk policy rq js kvs) = 0"
  by (simp_all add: new_row_def)

lemma create_task_cases:
  assumes "create_task is_pg st new_id clk rq t = Inr (row, t')"
  obtains js kvs where "check_request rq = Inr ()" and "encode_request rq = Inr (js, kvs)"
    and "row = new_row new_id clk (resolve_policy st (rq_task_type rq)) rq js kvs"
    and "insert_row row (working t) = Inr (working t')"
    and "t' = t\<lparr>working := working t @ [row],
               queued := notify_work_available is_pg (task_notification new_id (queue row))
                           (queued t)\<rparr>"
  using assms
  by (auto simp: create_task_def Let_def insert_row_def split: sum.splits if_splits)

end
