(* ===== verification/Worker_Properties.thy ===== *)
theory Worker_Properties
  imports Sa_Executor
begin

text \<open>
  Properties of producers and workers (\<open>create_task\<close>, \<open>create_or_get_task\<close>, \<open>process_task\<close>),
  and the sample rows the concrete instances of the development use.
\<close>

section \<open>Sample data\<close>

definition sample_row :: "string \<Rightarrow> task_status \<Rightarrow> task_row" where
  "sample_row i s =
     \<lparr>row_id = i, task_type = ''t'', status = s, args = [], kwargs = [], task_metadata = [],
      queue = ''q'', priority = 0, attempts = 0, max_attempts = 3, error = '''',
      created_at = 0, updated_at = 0, scheduled_for = None, initial_scheduled_for = None,
      dispatching_at = None, started_at = None, completed_at = None, expires_at = None,
      expired_at = None, idempotency_key = None\<rparr>"

definition sample_clock :: "nat \<Rightarrow> datetime" where
  "sample_clock k = 1000 + int k"

definition no_policy :: "(nat, unit) policy_state" where
  "no_policy = \<lparr>registered = [], project_policies = []\<rparr>"

definition no_backoff_fn :: "unit \<Rightarrow> int \<Rightarrow> backoff_value result" where
  "no_backoff_fn f n = Inr (AsTimedelta 0)"

section \<open>Producers\<close>

text \<open>
  C16. A task and its wake-up are one unit: before the caller commits neither is visible; the
  commit publishes exactly the new \<open>PENDING\<close> row, with a fresh attempt budget and the policy's
  defaults, and on PostgreSQL one notification for it; a rollback leaves nothing of either.
\<close>

theorem create_task_atomic:
  assumes "create_task is_pg st new_id clk rq (begin_transaction db notes) = Inr (row, t)"
  shows "committed t = db \<and> delivered t = notes \<and>
    committed (commit t) = db @ [row] \<and>
    delivered (commit t) = notes @ (if is_pg then [task_notification new_id (queue row)] else []) \<and>
    rollback t = begin_transaction db notes \<and>
    status row = PENDING \<and> attempts row = 0 \<and> row_id row = new_id \<and>
    queue row = or_default (p_queue (resolve_policy st (rq_task_type rq))) (rq_queue rq) \<and>
    max_attempts row =
      or_default (p_max_attempts (resolve_policy st (rq_task_type rq))) (rq_max_attempts rq)"
  using assms
  by (elim create_task_cases)
    (auto simp: begin_transaction_def commit_def rollback_def notify_work_available_def new_row_def)

definition sample_request :: task_request where
  "sample_request =
     \<lparr>rq_task_type = ''t'', rq_args = PySeq [PyInt 1], rq_kwargs = PyNone, rq_queue = None,
      rq_priority = None, rq_max_attempts = None, rq_scheduled_for = None,
      rq_expires_at = Some (Aware 5000), rq_idempotency_key = Some ''k'', rq_metadata = None\<rparr>"

definition sample_created_row :: task_row where
  "sample_created_row = (sample_row ''a'' PENDING)\<lparr>args := [JInt 1], queue := ''default'',
     max_attempts := 5, created_at := 1000, updated_at := 1001, expires_at := Some 5000,
     idempotency_key := Some ''k''\<rparr>"

definition sample_created :: transaction where
  "sample_created = \<lparr>committed = [], delivered = [], working = [sample_created_row],
     queued = [task_notification ''a'' ''default'']\<rparr>"

lemmas sample_evaluation =
  create_task_def check_request_def require_timezone_aware_def encode_request_def
  encode_args_def encode_kwargs_def encode_value.simps max_depth_def sample_request_def
  new_row_def or_default_def insert_row_def begin_transaction_def resolve_policy_def
  registry_get_def no_policy_def task_defaults_def notify_work_available_def sample_row_def
  sample_clock_def sample_created_def sample_created_row_def Let_def

lemma sample_create:
  "create_task True no_policy ''a'' sample_clock sample_request (begin_transaction [] []) =
     Inr (sample_created_row, sample_created)"
  by (simp add: sample_evaluation)

theorem create_task_atomic_witness:
  "committed (commit sample_created) = [sample_created_row] \<and>
   delivered (commit sample_created) = [task_notification ''a'' ''default''] \<and>
   rollback sample_created = begin_transaction [] []"
proof -
  have "queue sample_created_row = ''default''" by (simp add: sample_created_row_def)
  then show ?thesis using create_task_atomic [OF sample_create] by simp
qed

text \<open>The creation that finds its key taken.\<close>

lemma find_key_clash:
  assumes "find_key ty key db = Some existing"
  shows "existing \<in> set db \<and> task_type existing = ty \<and> key \<noteq> None \<and> idempotency_key existing = key"
  using assms by (auto simp: find_key_def find_Some_iff)

lemma create_task_clash:
  assumes "check_request rq = Inr ()" and "encode_request rq = Inr (js, kvs)"
    and "find_key (rq_task_type rq) (rq_idempotency_key rq) (working t) = Some existing"
  shows "create_task is_pg st new_id clk rq t
    = Inl (py_exn IntegrityErrorC ''duplicate key value'')"
  using find_key_clash [OF assms(3)] assms(1,2)
  by (force simp: create_task_def Let_def insert_row_def list_ex_iff key_clash_def)

lemma request_parts [simp]:
  "check_request (rq\<lparr>rq_queue := a, rq_priority := b, rq_max_attempts := c\<rparr>) = check_request rq"
  "encode_request (rq\<lparr>rq_queue := a, rq_priority := b, rq_max_attempts := c\<rparr>) = encode_request rq"
  by (simp_all add: check_request_def encode_request_def cong: sum.case_cong)

lemma integrity_is_integrity [simp]: "isinstance (py_exn IntegrityErrorC m) [IntegrityErrorC]"
  by (simp add: isinstance_def)

text \<open>The values an idempotent creation asks for.\<close>

definition expected_row ::
    "('h, 'f) policy_state \<Rightarrow> string \<Rightarrow> (nat \<Rightarrow> datetime) \<Rightarrow> task_request \<Rightarrow> json list \<Rightarrow> dict
     \<Rightarrow> task_row" where
  "expected_row st new_id clk rq js kvs =
     new_row new_id clk (resolve_policy st (rq_task_type rq)) rq js kvs"

lemma create_or_get_found:
  assumes "or_default '''' (rq_idempotency_key rq) \<noteq> ''''" and "check_request rq = Inr ()"
    and "encode_request rq = Inr (js, kvs)"
    and "find_key (rq_task_type rq) (rq_idempotency_key rq) (working t) = Some existing"
  shows "create_or_get_task is_pg st new_id clk (\<lambda>db. db) rq t =
    (let differing = differing_fields (expected_row st new_id clk rq js kvs) existing
     in (if differing = [] then Inr existing
         else case idempotency_conflict differing of Inl e \<Rightarrow> Inl e | Inr e \<Rightarrow> Inl e, t))"
proof -
  let ?p = "resolve_policy st (rq_task_type rq)"
  let ?rq = "rq\<lparr>rq_queue := Some (or_default (p_queue ?p) (rq_queue rq)),
    rq_priority := Some (or_default (p_priority ?p) (rq_priority rq)),
    rq_max_attempts := Some (or_default (p_max_attempts ?p) (rq_max_attempts rq))\<rparr>"
  have "create_task is_pg st new_id clk ?rq t
      = Inl (py_exn IntegrityErrorC ''duplicate key value'')"
    by (rule create_task_clash) (use assms in simp_all)
  then show ?thesis
    using assms
    by (auto simp: create_or_get_task_def Let_def nested_def expected_row_def
        split: sum.split)
qed




text \<open>
  Creating twice is creating once: after a first successful call, the same call again (with
  another UUID and clock) returns the same task and changes nothing, whatever arguments were
  given that decode to distinct dictionary keys.
\<close>

lemma create_or_get_idempotent:
  assumes "create_or_get_task is_pg st new_id clk (\<lambda>db. db) rq t = (Inr row, t')"
    and "find_key (rq_task_type rq) (rq_idempotency_key rq) (working t) = None"
    and "json_wf (JList (args row))" and "json_wf (JDict (kwargs row))"
  shows "create_or_get_task is_pg st new_id2 clk2 (\<lambda>db. db) rq t' = (Inr row, t')"
proof -
  let ?p = "resolve_policy st (rq_task_type rq)"
  let ?rq = "rq\<lparr>rq_queue := Some (or_default (p_queue ?p) (rq_queue rq)),
    rq_priority := Some (or_default (p_priority ?p) (rq_priority rq)),
    rq_max_attempts := Some (or_default (p_max_attempts ?p) (rq_max_attempts rq))\<rparr>"
  have key: "or_default '''' (rq_idempotency_key rq) \<noteq> ''''" and chk: "check_request rq = Inr ()"
    and "create_task is_pg st new_id clk ?rq t = Inr (row, t')"
    using assms(1,2)
    by (auto simp: create_or_get_task_def Let_def nested_def
        split: if_splits sum.splits prod.splits option.splits)
  then obtain js kvs where enc: "encode_request rq = Inr (js, kvs)"
    and row: "row = new_row new_id clk (resolve_policy st (rq_task_type ?rq)) ?rq js kvs"
    and w: "working t' = working t @ [row]"
    by (elim create_task_cases) auto
  have k: "rq_idempotency_key rq \<noteq> None" using key by (auto simp: or_default_def split: option.splits)
  have "find_key (rq_task_type rq) (rq_idempotency_key rq) (working t') = Some row"
    using assms(2) k unfolding w find_key_def find_snoc by (simp add: row new_row_def)
  note found = create_or_get_found [OF key chk enc this, of is_pg st new_id2 clk2]
  have "py_eq (JList (args row)) (JList js)" "py_eq (JDict (kwargs row)) (JDict kvs)"
    using py_eq_refl [OF assms(3)] py_eq_refl [OF assms(4)] by (simp_all add: row new_row_def)
  then have "differing_fields (expected_row st new_id2 clk2 rq js kvs) row = []"
    by (simp add: differing_fields_def expected_row_def row new_row_def or_default_def
        del: py_eq.simps)
  then show ?thesis using found by simp
qed

section \<open>Workers\<close>

text \<open>An update of the row \<open>i\<close> seen through lookups.\<close>

lemma find_after_set_row:
  "find_row i db = Some task \<Longrightarrow> (\<And>r. row_id (f r) = row_id r) \<Longrightarrow>
   find_row i (set_row i f db) = Some (f task) \<and>
   (\<forall>j. j \<noteq> i \<longrightarrow> find_row j (set_row i f db) = find_row j db)"
  by (simp add: find_row_set_row)

lemma process_claim_found:
  assumes "find_row i db = Some task"
  shows "process_claim st clk i db =
    (if status task \<notin> {PENDING, DISPATCHING} then (None, db)
     else if sql_le (expires_at task) (clk 0)
     then (None, set_row i (\<lambda>r. r\<lparr>status := EXPIRED, expired_at := Some (clk 0),
             dispatching_at := None, updated_at := clk 1\<rparr>) db)
     else if \<exists>s. scheduled_for task = Some s \<and> clk 0 < s then (None, db)
     else (Some \<lparr>c_type = task_type task, c_args = args task, c_kwargs = kwargs task,
                 c_attempts = attempts task + 1, c_max_attempts = max_attempts task,
                 c_metadata = task_metadata task,
                 c_policy = resolve_policy st (task_type task)\<rparr>,
           set_row i (\<lambda>r. r\<lparr>status := PROCESSING, started_at := Some (clk 0),
             dispatching_at := None, attempts := attempts r + 1, updated_at := clk 1\<rparr>) db))"
proof (cases "scheduled_for task")
  case None
  then show ?thesis
    by (cases "status task") (simp_all add: process_claim_def Let_def claimable_def assms)
next
  case (Some s)
  then show ?thesis
    by (cases "status task") (simp_all add: process_claim_def Let_def claimable_def assms)
qed

text \<open>
  C13. What a delivered task identifier does before the handler, on every branch: a terminal,
  failed or already running task is a no-op (a duplicate delivery runs nothing twice), an
  expired one becomes \<open>EXPIRED\<close>, one scheduled for later is left alone, and any other is
  \<open>PROCESSING\<close> with one attempt more when the handler starts; no other row changes.
\<close>

theorem delivery_outcome:
  fixes clk :: "nat \<Rightarrow> datetime" and st :: "('h, 'f) policy_state"
  assumes "find_row i db = Some task"
  defines "db' \<equiv> snd (process_claim st clk i db)" and "c \<equiv> fst (process_claim st clk i db)"
  shows "(status task \<notin> {PENDING, DISPATCHING} \<longrightarrow> c = None \<and> db' = db) \<and>
    (status task \<in> {PENDING, DISPATCHING} \<and> sql_le (expires_at task) (clk 0) \<longrightarrow>
       c = None \<and>
       find_row i db' = Some (task\<lparr>status := EXPIRED, expired_at := Some (clk 0),
         dispatching_at := None, updated_at := clk 1\<rparr>)) \<and>
    (status task \<in> {PENDING, DISPATCHING} \<and> \<not> sql_le (expires_at task) (clk 0) \<and>
     (\<exists>s. scheduled_for task = Some s \<and> clk 0 < s) \<longrightarrow> c = None \<and> db' = db) \<and>
    (status task \<in> {PENDING, DISPATCHING} \<and> \<not> sql_le (expires_at task) (clk 0) \<and>
     \<not> (\<exists>s. scheduled_for task = Some s \<and> clk 0 < s) \<longrightarrow>
       c = Some \<lparr>c_type = task_type task, c_args = args task, c_kwargs = kwargs task,
                 c_attempts = attempts task + 1, c_max_attempts = max_attempts task,
                 c_metadata = task_metadata task,
                 c_policy = resolve_policy st (task_type task)\<rparr> \<and>
       find_row i db' = Some (task\<lparr>status := PROCESSING, started_at := Some (clk 0),
         dispatching_at := None, attempts := attempts task + 1, updated_at := clk 1\<rparr>)) \<and>
    (\<forall>j. j \<noteq> i \<longrightarrow> find_row j db' = find_row j db)"
  unfolding db'_def c_def process_claim_found [OF assms(1)]
  by (intro conjI impI allI) (auto simp: find_row_set_row assms(1) simp del: One_nat_def)

definition sample_table :: ledger where
  "sample_table = [(sample_row ''a'' DISPATCHING)\<lparr>dispatching_at := Some 5\<rparr>,
     sample_row ''b'' PENDING]"

lemma sample_table_row [simp]:
  "find_row ''a'' sample_table = Some ((sample_row ''a'' DISPATCHING)\<lparr>dispatching_at := Some 5\<rparr>)"
  by (simp add: sample_table_def find_row_def sample_row_def)

theorem delivery_outcome_witness:
  "find_row ''a'' (snd (process_claim no_policy sample_clock ''a'' sample_table))
     = Some ((sample_row ''a'' DISPATCHING)\<lparr>status := PROCESSING, started_at := Some 1000,
         dispatching_at := None, attempts := 1, updated_at := 1001\<rparr>) \<and>
   find_row ''b'' (snd (process_claim no_policy sample_clock ''a'' sample_table))
     = find_row ''b'' sample_table"
  using delivery_outcome [OF sample_table_row, of no_policy sample_clock]
  by (simp add: sample_row_def sample_clock_def)

text \<open>
  Two deliveries of one task start one handler: when a delivery has claimed the task, any
  later delivery, with any clock, does nothing as long as nobody else touched the row.
\<close>

lemma one_handler_per_claim:
  assumes "process_claim st clk i db = (Some c, db')"
  shows "process_claim st2 clk2 i db' = (None, db')"
proof -
  obtain task where t: "find_row i db = Some task" and
    db': "db' = set_row i (\<lambda>r. r\<lparr>status := PROCESSING, started_at := Some (clk 0),
      dispatching_at := None, attempts := attempts r + 1, updated_at := clk 1\<rparr>) db"
    by (rule process_claim_Some [OF assms])
  have "\<exists>r. find_row i db' = Some r \<and> status r = PROCESSING"
    using find_after_set_row [OF t] by (simp add: db')
  then show ?thesis by (auto simp: process_claim_def Let_def claimable_def)
qed

text \<open>
  C14. What the end of a handler does, on every branch: a task that is no longer \<open>PROCESSING\<close> (killed,
  or recovered as stuck) is left alone whatever the handler did; a return completes it and
  clears its error; an exception stores its text with the decision of \<open>classify_failure\<close>; an error of
  that decision itself writes nothing.  No other row changes.
\<close>

theorem handler_outcome:
  fixes c :: "('h, 'f) task_claim" and fn :: "'f \<Rightarrow> int \<Rightarrow> backoff_value result" and u :: rat
    and clk :: "nat \<Rightarrow> datetime" and backoff :: "(int \<Rightarrow> timedelta result) option"
    and raised :: "exn option"
  assumes "find_row i db = Some task"
  defines "res \<equiv> process_finish fn u clk backoff i c raised db"
    and "verdict exc \<equiv> classify_failure exc (c_policy c) (policy_delay_for fn u (c_policy c))
           (c_attempts c) (c_max_attempts c) (clk 0) backoff"
  shows "(status task \<noteq> PROCESSING \<longrightarrow> res = (Inr False, db)) \<and>
    (status task = PROCESSING \<and> raised = None \<longrightarrow>
       fst res = Inr True \<and>
       find_row i (snd res) = Some (task\<lparr>status := COMPLETED, completed_at := Some (clk 0),
         error := '''', updated_at := clk 1\<rparr>)) \<and>
    (\<forall>exc e. status task = PROCESSING \<and> raised = Some exc \<and> verdict exc = Inl e \<longrightarrow>
       res = (Inl e, db)) \<and>
    (\<forall>exc out. status task = PROCESSING \<and> raised = Some exc \<and> verdict exc = Inr out \<longrightarrow>
       fst res = Inr False \<and>
       find_row i (snd res) = Some (task\<lparr>error := exn_text exc, status := out_status out,
         scheduled_for := (if is_dead out then scheduled_for task else out_retry_at out),
         updated_at := clk 1\<rparr>)) \<and>
    (\<forall>j. j \<noteq> i \<longrightarrow> find_row j (snd res) = find_row j db)"
  using assms(1) unfolding res_def verdict_def
  by (cases raised)
    (auto simp: process_finish_def find_row_set_row simp del: One_nat_def split: sum.splits)

definition sample_claim :: "(nat, unit) task_claim" where
  "sample_claim = \<lparr>c_type = ''t'', c_args = [], c_kwargs = [], c_attempts = 1, c_max_attempts = 3,
     c_metadata = [], c_policy = task_defaults\<lparr>p_backoff := Constant 30 0\<rparr>\<rparr>"

theorem handler_outcome_witness:
  "find_row ''a'' (snd (process_finish no_backoff_fn 0 sample_clock None ''a'' sample_claim
      (Some (py_exn ValueErrorC ''boom'')) [sample_row ''a'' PROCESSING]))
    = Some ((sample_row ''a'' PROCESSING)\<lparr>error := ''boom'', status := FAILED,
        scheduled_for := Some 30001000, updated_at := 1001\<rparr>)"
proof -
  have f: "find_row ''a'' [sample_row ''a'' PROCESSING] = Some (sample_row ''a'' PROCESSING)"
    by (simp add: find_row_def sample_row_def)
  have v: "classify_failure (py_exn ValueErrorC ''boom'') (c_policy sample_claim)
      (policy_delay_for no_backoff_fn 0 (c_policy sample_claim)) (c_attempts sample_claim)
      (c_max_attempts sample_claim) (sample_clock 0) None
    = Inr \<lparr>out_status = FAILED, out_retry_at = Some 30001000, out_reason = ''retry''\<rparr>"
    by code_simp
  show ?thesis
    using handler_outcome [OF f, of no_backoff_fn 0 sample_clock None sample_claim
        "Some (py_exn ValueErrorC ''boom'')"] v
    by (auto simp: py_exn_def is_dead_def sample_clock_def sample_row_def)
qed

text \<open>
  \<open>process_task\<close> returns \<open>True\<close> only for a task it completed itself: the row is \<open>COMPLETED\<close>
  with the completion time and no error, whatever others did while the handler ran.
\<close>

lemma true_means_completed:
  assumes "process_task call st fn u clk env h b i (db, var) = (Inr True, db', var')"
  shows "\<exists>r. find_row i db' = Some r \<and> status r = COMPLETED \<and>
    completed_at r = Some (clk 1 0) \<and> error r = ''''"
proof -
  obtain c db1 where c: "process_claim st (clk 0) i db = (Some c, db1)"
    using assms by (auto simp: process_task_def split: prod.splits option.splits)
  obtain raised where "process_finish fn u (clk 1) b i c raised (env db1) = (Inr True, db')"
    using assms c
    by (auto simp: process_task_def Let_def simp del: One_nat_def
        split: prod.splits option.splits if_splits)
  then show ?thesis
    by (auto simp: process_finish_def find_row_set_row simp del: One_nat_def
        split: option.splits if_splits sum.splits)
qed

definition quiet_call ::
    "nat \<Rightarrow> json list \<Rightarrow> dict \<Rightarrow> context_var \<Rightarrow> exn option \<times> context_var" where
  "quiet_call h xs kvs var = (None, Some [(''note'', JInt 1)])"

text \<open>
  The trace context of the caller survives: however \<open>process_task\<close> ends (a skip, a success, a
  failure, an exception that leaves it) and whatever the handler did to the context variable, its
  value afterwards is the one before.
\<close>

lemma trace_context_restored:
  "snd (snd (process_task call st fn u clk env h b i (db, var))) = var"
  by (auto simp: process_task_def Let_def set_trace_context_def reset_trace_context_def
      split: prod.split option.split)

text \<open>And the handler runs under the context its producer bound into the task.\<close>

lemma bound_context_extracted:
  assumes "bind_to_metadata dict_of (Some d) None (Some ctx) = Inr out" and "ctx \<noteq> []"
    and "map_of d trace_metadata_key = None" and "distinct (map fst ctx)"
  shows "map_of (extract_trace_context (Some out)) = map_of ctx"
proof -
  have out: "out = AList.update trace_metadata_key (JDict (dict_update [] ctx)) d"
    using assms(1-3) by (simp add: bind_to_metadata_def get_trace_context_def as_dict_def Let_def)
  have "map_of (dict_update [] ctx) = map_of ctx"
    using assms(4)
    by (intro ext) (simp add: dict_update_lookup map_of_rev_items split: option.split)
  then show ?thesis by (simp add: out extract_trace_context_def update_conv')
qed

end
