(* ===== verification/Sa_Sweep.thy ===== *)
theory Sa_Sweep
  imports Task_Lifecycle
begin

text \<open>
  \<open>src/dewey/sqlalchemy/sweep.py\<close>: the four recovery passes and their composition.

  A pass runs in the caller's transaction \<open>t\<close>.  \<open>clk 0\<close> is the clock reading of the pass, the
  later readings are the \<open>onupdate\<close> values of \<open>updated_at\<close>.  What others commit becomes
  visible between statements: \<open>env 0\<close> before the \<open>SELECT\<close>, \<open>env 1\<close> before the first
  \<open>UPDATE\<close>, \<open>env 2\<close> before the second.  \<open>locked\<close> says which rows another transaction has
  locked, which \<open>SKIP LOCKED\<close> leaves out.
\<close>

definition default_stuck_threshold_minutes :: int where
  "default_stuck_threshold_minutes = 10"

definition default_dispatch_timeout_seconds :: int where
  "default_dispatch_timeout_seconds = 300"

type_synonym clock = "nat \<Rightarrow> datetime"
type_synonym others = "nat \<Rightarrow> ledger \<Rightarrow> ledger"

abbreviation alone :: others where "alone \<equiv> \<lambda>_ db. db"

text \<open>The loop that notifies for each row a pass made available again.\<close>

fun notify_rows :: "bool \<Rightarrow> task_row list \<Rightarrow> notification list \<Rightarrow> notification list" where
  "notify_rows is_pg [] q = q"
| "notify_rows is_pg (r # rs) q =
     notify_rows is_pg rs
       (notify_work_available is_pg (task_notification (row_id r) (queue r)) q)"

definition sweep_failed ::
    "bool \<Rightarrow> clock \<Rightarrow> others \<Rightarrow> nat \<Rightarrow> transaction \<Rightarrow> string list \<times> transaction" where
  "sweep_failed is_pg clk env limit t =
     (let now = clk 0;
          db0 = env 0 (working t);
          task_ids = select_ids
            (\<lambda>r. status r = FAILED \<and> sql_le (scheduled_for r) now)
            (\<lambda>r. nulls_last (scheduled_for r)) limit db0
      in if task_ids = [] then ([], t\<lparr>working := db0\<rparr>)
         else
           let (retry_rows, db1) = update_returning
                 (\<lambda>r. row_id r \<in> set task_ids \<and> status r = FAILED \<and>
                      attempts r < max_attempts r)
                 (\<lambda>r. r\<lparr>status := PENDING, updated_at := clk 1\<rparr>) (env 1 db0);
               (dead_rows, db2) = update_returning
                 (\<lambda>r. row_id r \<in> set task_ids \<and> status r = FAILED \<and>
                      attempts r \<ge> max_attempts r)
                 (\<lambda>r. r\<lparr>status := DEAD, updated_at := clk 2\<rparr>) (env 2 db1)
           in (map row_id retry_rows,
               t\<lparr>working := db2, queued := notify_rows is_pg retry_rows (queued t)\<rparr>))"

definition sweep_expired ::
    "clock \<Rightarrow> (string \<Rightarrow> bool) \<Rightarrow> others \<Rightarrow> nat \<Rightarrow> transaction \<Rightarrow> string list \<times> transaction" where
  "sweep_expired clk locked env limit t =
     (let now = clk 0;
          db0 = env 0 (working t);
          task_ids = select_ids
            (\<lambda>r. status r \<in> {PENDING, FAILED, DISPATCHING} \<and> expires_at r \<noteq> None \<and>
                 sql_le (expires_at r) now \<and> \<not> locked (row_id r))
            (\<lambda>r. nulls_last (expires_at r)) limit db0
      in if task_ids = [] then ([], t\<lparr>working := db0\<rparr>)
         else
           let (expired_rows, db1) = update_returning
                 (\<lambda>r. row_id r \<in> set task_ids \<and> status r \<in> {PENDING, FAILED, DISPATCHING})
                 (\<lambda>r. r\<lparr>status := EXPIRED, expired_at := Some now, dispatching_at := None,
                        updated_at := clk 1\<rparr>) (env 1 db0)
           in (map row_id expired_rows, t\<lparr>working := db1\<rparr>))"

definition sweep_stuck ::
    "bool \<Rightarrow> clock \<Rightarrow> others \<Rightarrow> int \<Rightarrow> nat \<Rightarrow> transaction \<Rightarrow> string list \<times> transaction" where
  "sweep_stuck is_pg clk env stuck_threshold_minutes limit t =
     (let threshold = clk 0 - stuck_threshold_minutes * minute;
          db0 = env 0 (working t);
          task_ids = select_ids
            (\<lambda>r. status r = PROCESSING \<and> sql_lt (started_at r) threshold)
            (\<lambda>r. nulls_last (started_at r)) limit db0
      in if task_ids = [] then ([], t\<lparr>working := db0\<rparr>)
         else
           let (retry_rows, db1) = update_returning
                 (\<lambda>r. row_id r \<in> set task_ids \<and> status r = PROCESSING \<and>
                      attempts r < max_attempts r)
                 (\<lambda>r. r\<lparr>status := PENDING, updated_at := clk 1\<rparr>) (env 1 db0);
               (dead_rows, db2) = update_returning
                 (\<lambda>r. row_id r \<in> set task_ids \<and> status r = PROCESSING \<and>
                      attempts r \<ge> max_attempts r)
                 (\<lambda>r. r\<lparr>status := DEAD, updated_at := clk 2\<rparr>) (env 2 db1)
           in (map row_id retry_rows,
               t\<lparr>working := db2, queued := notify_rows is_pg retry_rows (queued t)\<rparr>))"

definition sweep_dispatching ::
    "bool \<Rightarrow> clock \<Rightarrow> others \<Rightarrow> int \<Rightarrow> nat \<Rightarrow> transaction \<Rightarrow> string list \<times> transaction" where
  "sweep_dispatching is_pg clk env dispatch_timeout_seconds limit t =
     (let threshold = clk 0 - dispatch_timeout_seconds * second;
          db0 = env 0 (working t);
          task_ids = select_ids
            (\<lambda>r. status r = DISPATCHING \<and> sql_lt (dispatching_at r) threshold)
            (\<lambda>r. nulls_last (dispatching_at r)) limit db0
      in if task_ids = [] then ([], t\<lparr>working := db0\<rparr>)
         else
           let (retry_rows, db1) = update_returning
                 (\<lambda>r. row_id r \<in> set task_ids \<and> status r = DISPATCHING \<and>
                      attempts r < max_attempts r)
                 (\<lambda>r. r\<lparr>status := PENDING, dispatching_at := None, updated_at := clk 1\<rparr>)
                 (env 1 db0);
               (dead_rows, db2) = update_returning
                 (\<lambda>r. row_id r \<in> set task_ids \<and> status r = DISPATCHING \<and>
                      attempts r \<ge> max_attempts r)
                 (\<lambda>r. r\<lparr>status := DEAD, dispatching_at := None, updated_at := clk 2\<rparr>)
                 (env 2 db1)
           in (map row_id retry_rows,
               t\<lparr>working := db2, queued := notify_rows is_pg retry_rows (queued t)\<rparr>))"

text \<open>The passes run in the order of the dictionary display, each with its own clock readings.\<close>

type_synonym sweep_result = "(string \<times> string list) list"

definition sweep ::
    "bool \<Rightarrow> (nat \<Rightarrow> clock) \<Rightarrow> (string \<Rightarrow> bool) \<Rightarrow> (nat \<Rightarrow> others) \<Rightarrow> int \<Rightarrow> int \<Rightarrow> nat
     \<Rightarrow> transaction \<Rightarrow> sweep_result \<times> transaction" where
  "sweep is_pg clk locked env stuck_threshold_minutes dispatch_timeout_seconds limit t =
     (let (expired, t1) = sweep_expired (clk 0) locked (env 0) limit t;
          (failed, t2) = sweep_failed is_pg (clk 1) (env 1) limit t1;
          (dispatching, t3) =
            sweep_dispatching is_pg (clk 2) (env 2) dispatch_timeout_seconds limit t2;
          (stuck, t4) = sweep_stuck is_pg (clk 3) (env 3) stuck_threshold_minutes limit t3
      in ([(''expired'', expired), (''failed'', failed), (''dispatching'', dispatching),
           (''stuck'', stuck)], t4))"

section \<open>Facts\<close>

lemma notify_rows_eq:
  "notify_rows is_pg rs q =
     q @ (if is_pg then map (\<lambda>r. task_notification (row_id r) (queue r)) rs else [])"
  by (induction is_pg rs q rule: notify_rows.induct) (simp_all add: notify_work_available_def)

lemmas sweep_defs = sweep_failed_def sweep_expired_def sweep_stuck_def sweep_dispatching_def

context row_invariant begin

lemma inv_sweep_failed:
  assumes "table_ok I (working t)" and "\<And>k. keeps I (env k)"
  shows "table_ok I (working (snd (sweep_failed is_pg clk env limit t)))"
  using assms
  by (auto simp: sweep_failed_def Let_def update_returning_def keepsD
      intro!: inv_two_updates row_step.Requeue row_step.Exhaust)

lemma inv_sweep_stuck:
  assumes "table_ok I (working t)" and "\<And>k. keeps I (env k)"
  shows "table_ok I (working (snd (sweep_stuck is_pg clk env n limit t)))"
  using assms
  by (auto simp: sweep_stuck_def Let_def update_returning_def keepsD
      intro!: inv_two_updates row_step.Requeue row_step.Exhaust)

lemma inv_sweep_dispatching:
  assumes "table_ok I (working t)" and "\<And>k. keeps I (env k)"
  shows "table_ok I (working (snd (sweep_dispatching is_pg clk env n limit t)))"
  using assms
  by (auto simp: sweep_dispatching_def Let_def update_returning_def keepsD
      intro!: inv_two_updates row_step.Reclaim row_step.Abandon)

end

text \<open>The rows a pass of \<open>sweep_expired\<close> may lock.\<close>

abbreviation expiry_ids :: "clock \<Rightarrow> (string \<Rightarrow> bool) \<Rightarrow> nat \<Rightarrow> ledger \<Rightarrow> string list" where
  "expiry_ids clk locked limit db \<equiv> select_ids
     (\<lambda>r. status r \<in> {PENDING, FAILED, DISPATCHING} \<and> expires_at r \<noteq> None \<and>
          sql_le (expires_at r) (clk 0) \<and> \<not> locked (row_id r))
     (\<lambda>r. nulls_last (expires_at r)) limit db"

context row_invariant begin

lemma inv_sweep_expired:
  assumes ok: "table_ok I (working t)" and env: "\<And>k. keeps I (env k)"
    and locks: "respects_locks (expiry_ids clk locked limit (env 0 (working t))) (env 1)
      (env 0 (working t))"
  shows "table_ok I (working (snd (sweep_expired clk locked env limit t)))"
proof -
  let ?db0 = "env 0 (working t)"
  have ok0: "table_ok I ?db0" using keepsD [OF env ok] .
  have "row_step r (r\<lparr>status := EXPIRED, expired_at := Some (clk 0), dispatching_at := None,
      updated_at := clk 1\<rparr>)"
    if "r \<in> set (env 1 ?db0)" and "row_id r \<in> set (expiry_ids clk locked limit ?db0)" for r
    using select_ids_locked [OF table_ok_ids [OF ok0] locks that]
    by (auto intro: row_step.Expire)
  then show ?thesis
    using ok0 keepsD [OF env ok0]
    by (auto simp: sweep_expired_def Let_def update_returning_def intro!: inv_update)
qed

lemma inv_sweep:
  assumes "table_ok I (working t)" and "\<And>j k. keeps I (env j k)"
    and "respects_locks (expiry_ids (clk 0) locked limit (env 0 0 (working t))) (env 0 1)
      (env 0 0 (working t))"
  shows "table_ok I (working (snd (sweep is_pg clk locked env m d limit t)))"
proof -
  obtain e t1 where t1: "sweep_expired (clk 0) locked (env 0) limit t = (e, t1)" by fastforce
  obtain f t2 where t2: "sweep_failed is_pg (clk 1) (env 1) limit t1 = (f, t2)" by fastforce
  obtain p t3 where t3: "sweep_dispatching is_pg (clk 2) (env 2) d limit t2 = (p, t3)" by fastforce
  have "table_ok I (working t1)" using inv_sweep_expired [of t "env 0" "clk 0" locked limit] assms t1 by simp
  then have "table_ok I (working t2)" 
    using inv_sweep_failed [of t1 "env 1" is_pg "clk 1" limit] assms(2) t2 by simp
  then have "table_ok I (working t3)"
    using inv_sweep_dispatching [of t2 "env 2" is_pg "clk 2" d limit] assms(2) t3 by simp
  then show ?thesis
    using inv_sweep_stuck [of t3 "env 3" is_pg "clk 3" m limit] assms(2)
    by (cases "sweep_stuck is_pg (clk 3) (env 3) m limit t3") (simp add: sweep_def t1 t2 t3 del: One_nat_def)
qed

end

end
