(* ===== verification/Heartbeat.thy ===== *)
theory Heartbeat
  imports Py_Runtime
begin

text \<open>
  The dispatcher heartbeat contract (\<open>src/dewey/core/heartbeat.py\<close>): the row of
  \<open>dewey_dispatcher_heartbeats\<close>, freshness, and which queues a dispatcher serves.
\<close>

definition default_heartbeat_stale_seconds :: pyfloat where
  "default_heartbeat_stale_seconds = Fin 45"

definition default_heartbeat_retention_days :: int where
  "default_heartbeat_retention_days = 7"

record heartbeat_row =
  hb_instance_id :: string
  hb_version :: string
  hb_backend :: string
  hb_database :: string
  hb_queues :: "string list option"
  hb_started_at :: datetime
  hb_last_seen_at :: datetime

type_synonym heartbeats = "heartbeat_row list"

text \<open>\<open>now - timedelta(seconds=x)\<close>, with the errors of both operations.\<close>

definition seconds_before :: "datetime \<Rightarrow> pyfloat \<Rightarrow> datetime result" where
  "seconds_before now x =
     (case timedelta_seconds x of Inl e \<Rightarrow> Inl e | Inr d \<Rightarrow> datetime_add now (- d))"

definition is_fresh :: "heartbeat_row \<Rightarrow> datetime \<Rightarrow> pyfloat \<Rightarrow> bool result" where
  "is_fresh hb now stale_after_seconds =
     (case seconds_before now stale_after_seconds of
        Inl e \<Rightarrow> Inl e
      | Inr cutoff \<Rightarrow> Inr (hb_last_seen_at hb \<ge> cutoff))"

definition serves :: "heartbeat_row \<Rightarrow> string list option \<Rightarrow> bool" where
  "serves hb requested_queues =
     (case requested_queues of
        None \<Rightarrow> True
      | Some requested \<Rightarrow>
          (case hb_queues hb of
             None \<Rightarrow> True
           | Some qs \<Rightarrow> set requested \<subseteq> set qs))"

text \<open>
  What writing a heartbeat does to the table: an upsert of the own row, then the removal of
  at most 1000 rows last seen before the retention cutoff.
\<close>

definition upsert_heartbeat ::
    "(heartbeat_row \<Rightarrow> heartbeat_row) \<Rightarrow> heartbeat_row \<Rightarrow> heartbeats \<Rightarrow> heartbeats" where
  "upsert_heartbeat touch new_row rows =
     (if list_ex (\<lambda>h. hb_instance_id h = hb_instance_id new_row) rows
      then update_where (\<lambda>h. hb_instance_id h = hb_instance_id new_row) touch rows
      else rows @ [new_row])"

definition prune_heartbeats :: "datetime \<Rightarrow> heartbeats \<Rightarrow> heartbeats" where
  "prune_heartbeats cutoff rows =
     (let stale_ids = take 1000 (map hb_instance_id (filter (\<lambda>h. hb_last_seen_at h < cutoff) rows))
      in delete_where (\<lambda>h. hb_instance_id h \<in> set stale_ids) rows)"

lemma prune_keeps:
  assumes "h \<in> set rows" and "distinct (map hb_instance_id rows)" and "cutoff \<le> hb_last_seen_at h"
  shows "h \<in> set (prune_heartbeats cutoff rows)"
proof -
  have "k = h" if "k \<in> set rows" and "hb_instance_id k = hb_instance_id h" for k
    using assms(1,2) that by (auto simp: distinct_map inj_on_def)
  then have "hb_instance_id h \<notin>
      set (take n (map hb_instance_id (filter (\<lambda>h. hb_last_seen_at h < cutoff) rows)))" for n
    using assms(3) by (force dest!: in_set_takeD)
  then show ?thesis using assms(1) by (simp add: prune_heartbeats_def Let_def)
qed

lemma upsert_ids:
  assumes "\<And>h. hb_instance_id (touch h) = hb_instance_id h"
    and "distinct (map hb_instance_id rows)"
  shows "distinct (map hb_instance_id (upsert_heartbeat touch new_row rows))"
  using assms by (auto simp: upsert_heartbeat_def list_ex_iff)

lemma prune_subset: "set (prune_heartbeats cutoff rows) \<subseteq> set rows"
  by (auto simp: prune_heartbeats_def Let_def)

end
