(* ===== verification/Sa_Dispatch.thy ===== *)
theory Sa_Dispatch
  imports Sa_Sweep Heartbeat
begin

text \<open>
  \<open>SQLAlchemyDispatchBackend\<close> of \<open>src/dewey/sqlalchemy/dispatch.py\<close>: the claim query, the wake
  time, release, the recovery sweep and the heartbeat.

  As in the sweeps, \<open>env k\<close> is what others commit before the statement \<open>k\<close>; \<open>locked 0\<close> and
  \<open>locked 1\<close> are the rows other transactions have locked when the two \<open>SELECT\<close>s run.
\<close>

record backend =
  b_queues :: "string list option"
  b_stuck_threshold_minutes :: int
  b_dispatch_timeout_seconds :: int
  b_sweep_limit :: nat
  b_postgresql :: bool
  b_instance_id :: string
  b_database_identity :: string
  b_started_at :: datetime

text \<open>\<open>__init__\<close>: an empty list of queues means all queues.\<close>

definition backend_init ::
    "string \<Rightarrow> string \<Rightarrow> datetime \<Rightarrow> string list option \<Rightarrow> int \<Rightarrow> int \<Rightarrow> nat \<Rightarrow> string option
     \<Rightarrow> backend" where
  "backend_init dialect uuid now queues stuck timeout limit identity =
     \<lparr>b_queues = (case queues of None \<Rightarrow> None | Some qs \<Rightarrow> if qs = [] then None else Some qs),
      b_stuck_threshold_minutes = stuck, b_dispatch_timeout_seconds = timeout,
      b_sweep_limit = limit, b_postgresql = (dialect = ''postgresql''),
      b_instance_id = uuid,
      b_database_identity =
        (case identity of
           None \<Rightarrow> ''sqlalchemy:'' @ dialect
         | Some s \<Rightarrow> if s = [] then ''sqlalchemy:'' @ dialect else s),
      b_started_at = now\<rparr>"

definition in_queues :: "string list option \<Rightarrow> task_row \<Rightarrow> bool" where
  "in_queues qs r = (case qs of None \<Rightarrow> True | Some l \<Rightarrow> queue r \<in> set l)"

definition claim_due :: "datetime \<Rightarrow> task_row \<Rightarrow> bool" where
  "claim_due now r =
     ((status r = PENDING \<and> (scheduled_for r = None \<or> sql_le (scheduled_for r) now)) \<or>
      (status r = FAILED \<and> sql_le (scheduled_for r) now \<and> attempts r < max_attempts r))"

definition not_expired :: "datetime \<Rightarrow> task_row \<Rightarrow> bool" where
  "not_expired now r = (case expires_at r of None \<Rightarrow> True | Some t \<Rightarrow> t > now)"

definition effective_due :: "task_row \<Rightarrow> datetime" where
  "effective_due r = (case scheduled_for r of None \<Rightarrow> created_at r | Some t \<Rightarrow> t)"

definition claim_order :: "task_row \<Rightarrow> int \<times> int \<times> int" where
  "claim_order r = (- priority r, effective_due r, created_at r)"

text \<open>The two \<open>WHERE\<close> clauses of the claim, with the queue filter and \<open>SKIP LOCKED\<close>.\<close>

definition expiry_candidate ::
    "backend \<Rightarrow> datetime \<Rightarrow> (string \<Rightarrow> bool) \<Rightarrow> task_row \<Rightarrow> bool" where
  "expiry_candidate b now locked r =
     (status r \<in> {PENDING, FAILED} \<and> expires_at r \<noteq> None \<and> sql_le (expires_at r) now \<and>
      in_queues (b_queues b) r \<and> \<not> (b_postgresql b \<and> locked (row_id r)))"

definition claim_candidate ::
    "backend \<Rightarrow> datetime \<Rightarrow> (string \<Rightarrow> bool) \<Rightarrow> task_row \<Rightarrow> bool" where
  "claim_candidate b now locked r =
     (claim_due now r \<and> not_expired now r \<and> in_queues (b_queues b) r \<and>
      \<not> (b_postgresql b \<and> locked (row_id r)))"

definition select_expired :: "backend \<Rightarrow> datetime \<Rightarrow> (string \<Rightarrow> bool) \<Rightarrow> nat \<Rightarrow> ledger \<Rightarrow> string list" where
  "select_expired b now locked limit db =
     take limit (map row_id (filter (expiry_candidate b now locked) db))"

definition expire_rows :: "datetime \<Rightarrow> datetime \<Rightarrow> string list \<Rightarrow> ledger \<Rightarrow> ledger" where
  "expire_rows now stamp expired_ids db =
     (if expired_ids = [] then db
      else update_where (\<lambda>r. row_id r \<in> set expired_ids)
             (\<lambda>r. r\<lparr>status := EXPIRED, expired_at := Some now, dispatching_at := None,
                    updated_at := stamp\<rparr>) db)"

definition claim ::
    "backend \<Rightarrow> clock \<Rightarrow> (nat \<Rightarrow> string \<Rightarrow> bool) \<Rightarrow> others \<Rightarrow> nat \<Rightarrow> ledger
     \<Rightarrow> string list \<times> ledger" where
  "claim b clk locked env limit db =
     (let now = clk 0;
          db0 = env 0 db;
          expired_ids = select_expired b now (locked 0) limit db0;
          db1 = expire_rows now (clk 1) expired_ids (env 1 db0);
          db2 = env 2 db1;
          task_ids = select_ids (claim_candidate b now (locked 1)) claim_order limit db2
      in if task_ids = [] then ([], db2)
         else
           let (claimed, db3) = update_returning
                 (\<lambda>r. row_id r \<in> set task_ids \<and> status r \<in> {PENDING, FAILED})
                 (\<lambda>r. r\<lparr>status := DISPATCHING, dispatching_at := Some now,
                        updated_at := clk 2\<rparr>) (env 3 db2)
           in (filter (\<lambda>i. i \<in> row_id ` set claimed) task_ids, db3))"

definition wake_at :: "task_row \<Rightarrow> datetime option" where
  "wake_at r =
     (case (expires_at r, scheduled_for r) of
        (Some e, Some s) \<Rightarrow> if e < s then Some e else Some s
      | (_, s) \<Rightarrow> s)"

definition next_due :: "backend \<Rightarrow> datetime \<Rightarrow> ledger \<Rightarrow> datetime option" where
  "next_due b now db =
     (let wakes = List.map_filter wake_at
            (filter (\<lambda>r. scheduled_for r \<noteq> None \<and>
                         (status r = PENDING \<or>
                          (status r = FAILED \<and> attempts r < max_attempts r)) \<and>
                         in_queues (b_queues b) r) db)
      in if wakes = [] then None
         else let due_at = Min (set wakes) in Some (if due_at \<ge> now then due_at else now))"

definition release :: "clock \<Rightarrow> string list \<Rightarrow> ledger \<Rightarrow> ledger" where
  "release clk task_ids db =
     (if task_ids = [] then db
      else update_where (\<lambda>r. row_id r \<in> set task_ids \<and> status r = DISPATCHING)
             (\<lambda>r. r\<lparr>status := PENDING, dispatching_at := None, updated_at := clk 0\<rparr>) db)"

definition run_sweep ::
    "backend \<Rightarrow> (nat \<Rightarrow> clock) \<Rightarrow> (string \<Rightarrow> bool) \<Rightarrow> (nat \<Rightarrow> others) \<Rightarrow> ledger
     \<Rightarrow> notification list \<Rightarrow> sweep_result \<times> ledger \<times> notification list" where
  "run_sweep b clk locked env db sent =
     (let (result, t) = sweep (b_postgresql b) clk locked env (b_stuck_threshold_minutes b)
            (b_dispatch_timeout_seconds b) (b_sweep_limit b) (begin_transaction db sent);
          t' = commit t
      in (result, committed t', delivered t'))"

definition heartbeat :: "string \<Rightarrow> backend \<Rightarrow> datetime \<Rightarrow> heartbeats \<Rightarrow> heartbeats" where
  "heartbeat version b now rows =
     (let cutoff = now - default_heartbeat_retention_days * day;
          rows' = upsert_heartbeat (\<lambda>h. h\<lparr>hb_last_seen_at := now\<rparr>)
            \<lparr>hb_instance_id = b_instance_id b, hb_version = version, hb_backend = ''sqlalchemy'',
             hb_database = b_database_identity b, hb_queues = b_queues b,
             hb_started_at = b_started_at b, hb_last_seen_at = now\<rparr> rows
      in prune_heartbeats cutoff rows')"

text \<open>\<open>close\<close>, the database half: the own heartbeat goes, unless the database fails.\<close>

definition close_heartbeat :: "bool \<Rightarrow> backend \<Rightarrow> heartbeats \<Rightarrow> heartbeats" where
  "close_heartbeat database_up b rows =
     (if database_up then delete_where (\<lambda>h. hb_instance_id h = b_instance_id b) rows else rows)"

section \<open>Facts about the claim\<close>

text \<open>The table the candidates are selected from.\<close>

definition claim_view :: "backend \<Rightarrow> clock \<Rightarrow> (nat \<Rightarrow> string \<Rightarrow> bool) \<Rightarrow> others \<Rightarrow> nat \<Rightarrow> ledger \<Rightarrow> ledger" where
  "claim_view b clk locked env limit db =
     env 2 (expire_rows (clk 0) (clk 1) (select_expired b (clk 0) (locked 0) limit (env 0 db))
              (env 1 (env 0 db)))"

abbreviation candidates :: "backend \<Rightarrow> clock \<Rightarrow> (nat \<Rightarrow> string \<Rightarrow> bool) \<Rightarrow> nat \<Rightarrow> ledger \<Rightarrow> string list" where
  "candidates b clk locked limit db \<equiv>
     select_ids (claim_candidate b (clk 0) (locked 1)) claim_order limit db"

lemma claim_eq:
  "claim b clk locked env limit db =
     (let view = claim_view b clk locked env limit db; task_ids = candidates b clk locked limit view
      in if task_ids = [] then ([], view)
         else (filter (\<lambda>i. \<exists>r \<in> set (env 3 view). row_id r = i \<and> status r \<in> {PENDING, FAILED}) task_ids,
               update_where (\<lambda>r. row_id r \<in> set task_ids \<and> status r \<in> {PENDING, FAILED})
                 (\<lambda>r. r\<lparr>status := DISPATCHING, dispatching_at := Some (clk 0),
                        updated_at := clk 2\<rparr>) (env 3 view)))"
  by (auto simp: claim_def claim_view_def Let_def update_returning_def image_image image_iff
      intro!: filter_cong)

lemma claim_subset: "set (fst (claim b clk locked env limit db))
    \<subseteq> set (candidates b clk locked limit (claim_view b clk locked env limit db))"
  by (auto simp: claim_eq Let_def)

lemma claim_length: "length (fst (claim b clk locked env limit db)) \<le> limit"
  unfolding claim_eq Let_def
  by (auto intro: order_trans [OF length_filter_le length_select_ids])

lemma claim_owns:
  assumes "i \<in> set (fst (claim b clk locked env limit db))"
    and "distinct (map row_id (env 3 (claim_view b clk locked env limit db)))"
  shows "\<exists>r. find_row i (snd (claim b clk locked env limit db)) = Some r \<and>
    status r = DISPATCHING \<and> dispatching_at r = Some (clk 0)"
proof -
  let ?v = "claim_view b clk locked env limit db"
  let ?P = "\<lambda>r. row_id r \<in> set (candidates b clk locked limit ?v) \<and> status r \<in> {PENDING, FAILED}"
  let ?f = "\<lambda>r. r\<lparr>status := DISPATCHING, dispatching_at := Some (clk 0), updated_at := clk 2\<rparr>"
  obtain r where r: "r \<in> set (env 3 ?v)" "row_id r = i" "?P r"
    and db': "snd (claim b clk locked env limit db) = update_where ?P ?f (env 3 ?v)"
    using assms(1) by (auto simp: claim_eq Let_def split: if_splits)
  have "?f r \<in> set (update_where ?P ?f (env 3 ?v))"
    using r by (auto simp: set_update_where)
  moreover have "distinct (map row_id (update_where ?P ?f (env 3 ?v)))"
    using assms(2) by simp
  ultimately have "find_row (row_id (?f r)) (update_where ?P ?f (env 3 ?v)) = Some (?f r)"
    by (rule find_row_unique [rotated])
  then show ?thesis using r db' by auto
qed

context row_invariant begin

lemma inv_expire_rows:
  assumes ok: "table_ok I db" and env: "keeps I e"
    and locks: "respects_locks (select_expired b now locked limit db) e db"
  shows "table_ok I (expire_rows now stamp (select_expired b now locked limit db) (e db))"
proof -
  have "row_step r (r\<lparr>status := EXPIRED, expired_at := Some now, dispatching_at := None,
      updated_at := stamp\<rparr>)"
    if r: "r \<in> set (e db)" "row_id r \<in> set (select_expired b now locked limit db)" for r
  proof -
    have "r \<in> set db" using locks r by (auto simp: respects_locks_def list_all_iff)
    moreover obtain s where "s \<in> set db" "row_id s = row_id r" "expiry_candidate b now locked s"
      using r(2) by (auto simp: select_expired_def dest!: in_set_takeD)
    ultimately have "expiry_candidate b now locked r"
      using table_ok_ids [OF ok] by (metis find_row_unique option.inject)
    then show ?thesis by (auto simp: expiry_candidate_def intro: row_step.Expire)
  qed
  then show ?thesis
    using keepsD [OF env ok] by (auto simp: expire_rows_def intro!: inv_update)
qed

lemma inv_claim_view:
  assumes "table_ok I db" and "\<And>k. keeps I (env k)"
    and "respects_locks (select_expired b (clk 0) (locked 0) limit (env 0 db)) (env 1) (env 0 db)"
  shows "table_ok I (claim_view b clk locked env limit db)"
  unfolding claim_view_def
  by (intro keepsD [OF assms(2)] inv_expire_rows assms)

lemma inv_claim:
  assumes ok: "table_ok I db" and env: "\<And>k. keeps I (env k)"
    and l1: "respects_locks (select_expired b (clk 0) (locked 0) limit (env 0 db)) (env 1) (env 0 db)"
    and l2: "respects_locks
      (candidates b clk locked limit (claim_view b clk locked env limit db)) (env 3)
      (claim_view b clk locked env limit db)"
  shows "table_ok I (snd (claim b clk locked env limit db))"
proof -
  let ?v = "claim_view b clk locked env limit db"
  have okv: "table_ok I ?v" by (rule inv_claim_view) (rule ok, rule env, rule l1)
  have "row_step r (r\<lparr>status := DISPATCHING, dispatching_at := Some (clk 0), updated_at := clk 2\<rparr>)"
    if "r \<in> set (env 3 ?v)" and "row_id r \<in> set (candidates b clk locked limit ?v)" for r
    using select_ids_locked [OF table_ok_ids [OF okv] l2 that]
    by (auto simp: claim_candidate_def claim_due_def intro: row_step.Dispatch)
  then show ?thesis
    using okv keepsD [OF env okv] by (auto simp: claim_eq Let_def intro!: inv_update)
qed

lemma inv_release: "table_ok I db \<Longrightarrow> table_ok I (release clk ids db)"
  by (auto simp: release_def intro!: inv_update row_step.Reclaim)

lemma inv_run_sweep:
  assumes "table_ok I db" and "\<And>j k. keeps I (env j k)"
    and "respects_locks (expiry_ids (clk 0) locked (b_sweep_limit b) (env 0 0 db)) (env 0 1) (env 0 0 db)"
  shows "table_ok I (fst (snd (run_sweep b clk locked env db sent)))"
  using inv_sweep [of "begin_transaction db sent" env clk locked "b_sweep_limit b"] assms
  by (auto simp: run_sweep_def Let_def begin_transaction_def commit_def split: prod.split)
    (metis snd_conv)

end

section \<open>Claims of cooperating dispatchers\<close>

text \<open>A row left out of a full claim does not come before any row taken.\<close>

lemma select_ids_least:
  assumes "x \<in> set db" and "P x" and "row_id x \<notin> set (select_ids P k n db)"
    and "row_id y \<in> set (select_ids P k n db)" and "y \<in> set db" and "distinct (map row_id db)"
  shows "k y \<le> k x"
proof -
  have "x \<notin> set (order_limit k n (filter P db))" and "x \<in> set (filter P db)"
    using assms(1-3) by (auto simp: select_ids_def)
  moreover obtain z where "z \<in> set (order_limit k n (filter P db))" "row_id z = row_id y"
    using assms(4) by (auto simp: select_ids_def)
  moreover from this have "z = y"
    using assms(5,6) by (metis (no_types, lifting) filter_is_subset find_row_unique option.inject
        order_limit_in subsetD)
  ultimately show ?thesis by (metis order_limit_least)
qed

text \<open>
  A dispatcher that runs its query while another one still holds its locks takes none of the
  other's rows.
\<close>

lemma claim_skips_locked:
  assumes "b_postgresql b"
  shows "set (fst (claim b clk locked env limit db)) \<inter> {i. locked 1 i} = {}"
  using subsetD [OF claim_subset [of b clk locked env limit db], THEN select_ids_in] assms
  by (fastforce simp: claim_candidate_def)

end
