(* ===== verification/Claim_Properties.thy ===== *)
theory Claim_Properties
  imports Sa_Dispatch Worker_Properties
begin

text \<open>
  Properties of the claim query of the SQLAlchemy integration: what it selects, what it does under
  interference, and that dispatchers do not claim the same task twice.
\<close>

section \<open>The claim as a function of the table\<close>

lemma expire_rows_wf: "ledger_wf (expire_rows now stamp ids db) = ledger_wf db"
proof -
  have "rows_changed same_contract db (expire_rows now stamp ids db)"
    by (auto simp: expire_rows_def same_contract_def)
  then show ?thesis by (rule rows_changed_wf) simp
qed

lemma claim_view_wf:
  assumes "ledger_wf db" and "\<And>k a. ledger_wf a \<Longrightarrow> ledger_wf (env k a)"
  shows "ledger_wf (claim_view b clk locked env limit db)"
  by (simp add: claim_view_def expire_rows_wf assms)

text \<open>Expiring first does not change which rows can be claimed.\<close>

lemma candidates_after_expiry:
  assumes "distinct (map row_id db)"
  shows "filter (claim_candidate b now l1)
      (expire_rows now stamp (select_expired b now l0 limit db) db)
    = filter (claim_candidate b now l1) db"
proof -
  let ?X = "select_expired b now l0 limit db"
  let ?f = "\<lambda>r. r\<lparr>status := EXPIRED, expired_at := Some now, dispatching_at := None,
                 updated_at := stamp\<rparr>"
  have f: "\<not> claim_candidate b now l1 (?f r)" for r
    by (simp add: claim_candidate_def claim_due_def)
  have x: "\<not> claim_candidate b now l1 r" if "r \<in> set db" and i: "row_id r \<in> set ?X" for r
  proof -
    obtain s where s: "s \<in> set db" "row_id s = row_id r" "expiry_candidate b now l0 s"
      using i by (auto simp: select_expired_def dest!: in_set_takeD)
    then have "s = r" using assms \<open>r \<in> set db\<close> by (metis find_row_unique option.inject)
    with s show ?thesis
      by (auto simp: expiry_candidate_def claim_candidate_def not_expired_def elim!: sql_leE)
  qed
  have "filter (claim_candidate b now l1) (update_where (\<lambda>r. row_id r \<in> set ?X) ?f rows)
      = filter (claim_candidate b now l1) rows" if "set rows \<subseteq> set db" for rows
    using that by (induction rows) (use x f in \<open>auto simp: update_where_def\<close>)
  then show ?thesis by (simp add: expire_rows_def)
qed

lemma claim_alone_ids:
  assumes "ledger_wf db"
  shows "fst (claim b clk locked alone limit db) = candidates b clk locked limit db"
proof -
  let ?v = "claim_view b clk locked alone limit db"
  have v: "candidates b clk locked limit ?v = candidates b clk locked limit db"
    using candidates_after_expiry [OF ledger_wf_distinct [OF assms]]
    by (simp add: select_ids_def claim_view_def)
  have "\<exists>r \<in> set ?v. row_id r = i \<and> status r \<in> {PENDING, FAILED}"
    if "i \<in> set (candidates b clk locked limit ?v)" for i
    using select_ids_in [OF that] by (auto simp: claim_candidate_def claim_due_def)
  then show ?thesis
    by (simp add: claim_eq Let_def filter_id_conv v del: One_nat_def)
qed

text \<open>What the claim does to one row.\<close>

definition claimed_row ::
    "clock \<Rightarrow> string list \<Rightarrow> string list \<Rightarrow> task_row \<Rightarrow> task_row" where
  "claimed_row clk ids expired r =
     (if row_id r \<in> set ids
      then r\<lparr>status := DISPATCHING, dispatching_at := Some (clk 0), updated_at := clk 2\<rparr>
      else if row_id r \<in> set expired
      then r\<lparr>status := EXPIRED, expired_at := Some (clk 0), dispatching_at := None,
             updated_at := clk 1\<rparr>
      else r)"

lemma claim_alone_table:
  assumes wf: "ledger_wf db"
  shows "snd (claim b clk locked alone limit db) =
    map (claimed_row clk (candidates b clk locked limit db)
          (select_expired b (clk 0) (locked 0) limit db)) db"
proof -
  let ?X = "select_expired b (clk 0) (locked 0) limit db"
  let ?T = "candidates b clk locked limit db"
  let ?f = "\<lambda>r. r\<lparr>status := EXPIRED, expired_at := Some (clk 0), dispatching_at := None,
                 updated_at := clk 1\<rparr>"
  let ?g = "\<lambda>r. r\<lparr>status := DISPATCHING, dispatching_at := Some (clk 0), updated_at := clk 2\<rparr>"
  note d = ledger_wf_distinct [OF wf]
  have v: "candidates b clk locked limit (claim_view b clk locked alone limit db) = ?T"
    using candidates_after_expiry [OF d] by (simp add: select_ids_def claim_view_def)
  have TC: "claim_candidate b (clk 0) (locked 1) r" if "r \<in> set db" "row_id r \<in> set ?T" for r
    using select_ids_row [OF d that] .
  have XC: "expiry_candidate b (clk 0) (locked 0) r" if r: "r \<in> set db" "row_id r \<in> set ?X" for r
  proof -
    obtain s where "s \<in> set db" "row_id s = row_id r" "expiry_candidate b (clk 0) (locked 0) s"
      using r(2) by (auto simp: select_expired_def dest!: in_set_takeD)
    then show ?thesis using d r(1) by (metis find_row_unique option.inject)
  qed
  have disj: "\<not> (row_id r \<in> set ?T \<and> row_id r \<in> set ?X)" if "r \<in> set db" for r
    using TC XC that
    by (force simp: claim_candidate_def expiry_candidate_def not_expired_def elim!: sql_leE)
  have view: "claim_view b clk locked alone limit db
      = update_where (\<lambda>r. row_id r \<in> set ?X) ?f db"
    by (auto simp: claim_view_def expire_rows_def update_where_none)
  have "snd (claim b clk locked alone limit db)
      = update_where (\<lambda>r. row_id r \<in> set ?T \<and> status r \<in> {PENDING, FAILED}) ?g
          (update_where (\<lambda>r. row_id r \<in> set ?X) ?f db)"
    unfolding claim_eq Let_def view v [unfolded view]
    by (auto simp: update_where_none simp del: One_nat_def)
  also have "\<dots> = map (claimed_row clk ?T ?X) db"
    unfolding update_where_def map_map
  proof (rule map_cong [OF refl])
    fix r assume r: "r \<in> set db"
    have "status r \<in> {PENDING, FAILED}" if "row_id r \<in> set ?T"
      using TC [OF r that] by (auto simp: claim_candidate_def claim_due_def)
    then show "((\<lambda>r. if row_id r \<in> set ?T \<and> status r \<in> {PENDING, FAILED} then ?g r else r) \<circ>
        (\<lambda>r. if row_id r \<in> set ?X then ?f r else r)) r = claimed_row clk ?T ?X r"
      using disj [OF r] by (auto simp: claimed_row_def)
  qed
  finally show ?thesis .
qed


definition sample_backend :: backend where
  "sample_backend = \<lparr>b_queues = None, b_stuck_threshold_minutes = 10,
     b_dispatch_timeout_seconds = 300, b_sweep_limit = 100, b_postgresql = True,
     b_instance_id = ''d'', b_database_identity = ''sqlalchemy:postgresql'', b_started_at = 0\<rparr>"

definition sample_backlog :: ledger where
  "sample_backlog = [sample_row ''a'' PENDING, (sample_row ''b'' PENDING)\<lparr>priority := 5\<rparr>,
     (sample_row ''c'' FAILED)\<lparr>scheduled_for := Some 900, priority := 2\<rparr>,
     (sample_row ''d'' PENDING)\<lparr>expires_at := Some 1000, priority := 9\<rparr>,
     (sample_row ''e'' PROCESSING)\<lparr>started_at := Some 1\<rparr>]"

lemma sample_backlog_wf: "ledger_wf sample_backlog"
  by code_simp


text \<open>
  A claim is safe under interference: whatever others commit between its statements (as long as
  the table's constraints hold), the identifiers it returns are distinct, at most \<open>limit\<close>, and each
  names a row this claim moved to \<open>DISPATCHING\<close> at its own clock reading; a candidate that another
  transaction took first is not returned.
\<close>

lemma claim_returns_own_rows:
  assumes "ledger_wf db" and "\<And>k a. ledger_wf a \<Longrightarrow> ledger_wf (env k a)"
  shows "distinct (fst (claim b clk locked env limit db)) \<and>
    length (fst (claim b clk locked env limit db)) \<le> limit \<and>
    (\<forall>i \<in> set (fst (claim b clk locked env limit db)).
       \<exists>r. find_row i (snd (claim b clk locked env limit db)) = Some r \<and>
         status r = DISPATCHING \<and> dispatching_at r = Some (clk 0))"
proof -
  let ?v = "claim_view b clk locked env limit db"
  have v: "ledger_wf ?v" using claim_view_wf assms by blast
  then have "distinct (candidates b clk locked limit ?v)"
    by (intro distinct_select_ids ledger_wf_distinct)
  then have "distinct (fst (claim b clk locked env limit db))"
    by (simp add: claim_eq Let_def)
  moreover have "distinct (map row_id (env 3 ?v))"
    using assms(2) [OF v] by (rule ledger_wf_distinct)
  ultimately show ?thesis using claim_length claim_owns by blast
qed

definition rival :: others where
  "rival k db = (if k = 3 then set_row ''b'' (\<lambda>r. r\<lparr>status := DEAD\<rparr>) db else db)"

text \<open>
  C8. Two dispatchers never claim the same task: not when the second query runs while the first
  still holds its row locks (\<open>SKIP LOCKED\<close>), and not when it runs after the first has committed.
\<close>

theorem claims_disjoint:
  assumes "ledger_wf db"
  shows "(b_postgresql b2 \<and> (\<forall>i \<in> set (fst (claim b1 clk1 lk1 alone n1 db)). lk2 1 i) \<longrightarrow>
      set (fst (claim b1 clk1 lk1 alone n1 db)) \<inter> set (fst (claim b2 clk2 lk2 env n2 db)) = {}) \<and>
    set (fst (claim b1 clk1 lk1 alone n1 db)) \<inter>
      set (fst (claim b2 clk2 lk3 alone n2 (snd (claim b1 clk1 lk1 alone n1 db)))) = {}"
proof
  show "b_postgresql b2 \<and> (\<forall>i \<in> set (fst (claim b1 clk1 lk1 alone n1 db)). lk2 1 i) \<longrightarrow>
      set (fst (claim b1 clk1 lk1 alone n1 db)) \<inter> set (fst (claim b2 clk2 lk2 env n2 db)) = {}"
    using claim_skips_locked [of b2 clk2 lk2 env n2 db] by blast
  let ?db' = "snd (claim b1 clk1 lk1 alone n1 db)"
  have wf': "ledger_wf ?db'"
  proof -
    have "rows_changed same_contract db ?db'"
      unfolding claim_alone_table [OF assms] rows_changed_def
      by (auto simp: list_all2_conv_all_nth claimed_row_def same_contract_def)
    then show ?thesis using assms rows_changed_wf [of same_contract db ?db'] by simp
  qed
  have "False" if i: "i \<in> set (fst (claim b1 clk1 lk1 alone n1 db))"
    and j: "i \<in> set (fst (claim b2 clk2 lk3 alone n2 ?db'))" for i
  proof -
    obtain r where r: "find_row i ?db' = Some r" "status r = DISPATCHING"
      using claim_owns [OF i] claim_view_wf [OF assms, of alone] ledger_wf_distinct by blast
    obtain s where s: "s \<in> set ?db'" "row_id s = i" "claim_candidate b2 (clk2 0) (lk3 1) s"
      using j select_ids_in unfolding claim_alone_ids [OF wf'] by blast
    have "s = r" using find_row_eq [OF ledger_wf_distinct [OF wf'] r(1) s(1,2)] .
    then show False using r s(3) by (auto simp: claim_candidate_def claim_due_def)
  qed
  then show "set (fst (claim b1 clk1 lk1 alone n1 db)) \<inter>
      set (fst (claim b2 clk2 lk3 alone n2 ?db')) = {}" by blast
qed

theorem claims_disjoint_witness:
  "fst (claim sample_backend sample_clock (\<lambda>_ _. False) alone 1 sample_backlog) = [''b''] \<and>
   set (fst (claim sample_backend sample_clock (\<lambda>_ _. False) alone 1 sample_backlog)) \<inter>
   set (fst (claim sample_backend sample_clock (\<lambda>_ i. i = ''b'') alone 9 sample_backlog)) = {} \<and>
   fst (claim sample_backend sample_clock (\<lambda>_ i. i = ''b'') alone 9 sample_backlog) = [''c'', ''a'']"
proof -
  have "fst (claim sample_backend sample_clock (\<lambda>_ _. False) alone 1 sample_backlog) = [''b'']"
    and "fst (claim sample_backend sample_clock (\<lambda>_ i. i = ''b'') alone 9 sample_backlog) = [''c'', ''a'']"
    by code_simp+
  moreover have "b_postgresql sample_backend" by (simp add: sample_backend_def)
  ultimately show ?thesis
    using claims_disjoint [OF sample_backlog_wf, of sample_backend sample_backend sample_clock
        "\<lambda>_ _. False" 1 "\<lambda>_ i. i = ''b''" sample_clock alone 9 "\<lambda>_ _. False"]
    by simp
qed

end
