(* ===== verification/Dispatcher.thy ===== *)
theory Dispatcher
  imports Sa_Sweep
begin

text \<open>
  The dispatcher loop of \<open>src/dewey/dispatcher.py\<close>.

  Everything outside the dispatcher object is a state \<open>'s\<close> (the database, the transport, the
  clocks, the stop event); the calls the dispatcher makes on it are the fields of
  \<open>dispatch_io\<close>, each giving a value or an exception and the state after it.  The object
  itself is the record \<open>dispatcher\<close>.  Only an \<open>Exception\<close> is caught by the loop: any other
  exception leaves it.
\<close>

section \<open>Retry timing\<close>

record backoff_state =
  bk_base :: rat
  bk_cap :: rat
  bk_delay :: rat
  bk_retry_at :: rat

definition backoff_init :: "rat \<Rightarrow> rat \<Rightarrow> backoff_state" where
  "backoff_init base cap = \<lparr>bk_base = base, bk_cap = cap, bk_delay = 0, bk_retry_at = 0\<rparr>"

definition note_failure :: "rat \<Rightarrow> backoff_state \<Rightarrow> backoff_state" where
  "note_failure now b =
     (let delay = (if bk_delay b \<noteq> 0 then min (bk_delay b * 2) (bk_cap b) else bk_base b)
      in b\<lparr>bk_delay := delay, bk_retry_at := now + delay\<rparr>)"

definition note_success :: "backoff_state \<Rightarrow> backoff_state" where
  "note_success b = b\<lparr>bk_delay := 0, bk_retry_at := 0\<rparr>"

definition remaining_delay :: "rat \<Rightarrow> backoff_state \<Rightarrow> rat" where
  "remaining_delay now b = (if bk_delay b = 0 then 0 else max 0 (bk_retry_at b - now))"

record sweep_clock =
  sc_interval :: "rat option"
  sc_last :: "rat option"

definition clock_due :: "rat \<Rightarrow> sweep_clock \<Rightarrow> bool \<times> sweep_clock" where
  "clock_due now c =
     (case sc_interval c of
        None \<Rightarrow> (False, c)
      | Some interval \<Rightarrow>
          (case sc_last c of
             Some prev \<Rightarrow> if now - prev < interval then (False, c)
                          else (True, c\<lparr>sc_last := Some now\<rparr>)
           | None \<Rightarrow> (True, c\<lparr>sc_last := Some now\<rparr>)))"

definition bounded_wait :: "rat \<Rightarrow> datetime option \<Rightarrow> datetime \<Rightarrow> rat" where
  "bounded_wait idle_poll_seconds due_at now =
     (case due_at of
        None \<Rightarrow> idle_poll_seconds
      | Some t \<Rightarrow>
          let remaining = max 0 (of_int (t - now) / of_int second)
          in if remaining = 0 then min idle_poll_seconds (5 / 100)
             else min idle_poll_seconds remaining)"

section \<open>The dispatcher and what it calls\<close>

record 's dispatch_io =
  op_claim :: "nat \<Rightarrow> 's \<Rightarrow> string list result \<times> 's"
  op_release :: "string list \<Rightarrow> 's \<Rightarrow> unit result \<times> 's"
  op_run_sweep :: "'s \<Rightarrow> sweep_result result \<times> 's"
  op_heartbeat :: "('s \<Rightarrow> unit result \<times> 's) option"
  op_next_due :: "('s \<Rightarrow> datetime option result \<times> 's) option"
  op_wait_for_work :: "rat \<Rightarrow> 's \<Rightarrow> bool result \<times> 's"
  op_close :: "'s \<Rightarrow> unit result \<times> 's"
  op_dispatch_fn :: "string \<Rightarrow> 's \<Rightarrow> exn option \<times> 's"
  op_monotonic :: "'s \<Rightarrow> rat \<times> 's"
  op_wall_clock :: "'s \<Rightarrow> datetime \<times> 's"
  op_stop_wait :: "rat \<Rightarrow> 's \<Rightarrow> unit result \<times> 's"
  op_stop_is_set :: "'s \<Rightarrow> bool"

record dispatcher =
  batch_size :: nat
  idle_poll_seconds :: rat
  health :: backoff_state
  db_health :: backoff_state
  d_sweep_clock :: sweep_clock
  d_heartbeat_clock :: sweep_clock
  pending_release :: "string list"

definition dispatcher_init ::
    "int \<Rightarrow> rat \<Rightarrow> rat option \<Rightarrow> rat \<Rightarrow> rat \<Rightarrow> rat \<Rightarrow> rat \<Rightarrow> dispatcher result" where
  "dispatcher_init n idle sweep_interval base cap db_cap heartbeat_interval =
     (if n < 1 then Inl (py_exn ValueErrorC ''batch_size must be >= 1'')
      else Inr \<lparr>batch_size = nat n, idle_poll_seconds = idle,
                health = backoff_init base cap, db_health = backoff_init base db_cap,
                d_sweep_clock = \<lparr>sc_interval = sweep_interval, sc_last = None\<rparr>,
                d_heartbeat_clock = \<lparr>sc_interval = Some heartbeat_interval, sc_last = None\<rparr>,
                pending_release = []\<rparr>)"

abbreviation caught :: "exn \<Rightarrow> bool" where
  "caught e \<equiv> isinstance e [ExceptionC]"

definition db_failure :: "'s dispatch_io \<Rightarrow> dispatcher \<times> 's \<Rightarrow> dispatcher \<times> 's" where
  "db_failure io \<sigma> =
     (let (now, s') = op_monotonic io (snd \<sigma>)
      in ((fst \<sigma>)\<lparr>db_health := note_failure now (db_health (fst \<sigma>))\<rparr>, s'))"

text \<open>\<open>list(dict.fromkeys(xs))\<close>: the first occurrence of every element.\<close>

definition fromkeys :: "string list \<Rightarrow> string list" where
  "fromkeys xs = rev (remdups (rev xs))"

definition release_quietly ::
    "'s dispatch_io \<Rightarrow> string list \<Rightarrow> dispatcher \<times> 's \<Rightarrow> unit result \<times> dispatcher \<times> 's" where
  "release_quietly io task_ids \<sigma> =
     (case op_release io task_ids (snd \<sigma>) of
        (Inr _, s') \<Rightarrow> (Inr (), fst \<sigma>, s')
      | (Inl e, s') \<Rightarrow>
          if caught e
          then (Inr (), db_failure io
                  ((fst \<sigma>)\<lparr>pending_release := fromkeys (pending_release (fst \<sigma>) @ task_ids)\<rparr>, s'))
          else (Inl e, fst \<sigma>, s'))"

definition retry_pending_release ::
    "'s dispatch_io \<Rightarrow> dispatcher \<times> 's \<Rightarrow> bool result \<times> dispatcher \<times> 's" where
  "retry_pending_release io \<sigma> =
     (if pending_release (fst \<sigma>) = [] then (Inr True, \<sigma>)
      else
        let task_ids = pending_release (fst \<sigma>);
            d = (fst \<sigma>)\<lparr>pending_release := []\<rparr>
        in case op_release io task_ids (snd \<sigma>) of
             (Inl e, s') \<Rightarrow>
               if caught e
               then (Inr False, db_failure io (d\<lparr>pending_release := task_ids\<rparr>, s'))
               else (Inl e, d, s')
           | (Inr _, s') \<Rightarrow>
               (Inr True, d\<lparr>db_health := note_success (db_health d)\<rparr>, s'))"

text \<open>
  The loop over a claimed batch: all sent, an \<open>Exception\<close> at an index, or an exception the
  loop does not catch.
\<close>

datatype send_outcome = AllSent | SendFailed nat | SendEscaped exn

fun send_ids :: "'s dispatch_io \<Rightarrow> string list \<Rightarrow> nat \<Rightarrow> 's \<Rightarrow> send_outcome \<times> 's" where
  "send_ids io [] n s = (AllSent, s)"
| "send_ids io (task_id # ids) n s =
     (case op_dispatch_fn io task_id s of
        (None, s') \<Rightarrow> send_ids io ids (Suc n) s'
      | (Some e, s') \<Rightarrow> if caught e then (SendFailed n, s') else (SendEscaped e, s'))"

definition dispatch_batch ::
    "'s dispatch_io \<Rightarrow> dispatcher \<times> 's \<Rightarrow> nat result \<times> dispatcher \<times> 's" where
  "dispatch_batch io \<sigma> =
     (let d = fst \<sigma> in
      case op_claim io (batch_size d) (snd \<sigma>) of
        (Inl e, s1) \<Rightarrow> (Inl e, d, s1)
      | (Inr task_ids, s1) \<Rightarrow>
          if task_ids = [] then (Inr 0, d\<lparr>health := note_success (health d)\<rparr>, s1)
          else
            case send_ids io task_ids 0 s1 of
              (AllSent, s2) \<Rightarrow>
                (Inr (length task_ids), d\<lparr>health := note_success (health d)\<rparr>, s2)
            | (SendEscaped e, s2) \<Rightarrow> (Inl e, d, s2)
            | (SendFailed index, s2) \<Rightarrow>
                (case release_quietly io (drop index task_ids) (d, s2) of
                   (Inl e, d', s3) \<Rightarrow> (Inl e, d', s3)
                 | (Inr _, d', s3) \<Rightarrow>
                     let (now, s4) = op_monotonic io s3
                     in (Inr index, d'\<lparr>health := note_failure now (health d')\<rparr>, s4)))"

text \<open>\<open>due()\<close> reads the clock only when there is an interval.\<close>

definition read_due :: "'s dispatch_io \<Rightarrow> sweep_clock \<Rightarrow> 's \<Rightarrow> bool \<times> sweep_clock \<times> 's" where
  "read_due io c s =
     (case sc_interval c of
        None \<Rightarrow> (False, c, s)
      | Some _ \<Rightarrow> let (now, s') = op_monotonic io s; (due, c') = clock_due now c
                  in (due, c', s'))"

definition maybe_sweep ::
    "'s dispatch_io \<Rightarrow> dispatcher \<times> 's \<Rightarrow> sweep_result option result \<times> dispatcher \<times> 's" where
  "maybe_sweep io \<sigma> =
     (let (due, c, s) = read_due io (d_sweep_clock (fst \<sigma>)) (snd \<sigma>);
          d = (fst \<sigma>)\<lparr>d_sweep_clock := c\<rparr>
      in if \<not> due then (Inr None, d, s)
         else case op_run_sweep io s of
                (Inl e, s') \<Rightarrow> if caught e then (Inr None, d, s') else (Inl e, d, s')
              | (Inr result, s') \<Rightarrow> (Inr (Some result), d, s'))"

definition maybe_heartbeat ::
    "'s dispatch_io \<Rightarrow> dispatcher \<times> 's \<Rightarrow> bool result \<times> dispatcher \<times> 's" where
  "maybe_heartbeat io \<sigma> =
     (let (due, c, s) = read_due io (d_heartbeat_clock (fst \<sigma>)) (snd \<sigma>);
          d = (fst \<sigma>)\<lparr>d_heartbeat_clock := c\<rparr>
      in if \<not> due then (Inr False, d, s)
         else case op_heartbeat io of
                None \<Rightarrow> (Inr False, d, s)
              | Some beat \<Rightarrow>
                  (case beat s of
                     (Inl e, s') \<Rightarrow> if caught e then (Inr False, d, s') else (Inl e, d, s')
                   | (Inr _, s') \<Rightarrow> (Inr True, d, s')))"

section \<open>The loop\<close>

text \<open>
  One pass is the retry of a stranded release, the body of the \<open>try\<close> block, the handling of
  its exception, and the pacing.
\<close>

definition try_body ::
    "'s dispatch_io \<Rightarrow> bool \<Rightarrow> dispatcher \<times> 's \<Rightarrow> (nat \<times> rat) result \<times> dispatcher \<times> 's" where
  "try_body io release_ready \<sigma> =
     (case maybe_heartbeat io \<sigma> of
        (Inl e, \<sigma>1) \<Rightarrow> (Inl e, \<sigma>1)
      | (Inr _, \<sigma>1) \<Rightarrow>
          (case maybe_sweep io \<sigma>1 of
             (Inl e, \<sigma>2) \<Rightarrow> (Inl e, \<sigma>2)
           | (Inr _, \<sigma>2) \<Rightarrow>
               (case (if \<not> release_ready then (Inr 0, \<sigma>2) else dispatch_batch io \<sigma>2) of
                  (Inl e, \<sigma>3) \<Rightarrow> (Inl e, \<sigma>3)
                | (Inr dispatched, \<sigma>3) \<Rightarrow>
                    (case (case op_next_due io of
                             None \<Rightarrow> (Inr None, snd \<sigma>3) | Some f \<Rightarrow> f (snd \<sigma>3)) of
                       (Inl e, s) \<Rightarrow> (Inl e, fst \<sigma>3, s)
                     | (Inr due, s) \<Rightarrow>
                         let (now, s') = op_wall_clock io s
                         in (Inr (dispatched,
                                  bounded_wait (idle_poll_seconds (fst \<sigma>3)) due now),
                             fst \<sigma>3, s')))))"

definition guarded_body ::
    "'s dispatch_io \<Rightarrow> bool \<Rightarrow> dispatcher \<times> 's \<Rightarrow> (nat \<times> rat) result \<times> dispatcher \<times> 's" where
  "guarded_body io release_ready \<sigma> =
     (case try_body io release_ready \<sigma> of
        (Inl e, \<sigma>') \<Rightarrow>
          if caught e then (Inr (0, idle_poll_seconds (fst \<sigma>')), db_failure io \<sigma>')
          else (Inl e, \<sigma>')
      | (Inr r, \<sigma>') \<Rightarrow>
          (Inr r, if pending_release (fst \<sigma>') = []
                  then ((fst \<sigma>')\<lparr>db_health := note_success (db_health (fst \<sigma>'))\<rparr>, snd \<sigma>')
                  else \<sigma>'))"

definition read_remaining :: "'s dispatch_io \<Rightarrow> backoff_state \<Rightarrow> 's \<Rightarrow> rat \<times> 's" where
  "read_remaining io b s =
     (if bk_delay b = 0 then (0, s)
      else let (now, s') = op_monotonic io s in (remaining_delay now b, s'))"

definition pace ::
    "'s dispatch_io \<Rightarrow> nat \<Rightarrow> rat \<Rightarrow> dispatcher \<times> 's \<Rightarrow> unit result \<times> dispatcher \<times> 's" where
  "pace io dispatched wait_timeout \<sigma> =
     (let d = fst \<sigma>;
          (r1, s1) = read_remaining io (health d) (snd \<sigma>);
          (r2, s2) = read_remaining io (db_health d) s1;
          delay = max r1 r2
      in if delay \<noteq> 0
         then (case op_stop_wait io delay s2 of
                 (Inl e, s3) \<Rightarrow> (Inl e, d, s3)
               | (Inr _, s3) \<Rightarrow> (Inr (), d, s3))
         else if dispatched \<ge> batch_size d then (Inr (), d, s2)
         else case op_wait_for_work io wait_timeout s2 of
                (Inl e, s3) \<Rightarrow> (Inl e, d, s3)
              | (Inr _, s3) \<Rightarrow> (Inr (), d, s3))"

definition iterate :: "'s dispatch_io \<Rightarrow> dispatcher \<times> 's \<Rightarrow> unit result \<times> dispatcher \<times> 's" where
  "iterate io \<sigma> =
     (case retry_pending_release io \<sigma> of
        (Inl e, \<sigma>1) \<Rightarrow> (Inl e, \<sigma>1)
      | (Inr release_ready, \<sigma>1) \<Rightarrow>
          (case guarded_body io release_ready \<sigma>1 of
             (Inl e, \<sigma>2) \<Rightarrow> (Inl e, \<sigma>2)
           | (Inr (dispatched, wait_timeout), \<sigma>2) \<Rightarrow> pace io dispatched wait_timeout \<sigma>2))"

text \<open>\<open>run(max_iterations=n)\<close>, up to the \<open>finally\<close> clause.\<close>

fun loop_bounded :: "'s dispatch_io \<Rightarrow> nat \<Rightarrow> dispatcher \<times> 's \<Rightarrow> unit result \<times> dispatcher \<times> 's" where
  "loop_bounded io 0 \<sigma> = (Inr (), \<sigma>)"
| "loop_bounded io (Suc n) \<sigma> =
     (if op_stop_is_set io (snd \<sigma>) then (Inr (), \<sigma>)
      else case iterate io \<sigma> of
             (Inl e, \<sigma>') \<Rightarrow> (Inl e, \<sigma>')
           | (Inr _, \<sigma>') \<Rightarrow> loop_bounded io n \<sigma>')"

text \<open>Without a bound the loop may run forever: then it has no value.\<close>

partial_function (option) loop_unbounded ::
    "'s dispatch_io \<Rightarrow> dispatcher \<times> 's \<Rightarrow> (unit result \<times> dispatcher \<times> 's) option" where
  "loop_unbounded io \<sigma> =
     (if op_stop_is_set io (snd \<sigma>) then Some (Inr (), \<sigma>)
      else case iterate io \<sigma> of
             (Inl e, \<sigma>') \<Rightarrow> Some (Inl e, \<sigma>')
           | (Inr _, \<sigma>') \<Rightarrow> loop_unbounded io \<sigma>')"

definition finally_close ::
    "'s dispatch_io \<Rightarrow> unit result \<times> dispatcher \<times> 's \<Rightarrow> unit result \<times> dispatcher \<times> 's" where
  "finally_close io r =
     (case op_close io (snd (snd r)) of
        (Inl e, s) \<Rightarrow> (Inl e, fst (snd r), s)
      | (Inr _, s) \<Rightarrow> (fst r, fst (snd r), s))"

definition run ::
    "'s dispatch_io \<Rightarrow> nat option \<Rightarrow> dispatcher \<times> 's
     \<Rightarrow> (unit result \<times> dispatcher \<times> 's) option" where
  "run io max_iterations \<sigma> =
     (case max_iterations of
        Some n \<Rightarrow> Some (finally_close io (loop_bounded io n \<sigma>))
      | None \<Rightarrow> map_option (finally_close io) (loop_unbounded io \<sigma>))"

section \<open>Facts about the pacing\<close>

lemma bounded_wait_le: "bounded_wait idle due now \<le> idle"
  by (auto simp: bounded_wait_def Let_def split: option.split)

lemma bounded_wait_pos: "0 < idle \<Longrightarrow> 0 < bounded_wait idle due now"
  by (auto simp: bounded_wait_def Let_def max_def split: option.split)

lemma bounded_wait_due:
  "bounded_wait idle (Some t) now \<le> max (1 / 20) (of_int (t - now) / of_int second)"
  by (auto simp: bounded_wait_def Let_def)

text \<open>The delay after \<open>n\<close> failures in a row.\<close>

definition fail_times :: "rat list \<Rightarrow> backoff_state \<Rightarrow> backoff_state" where
  "fail_times nows b = fold note_failure nows b"

lemma note_failure_keeps [simp]:
  "bk_base (note_failure now b) = bk_base b" "bk_cap (note_failure now b) = bk_cap b"
  by (simp_all add: note_failure_def Let_def)

lemma note_failure_first: "bk_delay b = 0 \<Longrightarrow> bk_delay (note_failure now b) = bk_base b"
  by (simp add: note_failure_def Let_def)

lemma note_failure_next:
  "bk_delay b \<noteq> 0 \<Longrightarrow> bk_delay (note_failure now b) = min (bk_delay b * 2) (bk_cap b)"
  by (simp add: note_failure_def Let_def)

lemma fail_times_delay:
  assumes "bk_delay b = min (bk_base b * 2 ^ k) (bk_cap b)" and "0 < bk_base b" and "0 < bk_cap b"
  shows "bk_delay (fail_times nows b) = min (bk_base b * 2 ^ (k + length nows)) (bk_cap b)"
  using assms
proof (induction nows arbitrary: b k)
  case Nil
  then show ?case by (simp add: fail_times_def)
next
  case (Cons now nows)
  have "0 < bk_delay b" using Cons.prems by simp
  then have "bk_delay (note_failure now b) = min (bk_base b * 2 ^ Suc k) (bk_cap b)"
    using Cons.prems by (auto simp: note_failure_next min_def)
  then have "bk_delay (fail_times nows (note_failure now b))
      = min (bk_base b * 2 ^ (Suc k + length nows)) (bk_cap b)"
    using Cons.IH [of "note_failure now b" "Suc k"] Cons.prems by simp
  then show ?case by (simp add: fail_times_def)
qed

lemma remaining_delay_le: "0 < bk_delay b \<Longrightarrow> bk_retry_at b = start + bk_delay b \<Longrightarrow>
    start \<le> now \<Longrightarrow> remaining_delay now b \<le> bk_delay b"
  by (auto simp: remaining_delay_def)

lemma clock_due_spacing:
  assumes "clock_due now c = (True, c')" and "sc_interval c = Some n" and "sc_last c = Some prev"
  shows "prev + n \<le> now"
  using assms by (auto simp: clock_due_def split: if_splits)

lemma set_fromkeys [simp]: "set (fromkeys xs) = set xs"
  by (simp add: fromkeys_def)

lemma distinct_fromkeys [simp]: "distinct (fromkeys xs)"
  by (simp add: fromkeys_def)

lemma fromkeys_id: "distinct xs \<Longrightarrow> fromkeys xs = xs"
  by (simp add: fromkeys_def distinct_remdups_id)

text \<open>
  A run without a bound returns as soon as some number of passes ends with the stop event
  set, and then it is the bounded run.
\<close>

lemma loop_unbounded_stops:
  assumes "loop_bounded io n \<sigma> = (r, \<sigma>')" and "op_stop_is_set io (snd \<sigma>') \<or> (\<exists>e. r = Inl e)"
  shows "loop_unbounded io \<sigma> = Some (r, \<sigma>')"
  using assms
proof (induction n arbitrary: \<sigma>)
  case 0
  then show ?case by (auto simp: loop_unbounded.simps)
next
  case (Suc n)
  then show ?case
    by (subst loop_unbounded.simps) (auto split: if_splits prod.splits sum.splits)
qed

end
