(* ===== verification/Recovery_Properties.thy ===== *)
theory Recovery_Properties
  imports Claim_Properties Dispatcher
begin

text \<open>
  Properties of the recovery sweep, the wake time and the release of claims of the SQLAlchemy
  integration.
\<close>

section \<open>The recovery passes\<close>

text \<open>
  What a recovery pass does to a row it selected: \<open>st\<close> is the status the pass recovers from,
  \<open>clear\<close> what it resets beside the status.
\<close>

definition recovered_row ::
    "task_status \<Rightarrow> (task_row \<Rightarrow> task_row) \<Rightarrow> clock \<Rightarrow> string list \<Rightarrow> task_row \<Rightarrow> task_row" where
  "recovered_row st clear clk ids r =
     (if row_id r \<in> set ids \<and> status r = st
      then if attempts r < max_attempts r
           then (clear (r\<lparr>status := PENDING\<rparr>))\<lparr>updated_at := clk 1\<rparr>
           else (clear (r\<lparr>status := DEAD\<rparr>))\<lparr>updated_at := clk 2\<rparr>
      else r)"

definition retried :: "task_status \<Rightarrow> string list \<Rightarrow> ledger \<Rightarrow> task_row list" where
  "retried st ids db =
     filter (\<lambda>r. row_id r \<in> set ids \<and> status r = st \<and> attempts r < max_attempts r) db"

definition wakeups :: "bool \<Rightarrow> task_row list \<Rightarrow> notification list" where
  "wakeups is_pg rows =
     (if is_pg then map (\<lambda>r. task_notification (row_id r) (queue r)) rows else [])"

lemma two_updates_map:
  assumes "\<And>r. A r \<Longrightarrow> \<not> B (f r)"
  shows "update_where B g (update_where A f db)
    = map (\<lambda>r. if A r then f r else if B r then g r else r) db"
  using assms by (simp add: update_where_def)

lemma recovered_none: "map (recovered_row st clear clk []) db = db"
  by (simp add: recovered_row_def map_idI)

lemma pass_equation:
  assumes "\<And>r. status (f r) \<noteq> st"
    and "\<And>r. f r = (clear (r\<lparr>status := PENDING\<rparr>))\<lparr>updated_at := clk 1\<rparr>"
    and "\<And>r. g r = (clear (r\<lparr>status := DEAD\<rparr>))\<lparr>updated_at := clk 2\<rparr>"
  shows "update_where (\<lambda>r. row_id r \<in> set T \<and> status r = st \<and> attempts r \<ge> max_attempts r) g
      (update_where (\<lambda>r. row_id r \<in> set T \<and> status r = st \<and> attempts r < max_attempts r) f db)
    = map (recovered_row st clear clk T) db"
proof -
  have "\<not> (row_id (f r) \<in> set T \<and> status (f r) = st \<and> attempts (f r) \<ge> max_attempts (f r))" for r
    using assms(1) by blast
  then have "update_where (\<lambda>r. row_id r \<in> set T \<and> status r = st \<and> attempts r \<ge> max_attempts r) g
      (update_where (\<lambda>r. row_id r \<in> set T \<and> status r = st \<and> attempts r < max_attempts r) f db)
    = map (\<lambda>r. if row_id r \<in> set T \<and> status r = st \<and> attempts r < max_attempts r then f r
        else if row_id r \<in> set T \<and> status r = st \<and> attempts r \<ge> max_attempts r then g r else r) db"
    by (rule two_updates_map)
  then show ?thesis by (auto simp: recovered_row_def assms(2,3) simp del: One_nat_def)
qed

lemma sweep_failed_eq:
  "sweep_failed is_pg clk alone limit t =
    (let ids = select_ids (\<lambda>r. status r = FAILED \<and> sql_le (scheduled_for r) (clk 0))
           (\<lambda>r. nulls_last (scheduled_for r)) limit (working t);
         rows = retried FAILED ids (working t)
     in (map row_id rows, t\<lparr>working := map (recovered_row FAILED (\<lambda>r. r) clk ids) (working t),
          queued := queued t @ wakeups is_pg rows\<rparr>))"
  by (simp add: sweep_failed_def Let_def update_returning_def recovered_none retried_def
      wakeups_def notify_rows_eq comp_def pass_equation [where clear = "\<lambda>r. r"] del: One_nat_def)

lemma sweep_stuck_eq:
  "sweep_stuck is_pg clk alone m limit t =
    (let ids = select_ids (\<lambda>r. status r = PROCESSING \<and> sql_lt (started_at r) (clk 0 - m * minute))
           (\<lambda>r. nulls_last (started_at r)) limit (working t);
         rows = retried PROCESSING ids (working t)
     in (map row_id rows, t\<lparr>working := map (recovered_row PROCESSING (\<lambda>r. r) clk ids) (working t),
          queued := queued t @ wakeups is_pg rows\<rparr>))"
  by (simp add: sweep_stuck_def Let_def update_returning_def recovered_none retried_def
      wakeups_def notify_rows_eq comp_def pass_equation [where clear = "\<lambda>r. r"] del: One_nat_def)

lemma sweep_dispatching_eq:
  "sweep_dispatching is_pg clk alone d limit t =
    (let ids = select_ids (\<lambda>r. status r = DISPATCHING \<and> sql_lt (dispatching_at r) (clk 0 - d * second))
           (\<lambda>r. nulls_last (dispatching_at r)) limit (working t);
         rows = retried DISPATCHING ids (working t)
     in (map row_id rows,
         t\<lparr>working := map (recovered_row DISPATCHING (\<lambda>r. r\<lparr>dispatching_at := None\<rparr>) clk ids) (working t),
           queued := queued t @ wakeups is_pg rows\<rparr>))"
  by (simp add: sweep_dispatching_def Let_def update_returning_def recovered_none retried_def
      wakeups_def notify_rows_eq comp_def pass_equation [where clear = "\<lambda>r. r\<lparr>dispatching_at := None\<rparr>"]
      del: One_nat_def)

text \<open>
  C11. The recovery passes, as functions of the table: each selects its oldest overdue rows (failed
  rows due for retry; claims nobody started within the timeout; handlers running longer
  than the threshold), up to the limit; a selected row with attempts left becomes \<open>PENDING\<close>, is
  returned and, on PostgreSQL, announced, one without is dead-lettered; no other row changes.
\<close>

theorem recovery_specification:
  "sweep_failed is_pg clk alone limit t =
    (let ids = select_ids (\<lambda>r. status r = FAILED \<and> sql_le (scheduled_for r) (clk 0))
           (\<lambda>r. nulls_last (scheduled_for r)) limit (working t);
         rows = retried FAILED ids (working t)
     in (map row_id rows, t\<lparr>working := map (recovered_row FAILED (\<lambda>r. r) clk ids) (working t),
          queued := queued t @ wakeups is_pg rows\<rparr>)) \<and>
   sweep_dispatching is_pg clk alone d limit t =
    (let ids = select_ids (\<lambda>r. status r = DISPATCHING \<and> sql_lt (dispatching_at r) (clk 0 - d * second))
           (\<lambda>r. nulls_last (dispatching_at r)) limit (working t);
         rows = retried DISPATCHING ids (working t)
     in (map row_id rows,
         t\<lparr>working := map (recovered_row DISPATCHING (\<lambda>r. r\<lparr>dispatching_at := None\<rparr>) clk ids) (working t),
           queued := queued t @ wakeups is_pg rows\<rparr>)) \<and>
   sweep_stuck is_pg clk alone m limit t =
    (let ids = select_ids (\<lambda>r. status r = PROCESSING \<and> sql_lt (started_at r) (clk 0 - m * minute))
           (\<lambda>r. nulls_last (started_at r)) limit (working t);
         rows = retried PROCESSING ids (working t)
     in (map row_id rows, t\<lparr>working := map (recovered_row PROCESSING (\<lambda>r. r) clk ids) (working t),
          queued := queued t @ wakeups is_pg rows\<rparr>))"
  using sweep_failed_eq sweep_dispatching_eq sweep_stuck_eq by blast




section \<open>A sweep as a whole\<close>

definition available :: "string \<Rightarrow> ledger \<Rightarrow> bool" where
  "available i db = (\<exists>r \<in> set db. row_id r = i \<and> status r = PENDING)"

definition settled :: "string \<Rightarrow> ledger \<Rightarrow> bool" where
  "settled i db = (\<exists>r \<in> set db. row_id r = i \<and> status r \<in> {PENDING, EXPIRED})"

lemma available_settled: "available i db \<Longrightarrow> settled i db"
  by (auto simp: available_def settled_def)

text \<open>\<open>clear\<close> resets other columns only.\<close>

abbreviation harmless :: "(task_row \<Rightarrow> task_row) \<Rightarrow> bool" where
  "harmless clear \<equiv> (\<forall>r. row_id (clear r) = row_id r \<and> status (clear r) = status r)"

lemma pass_ids: "harmless clear \<Longrightarrow> map row_id (map (recovered_row st clear clk ids) db) = map row_id db"
  by (simp add: recovered_row_def)

lemma pass_makes_available:
  "harmless clear \<Longrightarrow> i \<in> set (map row_id (retried st ids db)) \<Longrightarrow>
   available i (map (recovered_row st clear clk ids) db)"
proof -
  assume h: "harmless clear" and "i \<in> set (map row_id (retried st ids db))"
  then obtain r where r: "r \<in> set db" "row_id r = i" "row_id r \<in> set ids" "status r = st"
    "attempts r < max_attempts r" by (auto simp: retried_def)
  have "recovered_row st clear clk ids r \<in> set (map (recovered_row st clear clk ids) db)"
    using r(1) by simp
  moreover have "row_id (recovered_row st clear clk ids r) = i"
    "status (recovered_row st clear clk ids r) = PENDING"
    using r h by (simp_all add: recovered_row_def)
  ultimately show ?thesis unfolding available_def by blast
qed

lemma pass_keeps_available:
  "st \<noteq> PENDING \<Longrightarrow> available i db \<Longrightarrow> available i (map (recovered_row st clear clk ids) db)"
  by (force simp: available_def recovered_row_def)

lemma pass_keeps_settled:
  assumes "st \<notin> {PENDING, EXPIRED}" and "settled i db"
  shows "settled i (map (recovered_row st clear clk ids) db)"
proof -
  obtain r where r: "r \<in> set db" "row_id r = i" "status r \<in> {PENDING, EXPIRED}"
    using assms(2) by (auto simp: settled_def)
  then have "recovered_row st clear clk ids r = r" using assms(1) by (auto simp: recovered_row_def)
  then have "r \<in> set (map (recovered_row st clear clk ids) db)" using r(1) by force
  then show ?thesis using r unfolding settled_def by blast
qed

lemma retried_not_settled:
  assumes "distinct (map row_id db)" and "st \<notin> {PENDING, EXPIRED}"
    and "i \<in> set (map row_id (retried st ids db))"
  shows "\<not> settled i db"
proof
  assume "settled i db"
  then obtain s where s: "s \<in> set db" "row_id s = i" "status s \<in> {PENDING, EXPIRED}"
    by (auto simp: settled_def)
  obtain r where r: "r \<in> set db" "row_id r = i" "status r = st"
    using assms(3) by (auto simp: retried_def)
  have "r = s" using assms(1) r(1,2) s(1,2) by (metis find_row_unique option.inject)
  then show False using r s assms(2) by auto
qed

lemma retried_distinct: "distinct (map row_id db) \<Longrightarrow> distinct (map row_id (retried st ids db))"
  unfolding retried_def by (rule distinct_map_filter)

lemma wakeup_ids: "map n_id (wakeups is_pg rows) = (if is_pg then map row_id rows else [])"
  by (simp add: wakeups_def task_notification_def comp_def)

text \<open>One recovery pass, by its effect on availability and notifications.\<close>

definition recovers ::
    "bool \<Rightarrow> transaction \<Rightarrow> string list \<Rightarrow> transaction \<Rightarrow> bool" where
  "recovers is_pg t ids t' =
     (map row_id (working t') = map row_id (working t) \<and> distinct ids \<and>
      (\<forall>i \<in> set ids. \<not> settled i (working t) \<and> available i (working t')) \<and>
      (\<forall>i. settled i (working t) \<longrightarrow> settled i (working t')) \<and>
      (\<forall>i. available i (working t) \<longrightarrow> available i (working t')) \<and>
      (\<exists>ns. queued t' = queued t @ ns \<and> map n_id ns = (if is_pg then ids else [])))"

lemma recovers_pass:
  assumes "distinct (map row_id (working t))" and "harmless clear" and "st \<notin> {PENDING, EXPIRED}"
  shows "recovers is_pg t (map row_id (retried st ids (working t)))
    (t\<lparr>working := map (recovered_row st clear clk ids) (working t),
       queued := queued t @ wakeups is_pg (retried st ids (working t))\<rparr>)"
  unfolding recovers_def
  using pass_ids [OF assms(2), of st clk ids "working t"] retried_distinct [OF assms(1)]
    pass_makes_available [OF assms(2)] retried_not_settled [OF assms(1,3)]
    pass_keeps_available [of st] pass_keeps_settled [OF assms(3)] assms(3) wakeup_ids [of is_pg "retried st ids (working t)"]
  by auto

lemma passes_recover:
  assumes "distinct (map row_id (working t))"
  shows "recovers is_pg t (fst (sweep_failed is_pg clk alone n t)) (snd (sweep_failed is_pg clk alone n t))"
    and "recovers is_pg t (fst (sweep_dispatching is_pg clk alone d n t))
      (snd (sweep_dispatching is_pg clk alone d n t))"
    and "recovers is_pg t (fst (sweep_stuck is_pg clk alone m n t)) (snd (sweep_stuck is_pg clk alone m n t))"
  unfolding sweep_failed_eq sweep_dispatching_eq sweep_stuck_eq Let_def fst_conv snd_conv
  by (rule recovers_pass [OF assms]; simp)+

lemma recovers_trans:
  assumes "recovers is_pg t1 a t2" and "recovers is_pg t2 b t3"
  shows "recovers is_pg t1 (a @ b) t3"
proof -
  have "set a \<inter> set b = {}" using assms available_settled by (auto simp: recovers_def)
  moreover obtain ns ms where "queued t3 = queued t1 @ (ns @ ms)"
    "map n_id (ns @ ms) = (if is_pg then a @ b else [])"
    using assms unfolding recovers_def by auto
  ultimately show ?thesis using assms unfolding recovers_def by (auto simp del: map_append)
qed

lemma settled_expire:
  assumes "settled i db" and "\<And>r. row_id (f r) = row_id r \<and> status (f r) = EXPIRED"
  shows "settled i (update_where P f db)"
proof -
  obtain r where r: "r \<in> set db" "row_id r = i" "status r \<in> {PENDING, EXPIRED}"
    using assms(1) by (auto simp: settled_def)
  have "(if P r then f r else r) \<in> set (update_where P f db)"
    using r(1) by (auto simp: update_where_def)
  then show ?thesis using r assms(2) unfolding settled_def by (metis insert_iff)
qed

lemma passes_delivered:
  "delivered (snd (sweep_expired clk locked alone n t)) = delivered t"
  "delivered (snd (sweep_failed is_pg clk alone n t)) = delivered t"
  "delivered (snd (sweep_dispatching is_pg clk alone d n t)) = delivered t"
  "delivered (snd (sweep_stuck is_pg clk alone m n t)) = delivered t"
  by (simp_all add: sweep_expired_def sweep_failed_eq sweep_dispatching_eq sweep_stuck_eq Let_def
      update_returning_def)

text \<open>The expiry pass makes nothing available and announces nothing.\<close>

lemma sweep_expired_silent:
  "queued (snd (sweep_expired clk locked alone n t)) = queued t \<and>
   map row_id (working (snd (sweep_expired clk locked alone n t))) = map row_id (working t) \<and>
   (available i (working t) \<longrightarrow> settled i (working (snd (sweep_expired clk locked alone n t))))"
  by (auto simp: sweep_expired_def Let_def update_returning_def
      intro: available_settled settled_expire)

text \<open>
  A recovery sweep reports and announces exactly what it made available: the identifiers it lists
  under \<open>failed\<close>, \<open>dispatching\<close> and \<open>stuck\<close> are distinct, none was \<open>PENDING\<close> before and each is \<open>PENDING\<close>
  afterwards, and the commit delivers one notification for each of them, in that order, on PostgreSQL
  and none elsewhere.
\<close>

lemma sweep_announces:
  assumes "ledger_wf db"
  shows "\<exists>expired failed dispatching stuck notes.
    fst (run_sweep b clk locked (\<lambda>_. alone) db sent) =
      [(''expired'', expired), (''failed'', failed), (''dispatching'', dispatching), (''stuck'', stuck)] \<and>
    snd (snd (run_sweep b clk locked (\<lambda>_. alone) db sent)) = sent @ notes \<and>
    map n_id notes = (if b_postgresql b then failed @ dispatching @ stuck else []) \<and>
    distinct (failed @ dispatching @ stuck) \<and>
    (\<forall>i \<in> set (failed @ dispatching @ stuck).
       \<not> available i db \<and> available i (fst (snd (run_sweep b clk locked (\<lambda>_. alone) db sent))))"
proof -
  let ?n = "b_sweep_limit b" let ?t0 = "begin_transaction db sent"
  obtain e t1 where t1: "sweep_expired (clk 0) locked alone ?n ?t0 = (e, t1)" by (metis surj_pair)
  obtain f t2 where t2: "sweep_failed (b_postgresql b) (clk 1) alone ?n t1 = (f, t2)" by (metis surj_pair)
  obtain p t3 where t3: "sweep_dispatching (b_postgresql b) (clk 2) alone
    (b_dispatch_timeout_seconds b) ?n t2 = (p, t3)" by (metis surj_pair)
  obtain s t4 where t4: "sweep_stuck (b_postgresql b) (clk 3) alone
    (b_stuck_threshold_minutes b) ?n t3 = (s, t4)" by (metis surj_pair)
  have one: "queued t1 = []" "map row_id (working t1) = map row_id db"
    "available i db \<Longrightarrow> settled i (working t1)" for i
    using sweep_expired_silent [of "clk 0" locked ?n ?t0] t1 by (auto simp: begin_transaction_def)
  have d1: "distinct (map row_id (working t1))" using ledger_wf_distinct [OF assms] one by simp
  have r1: "recovers (b_postgresql b) t1 f t2" using passes_recover(1) [OF d1] t2 by (metis fst_conv snd_conv)
  have d2: "distinct (map row_id (working t2))" using r1 d1 by (simp add: recovers_def)
  have r2: "recovers (b_postgresql b) t2 p t3" using passes_recover(2) [OF d2] t3 by (metis fst_conv snd_conv)
  have d3: "distinct (map row_id (working t3))" using r2 d2 by (simp add: recovers_def)
  have r3: "recovers (b_postgresql b) t3 s t4" using passes_recover(3) [OF d3] t4 by (metis fst_conv snd_conv)
  have r: "recovers (b_postgresql b) t1 (f @ p @ s) t4"
    using recovers_trans [OF recovers_trans [OF r1 r2] r3] by simp
  have del: "delivered t4 = sent"
    using passes_delivered(1) [of "clk 0" locked ?n ?t0]
      passes_delivered(2) [of "b_postgresql b" "clk 1" ?n t1]
      passes_delivered(3) [of "b_postgresql b" "clk 2" "b_dispatch_timeout_seconds b" ?n t2]
      passes_delivered(4) [of "b_postgresql b" "clk 3" "b_stuck_threshold_minutes b" ?n t3]
    by (simp add: t1 t2 t3 t4 del: One_nat_def)
  have eq: "run_sweep b clk locked (\<lambda>_. alone) db sent =
      ([(''expired'', e), (''failed'', f), (''dispatching'', p), (''stuck'', s)], working t4,
        sent @ queued t4)"
    by (simp add: run_sweep_def sweep_def t1 t2 t3 t4 commit_def del del: One_nat_def)
  obtain ns where "queued t4 = ns" "map n_id ns = (if b_postgresql b then f @ p @ s else [])"
    using r one(1) by (auto simp: recovers_def)
  then show ?thesis
    unfolding eq using r one(3) by (auto simp: recovers_def)
qed

section \<open>The wake time\<close>

text \<open>The rows that will become claimable by themselves.\<close>

abbreviation waiting :: "backend \<Rightarrow> task_row \<Rightarrow> bool" where
  "waiting b r \<equiv> scheduled_for r \<noteq> None \<and>
     (status r = PENDING \<or> (status r = FAILED \<and> attempts r < max_attempts r)) \<and>
     in_queues (b_queues b) r"

text \<open>When the dispatcher has to look at a waiting row: its schedule, or its deadline if that is earlier.\<close>

definition wakes_at :: "task_row \<Rightarrow> datetime" where
  "wakes_at r = (case expires_at r of
     None \<Rightarrow> the (scheduled_for r) | Some e \<Rightarrow> min e (the (scheduled_for r)))"

lemma wake_at_waiting: "scheduled_for r \<noteq> None \<Longrightarrow> wake_at r = Some (wakes_at r)"
  by (auto simp: wake_at_def wakes_at_def min_def split: option.split)

lemma next_due_eq:
  "next_due b now db =
     (let wakes = wakes_at ` {r \<in> set db. waiting b r}
      in if wakes = {} then None else Some (max now (Min wakes)))"
proof -
  let ?L = "filter (waiting b) db"
  have "List.map_filter wake_at ?L = map wakes_at ?L"
    by (induction db) (auto simp: wake_at_waiting List.map_filter_simps)
  moreover have "set (map wakes_at ?L) = wakes_at ` {r \<in> set db. waiting b r}" by auto
  moreover have "map wakes_at ?L = [] \<longleftrightarrow> wakes_at ` {r \<in> set db. waiting b r} = {}"
    by (auto simp: filter_empty_conv)
  ultimately show ?thesis
    by (simp add: next_due_def Let_def max_def del: set_map)
qed

text \<open>
  C21. The dispatcher never sleeps past scheduled work: with nothing waiting there is no wake time, and
  otherwise it is the earliest schedule or deadline of a waiting row in scope, or now if that has passed;
  so the idle wait computed from it ends by every such row's schedule and deadline, give or take the
  20th of a second that keeps the loop from spinning on a row someone else has locked.
\<close>

theorem never_sleeps_past_schedule:
  "(next_due b now db = None \<longleftrightarrow> (\<forall>r \<in> set db. \<not> waiting b r)) \<and>
   (\<forall>t. next_due b now db = Some t \<longrightarrow>
      now \<le> t \<and> (t = now \<or> (\<exists>r \<in> set db. waiting b r \<and> t = wakes_at r))) \<and>
   (\<forall>r \<in> set db. waiting b r \<longrightarrow>
      bounded_wait idle (next_due b now db) now'
        \<le> max (1 / 20) (of_int (max now (wakes_at r) - now') / of_int second))"
proof (intro conjI ballI allI impI)
  let ?W = "wakes_at ` {r \<in> set db. waiting b r}"
  have fin: "finite ?W" by simp
  show "next_due b now db = None \<longleftrightarrow> (\<forall>r \<in> set db. \<not> waiting b r)"
    by (auto simp: next_due_eq Let_def)
  fix t assume t: "next_due b now db = Some t"
  then have ne: "?W \<noteq> {}" and eq: "t = max now (Min ?W)"
    by (auto simp: next_due_eq Let_def split: if_splits)
  show "now \<le> t" using eq by simp
  have "Min ?W \<in> ?W" using Min_in [OF fin ne] .
  then show "t = now \<or> (\<exists>r \<in> set db. waiting b r \<and> t = wakes_at r)"
    using eq by (auto simp: max_def)
next
  let ?W = "wakes_at ` {r \<in> set db. waiting b r}"
  fix r assume r: "r \<in> set db" "waiting b r"
  then have in_W: "wakes_at r \<in> ?W" by blast
  then have due: "next_due b now db = Some (max now (Min ?W))"
    by (auto simp: next_due_eq Let_def)
  have "Min ?W \<le> wakes_at r" using Min_le [OF _ in_W] by simp
  then have "(of_int (max now (Min ?W) - now') :: rat) \<le> of_int (max now (wakes_at r) - now')"
    by (simp only: of_int_le_iff)
  then have "(of_int (max now (Min ?W) - now') :: rat) / of_int second
      \<le> of_int (max now (wakes_at r) - now') / of_int second"
    by (rule divide_right_mono) simp
  then show "bounded_wait idle (next_due b now db) now'
      \<le> max (1 / 20) (of_int (max now (wakes_at r) - now') / of_int second)"
    unfolding due by (rule order_trans [OF bounded_wait_due max.mono [OF order_refl]])
qed

theorem never_sleeps_past_schedule_witness:
  "next_due sample_backend 500 sample_backlog = Some 900 \<and>
   bounded_wait 5 (next_due sample_backend 500 sample_backlog) 500 \<le> 1 / 20"
proof -
  have c: "next_due sample_backend 500 sample_backlog = Some 900"
    by code_simp
  let ?r = "(sample_row ''c'' FAILED)\<lparr>scheduled_for := Some 900, priority := 2\<rparr>"
  have r: "?r \<in> set sample_backlog" "waiting sample_backend ?r" "wakes_at ?r = 900"
    by (simp_all add: sample_backlog_def sample_row_def sample_backend_def in_queues_def wakes_at_def)
  then have "bounded_wait 5 (next_due sample_backend 500 sample_backlog) 500
      \<le> max (1 / 20) (of_int (max 500 (wakes_at ?r) - 500) / of_int second)"
    using never_sleeps_past_schedule [of sample_backend 500 sample_backlog 5 500] by blast
  also have "\<dots> = 1 / 20" unfolding r by simp
  finally show ?thesis using c by simp
qed

section \<open>Giving claims back\<close>




end
