(* ===== verification/Sa_Queries.thy ===== *)
theory Sa_Queries
  imports Sa_Sweep Heartbeat
begin

text \<open>
  \<open>src/dewey/sqlalchemy/queries.py\<close> with \<open>src/dewey/core/types.py\<close>: the read queries and the
  operator actions.  A query gives snapshots of rows; \<open>env\<close> is what others commit between
  the two statements of \<open>bulk_retry\<close>.
\<close>

section \<open>Snapshots\<close>

record task_entry =
  e_id :: string
  e_task_type :: string
  e_status :: task_status
  e_args :: "json list"
  e_kwargs :: "(string \<times> json) list"
  e_queue :: string
  e_priority :: int
  e_attempts :: int
  e_max_attempts :: int
  e_error :: string
  e_created_at :: datetime
  e_updated_at :: datetime
  e_scheduled_for :: "datetime option"
  e_dispatching_at :: "datetime option"
  e_started_at :: "datetime option"
  e_completed_at :: "datetime option"
  e_idempotency_key :: "string option"
  e_metadata :: "(string \<times> json) list"
  e_expires_at :: "datetime option"
  e_initial_scheduled_for :: "datetime option"
  e_expired_at :: "datetime option"

definition entry_is_terminal :: "task_entry \<Rightarrow> bool" where
  "entry_is_terminal e = is_terminal (e_status e)"

definition entry_is_retryable :: "task_entry \<Rightarrow> bool" where
  "entry_is_retryable e = (e_status e = FAILED \<and> e_attempts e < e_max_attempts e)"

definition to_dataclass :: "task_row \<Rightarrow> task_entry" where
  "to_dataclass r =
     \<lparr>e_id = row_id r, e_task_type = task_type r, e_status = status r, e_args = args r,
      e_kwargs = kwargs r, e_queue = queue r, e_priority = priority r, e_attempts = attempts r,
      e_max_attempts = max_attempts r, e_error = error r, e_created_at = created_at r,
      e_updated_at = updated_at r, e_scheduled_for = scheduled_for r,
      e_dispatching_at = dispatching_at r, e_started_at = started_at r,
      e_completed_at = completed_at r, e_idempotency_key = idempotency_key r,
      e_metadata = task_metadata r, e_expires_at = expires_at r,
      e_initial_scheduled_for = initial_scheduled_for r, e_expired_at = expired_at r\<rparr>"

section \<open>Queries\<close>

text \<open>\<open>if task_type: ... where(task_type == ...)\<close>: an empty string filters nothing.\<close>

definition of_type :: "string option \<Rightarrow> task_row \<Rightarrow> bool" where
  "of_type ty r = (case ty of None \<Rightarrow> True | Some s \<Rightarrow> s = [] \<or> task_type r = s)"

definition select_entries ::
    "(task_row \<Rightarrow> bool) \<Rightarrow> (task_row \<Rightarrow> 'k::linorder) \<Rightarrow> nat \<Rightarrow> ledger \<Rightarrow> task_entry list" where
  "select_entries P k limit db = map to_dataclass (order_limit k limit (filter P db))"

definition get_dispatchers ::
    "string option \<Rightarrow> string list option \<Rightarrow> pyfloat \<Rightarrow> datetime \<Rightarrow> heartbeats
     \<Rightarrow> heartbeat_row list result" where
  "get_dispatchers database queues fresh_within_seconds observed_at rows =
     (case seconds_before observed_at fresh_within_seconds of
        Inl e \<Rightarrow> Inl e
      | Inr cutoff \<Rightarrow>
          let fresh = filter (\<lambda>h. hb_last_seen_at h \<ge> cutoff) rows;
              here = (case database of None \<Rightarrow> fresh
                      | Some d \<Rightarrow> filter (\<lambda>h. hb_database h = d) fresh);
              requested = (case queues of None \<Rightarrow> None
                           | Some qs \<Rightarrow> if qs = [] then None else Some qs)
          in Inr (filter (\<lambda>h. serves h requested) (sort_key (\<lambda>h. - hb_last_seen_at h) here)))"

definition get_stats :: "ledger \<Rightarrow> (string \<times> nat) list" where
  "get_stats db =
     map (\<lambda>s. (status_value s, length (filter (\<lambda>r. status r = s) db))) all_statuses"

definition get_pending :: "nat \<Rightarrow> string option \<Rightarrow> ledger \<Rightarrow> task_entry list" where
  "get_pending limit ty db =
     select_entries (\<lambda>r. status r = PENDING \<and> of_type ty r) created_at limit db"

definition get_processing :: "nat \<Rightarrow> ledger \<Rightarrow> task_entry list" where
  "get_processing limit db =
     select_entries (\<lambda>r. status r = PROCESSING) (\<lambda>r. nulls_last (started_at r)) limit db"

definition get_dispatching :: "nat \<Rightarrow> ledger \<Rightarrow> task_entry list" where
  "get_dispatching limit db =
     select_entries (\<lambda>r. status r = DISPATCHING) (\<lambda>r. nulls_last (dispatching_at r)) limit db"

definition get_stuck :: "datetime \<Rightarrow> int \<Rightarrow> ledger \<Rightarrow> task_entry list" where
  "get_stuck now older_than_minutes db =
     (let threshold = now - older_than_minutes * minute
      in map to_dataclass (sort_key (\<lambda>r. nulls_last (started_at r))
           (filter (\<lambda>r. status r = PROCESSING \<and> sql_lt (started_at r) threshold) db)))"

definition get_failed :: "nat \<Rightarrow> string option \<Rightarrow> ledger \<Rightarrow> task_entry list" where
  "get_failed limit ty db =
     select_entries (\<lambda>r. status r = FAILED \<and> of_type ty r) (\<lambda>r. - created_at r) limit db"

definition get_dead :: "nat \<Rightarrow> string option \<Rightarrow> ledger \<Rightarrow> task_entry list" where
  "get_dead limit ty db =
     select_entries (\<lambda>r. status r = DEAD \<and> of_type ty r) (\<lambda>r. - created_at r) limit db"

definition get_expired :: "nat \<Rightarrow> string option \<Rightarrow> ledger \<Rightarrow> task_entry list" where
  "get_expired limit ty db =
     select_entries (\<lambda>r. status r = EXPIRED \<and> of_type ty r)
       (\<lambda>r. desc_nulls_first (expired_at r)) limit db"

definition get_task :: "string \<Rightarrow> ledger \<Rightarrow> task_entry option" where
  "get_task task_id db = map_option to_dataclass (find_row task_id db)"

definition get_recent ::
    "nat \<Rightarrow> string option \<Rightarrow> task_status option \<Rightarrow> datetime option \<Rightarrow> ledger
     \<Rightarrow> task_entry list" where
  "get_recent limit ty st since db =
     select_entries
       (\<lambda>r. of_type ty r \<and> (case st of None \<Rightarrow> True | Some s \<Rightarrow> status r = s) \<and>
            (case since of None \<Rightarrow> True | Some t \<Rightarrow> created_at r \<ge> t))
       (\<lambda>r. - created_at r) limit db"

section \<open>Actions\<close>

definition retry_task ::
    "bool \<Rightarrow> clock \<Rightarrow> string \<Rightarrow> transaction \<Rightarrow> task_entry option \<times> transaction" where
  "retry_task is_pg clk task_id t =
     (case find_row task_id (working t) of
        None \<Rightarrow> (None, t)
      | Some task \<Rightarrow>
          if status task = EXPIRED then (None, t)
          else if \<not> can_transition_to (status task) PENDING then (Some (to_dataclass task), t)
          else
            let set_pending = (\<lambda>r. r\<lparr>status := PENDING, scheduled_for := None, error := '''',
                                     attempts := 0, updated_at := clk 0\<rparr>)
            in (Some (to_dataclass (set_pending task)),
                t\<lparr>working := set_row task_id set_pending (working t),
                  queued := notify_work_available is_pg
                    (task_notification (row_id task) (queue task)) (queued t)\<rparr>))"

definition bulk_retry ::
    "bool \<Rightarrow> clock \<Rightarrow> others \<Rightarrow> string option \<Rightarrow> task_status \<Rightarrow> transaction
     \<Rightarrow> (nat \<times> transaction) result" where
  "bulk_retry is_pg clk env ty st t =
     (if \<not> can_transition_to st PENDING
      then Inl (py_exn ValueErrorC (''Cannot retry tasks in '' @ status_value st @ '' state''))
      else
        let matches = (\<lambda>r. status r = st \<and> of_type ty r);
            db0 = env 0 (working t);
            rows = filter matches db0;
            (updated, db1) = update_returning matches
              (\<lambda>r. r\<lparr>status := PENDING, scheduled_for := None, error := '''', attempts := 0,
                     updated_at := clk 0\<rparr>) (env 1 db0)
        in Inr (length updated,
                t\<lparr>working := db1, queued := notify_rows is_pg rows (queued t)\<rparr>))"

definition kill_task :: "clock \<Rightarrow> string \<Rightarrow> transaction \<Rightarrow> task_entry option \<times> transaction" where
  "kill_task clk task_id t =
     (case find_row task_id (working t) of
        None \<Rightarrow> (None, t)
      | Some task \<Rightarrow>
          if \<not> can_transition_to (status task) DEAD then (Some (to_dataclass task), t)
          else
            let set_dead = (\<lambda>r. r\<lparr>status := DEAD, updated_at := clk 0\<rparr>)
            in (Some (to_dataclass (set_dead task)),
                t\<lparr>working := set_row task_id set_dead (working t)\<rparr>))"

definition purge_completed ::
    "datetime \<Rightarrow> int \<Rightarrow> string option \<Rightarrow> transaction \<Rightarrow> nat \<times> transaction" where
  "purge_completed now older_than_days ty t =
     (let threshold = now - older_than_days * day;
          old = (\<lambda>r. status r = COMPLETED \<and> sql_lt (completed_at r) threshold \<and> of_type ty r)
      in (length (filter old (working t)), t\<lparr>working := delete_where old (working t)\<rparr>))"

section \<open>Facts\<close>

lemma retry_task_changed:
  assumes "distinct (map row_id (working t))"
  shows "rows_changed row_step (working t) (working (snd (retry_task is_pg clk i t)))"
proof (cases "find_row i (working t)")
  case None
  then show ?thesis by (simp add: retry_task_def)
next
  case (Some task)
  have "can_transition_to (status task) PENDING \<Longrightarrow> rows_changed row_step (working t)
      (set_row i (\<lambda>r. r\<lparr>status := PENDING, scheduled_for := None, error := '''', attempts := 0,
                        updated_at := clk 0\<rparr>) (working t))"
    by (rule set_row_changed [OF assms Some]) (rule row_step.Retry)
  with Some show ?thesis by (simp add: retry_task_def Let_def)
qed

lemma kill_task_changed:
  assumes "distinct (map row_id (working t))"
  shows "rows_changed row_step (working t) (working (snd (kill_task clk i t)))"
proof (cases "find_row i (working t)")
  case None
  then show ?thesis by (simp add: kill_task_def)
next
  case (Some task)
  have "can_transition_to (status task) DEAD \<Longrightarrow> rows_changed row_step (working t)
      (set_row i (\<lambda>r. r\<lparr>status := DEAD, updated_at := clk 0\<rparr>) (working t))"
    by (rule set_row_changed [OF assms Some]) (rule row_step.Kill)
  with Some show ?thesis by (simp add: kill_task_def Let_def)
qed

context row_invariant begin

lemma inv_retry_task:
  "table_ok I (working t) \<Longrightarrow> table_ok I (working (snd (retry_task is_pg clk i t)))"
  by (rule inv_changed [OF _ retry_task_changed]) (auto intro: table_ok_ids)

lemma inv_kill_task:
  "table_ok I (working t) \<Longrightarrow> table_ok I (working (snd (kill_task clk i t)))"
  by (rule inv_changed [OF _ kill_task_changed]) (auto intro: table_ok_ids)

lemma inv_bulk_retry:
  assumes "bulk_retry is_pg clk env ty st t = Inr (n, t')"
    and ok: "table_ok I (working t)" and env: "\<And>k. keeps I (env k)"
  shows "table_ok I (working t')"
proof -
  let ?f = "\<lambda>r. r\<lparr>status := PENDING, scheduled_for := None, error := '''', attempts := 0,
                  updated_at := clk 0\<rparr>"
  have "can_transition_to st PENDING"
    and t': "working t' = update_where (\<lambda>r. status r = st \<and> of_type ty r) ?f
      (env 1 (env 0 (working t)))"
    using assms(1) by (auto simp: bulk_retry_def Let_def update_returning_def split: if_splits)
  moreover have "table_ok I (env 1 (env 0 (working t)))"
    by (rule keepsD [OF env], rule keepsD [OF env], rule ok)
  ultimately show ?thesis by (auto intro!: inv_update row_step.Retry)
qed

lemma inv_purge_completed:
  "table_ok I (working t) \<Longrightarrow> table_ok I (working (snd (purge_completed now n ty t)))"
  by (simp add: purge_completed_def Let_def inv_delete)

end

text \<open>The statistics count every row once.\<close>

lemma count_statuses:
  "sum_list (map (\<lambda>s. length (filter (\<lambda>r. status r = s) db)) all_statuses) = length db"
proof (induction db)
  case Nil
  then show ?case by (simp add: all_statuses_def)
next
  case (Cons r db)
  then show ?case by (cases "status r") (simp_all add: all_statuses_def)
qed

end
