(* ===== verification/Operator_Properties.thy ===== *)
theory Operator_Properties
  imports Sa_Queries Claim_Properties "HOL-Library.Sublist"
begin

text \<open>
  Properties of the operator actions and of the readiness query of the SQLAlchemy integration.
\<close>

section \<open>Operator actions\<close>

abbreviation set_pending :: "clock \<Rightarrow> task_row \<Rightarrow> task_row" where
  "set_pending clk r \<equiv> r\<lparr>status := PENDING, scheduled_for := None, error := '''', attempts := 0,
     updated_at := clk 0\<rparr>"

lemma retry_task_found:
  assumes "find_row i (working t) = Some r" and "can_transition_to (status r) PENDING"
  shows "retry_task is_pg clk i t = (Some (to_dataclass (set_pending clk r)),
    t\<lparr>working := set_row i (set_pending clk) (working t),
      queued := notify_work_available is_pg (task_notification (row_id r) (queue r)) (queued t)\<rparr>)"
  using assms by (auto simp: retry_task_def Let_def)

text \<open>
  Retrying by hand gives a task a fresh start: a failed, dead, claimed or running task becomes
  \<open>PENDING\<close>, due at once, with no error and no attempts used, keeps its creation contract, and is
  announced on PostgreSQL when the caller commits; every other task is as it was.  A missing or expired
  task gives nothing, and any other task is returned as it is, with nothing changed.
\<close>

lemma retry_gives_fresh_start:
  "case find_row i (working t) of
     None \<Rightarrow> retry_task is_pg clk i t = (None, t)
   | Some r \<Rightarrow>
       if status r \<in> {FAILED, DEAD, DISPATCHING, PROCESSING}
       then \<exists>r' t'. retry_task is_pg clk i t = (Some (to_dataclass r'), t') \<and>
         find_row i (working t') = Some r' \<and> status r' = PENDING \<and> attempts r' = 0 \<and>
         error r' = '''' \<and> claim_due now r' \<and> same_contract r r' \<and>
         queued t' = queued t @ (if is_pg then [task_notification i (queue r)] else []) \<and>
         (\<forall>j. j \<noteq> i \<longrightarrow> find_row j (working t') = find_row j (working t))
       else retry_task is_pg clk i t = (if status r = EXPIRED then None else Some (to_dataclass r), t)"
proof (cases "find_row i (working t)")
  case None
  then show ?thesis by (simp add: retry_task_def)
next
  case (Some r)
  show ?thesis
  proof (cases "status r \<in> {FAILED, DEAD, DISPATCHING, PROCESSING}")
    case True
    then have can: "can_transition_to (status r) PENDING" by auto
    have "find_row i (set_row i (set_pending clk) (working t)) = Some (set_pending clk r)"
      using Some by (rule find_set_row) simp
    moreover have "find_row j (set_row i (set_pending clk) (working t)) = find_row j (working t)"
      if "j \<noteq> i" for j using that by (simp add: find_row_set_row)
    ultimately show ?thesis
      using True Some find_row_Some [OF Some] retry_task_found [OF Some can]
      by (simp add: claim_due_def same_contract_def notify_work_available_def)
  next
    case False
    then show ?thesis using Some by (cases "status r") (simp_all add: retry_task_def Let_def)
  qed
qed

text \<open>The single retries a bulk retry stands for.\<close>

definition retry_each :: "bool \<Rightarrow> clock \<Rightarrow> string list \<Rightarrow> transaction \<Rightarrow> transaction" where
  "retry_each is_pg clk ids t = fold (\<lambda>i t. snd (retry_task is_pg clk i t)) ids t"

lemma update_where_Cons_id:
  assumes "\<And>r. row_id (f r) = row_id r" and "i \<notin> set ids"
  shows "update_where (\<lambda>r. row_id r \<in> set ids) f (set_row i f db)
    = update_where (\<lambda>r. row_id r \<in> set (i # ids)) f db"
  using assms by (induction db) (auto simp: update_where_def)

lemma retry_each_eq:
  assumes "distinct ids" and "list_all2 (\<lambda>i r. find_row i (working t) = Some r \<and>
    can_transition_to (status r) PENDING) ids rows"
  shows "retry_each is_pg clk ids t =
    t\<lparr>working := update_where (\<lambda>r. row_id r \<in> set ids) (set_pending clk) (working t),
      queued := notify_rows is_pg rows (queued t)\<rparr>"
  using assms
proof (induction ids arbitrary: t rows)
  case Nil
  then show ?case by (simp add: retry_each_def update_where_none)
next
  case (Cons i ids)
  then obtain r rs where rows: "rows = r # rs" and r: "find_row i (working t) = Some r"
    "can_transition_to (status r) PENDING"
    and rs: "list_all2 (\<lambda>i r. find_row i (working t) = Some r \<and>
      can_transition_to (status r) PENDING) ids rs"
    by (auto simp: list_all2_Cons1)
  let ?t1 = "snd (retry_task is_pg clk i t)"
  have t1: "?t1 = t\<lparr>working := set_row i (set_pending clk) (working t),
      queued := notify_work_available is_pg (task_notification (row_id r) (queue r)) (queued t)\<rparr>"
    by (simp add: retry_task_found [OF r])
  have "list_all2 (\<lambda>i r. find_row i (working ?t1) = Some r \<and>
      can_transition_to (status r) PENDING) ids rs"
    using rs Cons.prems(1) unfolding t1
    by (auto simp: list_all2_conv_all_nth find_row_set_row)
  then have "retry_each is_pg clk ids ?t1 = ?t1\<lparr>working := update_where (\<lambda>r. row_id r \<in> set ids)
      (set_pending clk) (working ?t1), queued := notify_rows is_pg rs (queued ?t1)\<rparr>"
    using Cons.IH Cons.prems(1) by simp
  then show ?case
    using Cons.prems(1) update_where_Cons_id [of "set_pending clk" i ids "working t"]
    by (simp add: retry_each_def t1 rows)
qed

text \<open>
  A bulk retry is the single retry of each matching task in turn: same table, same notifications in
  the same order, and the count it returns is their number.  It raises exactly for the statuses that
  cannot go back to \<open>PENDING\<close>, and then does nothing.
\<close>

lemma bulk_retry_is_each:
  assumes "ledger_wf (working t)"
  shows "bulk_retry is_pg clk alone ty st t =
    (if st \<in> {FAILED, DEAD, DISPATCHING, PROCESSING}
     then let ids = map row_id (filter (\<lambda>r. status r = st \<and> of_type ty r) (working t))
          in Inr (length ids, retry_each is_pg clk ids t)
     else Inl (py_exn ValueErrorC (''Cannot retry tasks in '' @ status_value st @ '' state'')))"
proof (cases "can_transition_to st PENDING")
  case True
  let ?M = "\<lambda>r. status r = st \<and> of_type ty r"
  let ?rows = "filter ?M (working t)" let ?ids = "map row_id ?rows"
  note d = ledger_wf_distinct [OF assms]
  have each: "retry_each is_pg clk ?ids t =
    t\<lparr>working := update_where (\<lambda>r. row_id r \<in> set ?ids) (set_pending clk) (working t),
      queued := notify_rows is_pg ?rows (queued t)\<rparr>"
  proof (rule retry_each_eq)
    show "distinct ?ids" using d by (rule distinct_map_filter)
    show "list_all2 (\<lambda>i r. find_row i (working t) = Some r \<and> can_transition_to (status r) PENDING)
        ?ids ?rows"
      using True find_row_unique [OF d]
      by (auto simp: list_all2_map1 list_all2_same)
  qed
  have "row_id r \<in> set ?ids \<longleftrightarrow> ?M r" if "r \<in> set (working t)" for r
  proof
    assume "row_id r \<in> set ?ids"
    then obtain s where s: "s \<in> set (working t)" "row_id s = row_id r" "?M s" by auto
    then have "s = r" using that d by (metis find_row_unique option.inject)
    then show "?M r" using s by simp
  qed (use that in auto)
  then have "update_where (\<lambda>r. row_id r \<in> set ?ids) (set_pending clk) (working t)
      = update_where ?M (set_pending clk) (working t)"
    by (intro update_where_cong) simp_all
  moreover have "st \<in> {FAILED, DEAD, DISPATCHING, PROCESSING}" using True by (cases st) auto
  ultimately show ?thesis
    using True each by (simp add: bulk_retry_def Let_def update_returning_def)
next
  case False
  then have "st \<notin> {FAILED, DEAD, DISPATCHING, PROCESSING}" by (cases st) auto
  then show ?thesis using False by (simp add: bulk_retry_def)
qed

text \<open>
  Purging deletes history only: the rows it keeps are unchanged, every row it deletes was completed
  before the retention threshold, the number it returns is the number of rows gone, and of the
  statistics only the completed count drops, by that number.  The statistics always add up to the size
  of the table.
\<close>

lemma purge_accounting:
  assumes "purge_completed now days ty t = (n, t')"
  shows "subseq (working t') (working t) \<and>
    (\<forall>r \<in> set (working t) - set (working t').
       status r = COMPLETED \<and> sql_lt (completed_at r) (now - days * day) \<and> of_type ty r) \<and>
    length (working t') + n = length (working t) \<and>
    get_stats (working t) = map (\<lambda>(s, k). (s, if s = status_value COMPLETED then k + n else k))
      (get_stats (working t')) \<and>
    sum_list (map snd (get_stats (working t'))) = length (working t')"
proof -
  let ?old = "\<lambda>r. status r = COMPLETED \<and> sql_lt (completed_at r) (now - days * day) \<and> of_type ty r"
  have n: "n = length (filter ?old (working t))" and t': "working t' = filter (\<lambda>r. \<not> ?old r) (working t)"
    using assms by (auto simp: purge_completed_def Let_def delete_where_def)
  have len: "length (filter (\<lambda>r. \<not> ?old r) db) + length (filter ?old db) = length db" for db :: ledger
    using sum_length_filter_compl [of ?old db] by simp
  have completed: "length (filter (\<lambda>r. status r = COMPLETED) db)
      = length (filter (\<lambda>r. status r = COMPLETED) (filter (\<lambda>r. \<not> ?old r) db)) + length (filter ?old db)"
    and other: "s \<noteq> COMPLETED \<Longrightarrow> filter (\<lambda>r. status r = s) (filter (\<lambda>r. \<not> ?old r) db)
      = filter (\<lambda>r. status r = s) db" for db :: ledger and s
    by (induction db) auto
  have "get_stats (working t) = map (\<lambda>(s, k). (s, if s = status_value COMPLETED then k + n else k))
      (get_stats (working t'))"
    unfolding get_stats_def t' n map_map
    using completed [of "working t"] other [of _ "working t"] status_value_inj
    by (auto simp: all_statuses_def)
  moreover have "sum_list (map snd (get_stats (working t'))) = length (working t')"
    using count_statuses by (simp add: get_stats_def comp_def)
  ultimately show ?thesis
    using len [of "working t"] by (auto simp: t' n subseq_filter_left)
qed

section \<open>Readiness\<close>

text \<open>A heartbeat row of this very dispatcher says what the dispatcher says of itself.\<close>

abbreviation own_rows_agree :: "backend \<Rightarrow> heartbeats \<Rightarrow> bool" where
  "own_rows_agree b rows \<equiv> \<forall>h \<in> set rows. hb_instance_id h = b_instance_id b \<longrightarrow>
     hb_database h = b_database_identity b \<and> hb_queues h = b_queues b"

lemma heartbeat_own_row:
  assumes "own_rows_agree b rows" and "distinct (map hb_instance_id rows)"
  shows "\<exists>h \<in> set (heartbeat v b now rows). hb_instance_id h = b_instance_id b \<and>
    hb_database h = b_database_identity b \<and> hb_queues h = b_queues b \<and> hb_last_seen_at h = now"
proof -
  let ?new = "\<lparr>hb_instance_id = b_instance_id b, hb_version = v, hb_backend = ''sqlalchemy'',
    hb_database = b_database_identity b, hb_queues = b_queues b,
    hb_started_at = b_started_at b, hb_last_seen_at = now\<rparr>"
  let ?up = "upsert_heartbeat (\<lambda>h. h\<lparr>hb_last_seen_at := now\<rparr>) ?new rows"
  have d: "distinct (map hb_instance_id ?up)" by (rule upsert_ids [OF _ assms(2)]) simp
  obtain h where h: "h \<in> set ?up" "hb_instance_id h = b_instance_id b"
    "hb_database h = b_database_identity b" "hb_queues h = b_queues b" "hb_last_seen_at h = now"
  proof (cases "list_ex (\<lambda>h. hb_instance_id h = b_instance_id b) rows")
    case True
    then obtain k where k: "k \<in> set rows" "hb_instance_id k = b_instance_id b"
      by (auto simp: list_ex_iff)
    then have "k\<lparr>hb_last_seen_at := now\<rparr> \<in> set ?up"
      using True by (auto simp: upsert_heartbeat_def set_update_where)
    then show ?thesis using that [of "k\<lparr>hb_last_seen_at := now\<rparr>"] k assms(1) by simp
  next
    case False
    then have "?new \<in> set ?up" by (simp add: upsert_heartbeat_def)
    then show ?thesis using that [of ?new] by simp
  qed
  moreover have "h \<in> set (heartbeat v b now rows)"
    unfolding heartbeat_def Let_def
    by (rule prune_keeps [OF h(1) d]) (simp add: h(5) default_heartbeat_retention_days_def)
  ultimately show ?thesis by blast
qed

text \<open>
  Readiness is what a dispatcher reports: once it has written its heartbeat, and as long as the
  freshness window reaches back to that moment, the readiness query for its database finds it for any
  queues it was started with; a dispatcher that closed cleanly is found no more; and heartbeats of the
  others within the retention time survive the pruning.
\<close>

lemma heartbeat_readiness:
  assumes "own_rows_agree b rows" and "distinct (map hb_instance_id rows)"
    and "seconds_before observed window = Inr cutoff" and "cutoff \<le> now"
    and "case b_queues b of None \<Rightarrow> True | Some mine \<Rightarrow> set wanted \<subseteq> set mine"
  shows "\<exists>hs. get_dispatchers (Some (b_database_identity b)) (Some wanted) window observed
      (heartbeat v b now rows) = Inr hs \<and> b_instance_id b \<in> hb_instance_id ` set hs \<and>
    (\<exists>hs'. get_dispatchers None (Some wanted) window observed
      (close_heartbeat True b (heartbeat v b now rows)) = Inr hs' \<and>
      b_instance_id b \<notin> hb_instance_id ` set hs') \<and>
    (\<forall>h \<in> set rows. hb_instance_id h \<noteq> b_instance_id b \<and> now - 7 * day \<le> hb_last_seen_at h \<longrightarrow>
      h \<in> set (heartbeat v b now rows))"
proof -
  obtain h where h: "h \<in> set (heartbeat v b now rows)" "hb_instance_id h = b_instance_id b"
    "hb_database h = b_database_identity b" "hb_queues h = b_queues b" "hb_last_seen_at h = now"
    using heartbeat_own_row [OF assms(1,2)] by blast
  have "serves h (if wanted = [] then None else Some wanted)"
    using assms(5) h(4) by (auto simp: serves_def split: option.split)
  then have ready: "\<exists>hs. get_dispatchers (Some (b_database_identity b)) (Some wanted) window observed
      (heartbeat v b now rows) = Inr hs \<and> b_instance_id b \<in> hb_instance_id ` set hs"
    using h assms(3,4) by (auto simp: get_dispatchers_def Let_def image_iff intro!: bexI [of _ h])
  have "b_instance_id b \<notin> hb_instance_id ` set (close_heartbeat True b (heartbeat v b now rows))"
    by (auto simp: close_heartbeat_def)
  then have gone: "\<exists>hs'. get_dispatchers None (Some wanted) window observed
      (close_heartbeat True b (heartbeat v b now rows)) = Inr hs' \<and>
      b_instance_id b \<notin> hb_instance_id ` set hs'"
    using assms(3) by (auto simp: get_dispatchers_def Let_def)
  have "k \<in> set (heartbeat v b now rows)"
    if k: "k \<in> set rows" "hb_instance_id k \<noteq> b_instance_id b" "now - 7 * day \<le> hb_last_seen_at k" for k
  proof -
    let ?new = "\<lparr>hb_instance_id = b_instance_id b, hb_version = v, hb_backend = ''sqlalchemy'',
      hb_database = b_database_identity b, hb_queues = b_queues b,
      hb_started_at = b_started_at b, hb_last_seen_at = now\<rparr>"
    let ?up = "upsert_heartbeat (\<lambda>h. h\<lparr>hb_last_seen_at := now\<rparr>) ?new rows"
    have "k \<in> set ?up" using k by (auto simp: upsert_heartbeat_def set_update_where)
    moreover have "distinct (map hb_instance_id ?up)" by (rule upsert_ids [OF _ assms(2)]) simp
    ultimately show ?thesis
      unfolding heartbeat_def Let_def
      by (rule prune_keeps) (use k in \<open>simp add: default_heartbeat_retention_days_def\<close>)
  qed
  then show ?thesis using ready gone by blast
qed

end
