(* ===== verification/Dispatch_Contract.thy ===== *)
theory Dispatch_Contract
  imports Dispatcher
begin

text \<open>
  The contract between the dispatcher and its backend (\<open>DispatchBackend\<close>, a protocol of
  \<open>src/dewey/dispatcher.py\<close>) as a locale, and what the dispatcher loop guarantees over it.

  \<open>mine s\<close> are the tasks this dispatcher has claimed, that are still \<open>DISPATCHING\<close>, and that it
  has not handed to the transport since; \<open>sent s\<close> is what the transport received, in order.  A
  database operation that raises has been rolled back.  Recovery and other processes may
  take a task out of \<open>mine\<close> at any time, and only a claim puts one in.
\<close>

definition unchanged ::
    "('s \<Rightarrow> bool) \<Rightarrow> ('s \<Rightarrow> string set) \<Rightarrow> ('s \<Rightarrow> string list) \<Rightarrow> 's \<Rightarrow> 's \<Rightarrow> bool" where
  "unchanged valid mine sent s s' = (valid s' \<and> mine s' \<subseteq> mine s \<and> sent s' = sent s)"

locale dispatch_backend =
  fixes io :: "'s dispatch_io"
    and valid :: "'s \<Rightarrow> bool" and mine :: "'s \<Rightarrow> string set" and sent :: "'s \<Rightarrow> string list"
  assumes claim_ok: "valid s \<Longrightarrow> op_claim io n s = (Inr ids, s') \<Longrightarrow>
      valid s' \<and> distinct ids \<and> length ids \<le> n \<and> mine s' \<subseteq> mine s \<union> set ids \<and> sent s' = sent s"
    and claim_err: "valid s \<Longrightarrow> op_claim io n s = (Inl e, s') \<Longrightarrow> unchanged valid mine sent s s'"
    and release_ok: "valid s \<Longrightarrow> op_release io ids s = (Inr u, s') \<Longrightarrow>
      valid s' \<and> mine s' \<subseteq> mine s - set ids \<and> sent s' = sent s"
    and release_err: "valid s \<Longrightarrow> op_release io ids s = (Inl e, s') \<Longrightarrow> unchanged valid mine sent s s'"
    and send_ok: "valid s \<Longrightarrow> op_dispatch_fn io i s = (None, s') \<Longrightarrow>
      valid s' \<and> mine s' \<subseteq> mine s - {i} \<and> sent s' = sent s @ [i]"
    and send_err: "valid s \<Longrightarrow> op_dispatch_fn io i s = (Some e, s') \<Longrightarrow> unchanged valid mine sent s s'"
    and sweep_quiet: "valid s \<Longrightarrow> op_run_sweep io s = (r1, s') \<Longrightarrow> unchanged valid mine sent s s'"
    and beat_quiet: "valid s \<Longrightarrow> op_heartbeat io = Some f \<Longrightarrow> f s = (r2, s') \<Longrightarrow>
      unchanged valid mine sent s s'"
    and due_quiet: "valid s \<Longrightarrow> op_next_due io = Some g \<Longrightarrow> g s = (r3, s') \<Longrightarrow>
      unchanged valid mine sent s s'"
    and wait_quiet: "valid s \<Longrightarrow> op_wait_for_work io t s = (r4, s') \<Longrightarrow> unchanged valid mine sent s s'"
    and mono_quiet: "valid s \<Longrightarrow> op_monotonic io s = (r5, s') \<Longrightarrow> unchanged valid mine sent s s'"
    and wall_quiet: "valid s \<Longrightarrow> op_wall_clock io s = (r6, s') \<Longrightarrow> unchanged valid mine sent s s'"
    and stop_quiet: "valid s \<Longrightarrow> op_stop_wait io t s = (r7, s') \<Longrightarrow> unchanged valid mine sent s s'"

text \<open>
  The state between two passes: what the dispatcher still owes to the database is what it
  remembers in \<open>_pending_release\<close>, at most one batch of it.
\<close>

definition accounted ::
    "('s \<Rightarrow> bool) \<Rightarrow> ('s \<Rightarrow> string set) \<Rightarrow> dispatcher \<times> 's \<Rightarrow> bool" where
  "accounted valid mine \<sigma> =
     (valid (snd \<sigma>) \<and> mine (snd \<sigma>) \<subseteq> set (pending_release (fst \<sigma>)) \<and>
      distinct (pending_release (fst \<sigma>)) \<and>
      length (pending_release (fst \<sigma>)) \<le> batch_size (fst \<sigma>))"

text \<open>The parts of the dispatcher that pacing does not touch.\<close>

definition same_debts :: "dispatcher \<Rightarrow> dispatcher \<Rightarrow> bool" where
  "same_debts d d' = (pending_release d' = pending_release d \<and> batch_size d' = batch_size d)"

lemma same_debts_refl [simp]: "same_debts d d"
  by (simp add: same_debts_def)

text \<open>What is caught does not escape: it comes from the claim, which changes no part of the dispatcher.\<close>

lemma send_escaped: "send_ids io js k t = (SendEscaped e, t') \<Longrightarrow> \<not> caught e"
  by (induction js arbitrary: k t) (auto split: prod.splits option.splits if_splits)

lemma release_raises: "release_quietly io js \<tau> = (Inl e, \<tau>') \<Longrightarrow> \<not> caught e"
  by (auto simp: release_quietly_def split: prod.splits sum.splits if_splits)

lemma dispatch_batch_caught:
  assumes "dispatch_batch io \<sigma> = (Inl e, \<sigma>')" and "caught e" shows "fst \<sigma>' = fst \<sigma>"
proof -
  obtain x s1 where cl: "op_claim io (batch_size (fst \<sigma>)) (snd \<sigma>) = (x, s1)" by (metis surj_pair)
  show ?thesis
    using assms cl
    by (cases x) (auto simp: dispatch_batch_def Let_def split: prod.splits sum.splits if_splits
        send_outcome.splits dest: send_escaped release_raises)
qed

context dispatch_backend begin

abbreviation quiet :: "dispatcher \<times> 's \<Rightarrow> dispatcher \<times> 's \<Rightarrow> bool" where
  "quiet \<sigma> \<sigma>' \<equiv> same_debts (fst \<sigma>) (fst \<sigma>') \<and> unchanged valid mine sent (snd \<sigma>) (snd \<sigma>')"

lemma unchanged_refl: "valid s \<Longrightarrow> unchanged valid mine sent s s"
  by (simp add: unchanged_def)

lemma unchanged_trans:
  "unchanged valid mine sent a b \<Longrightarrow> unchanged valid mine sent b c \<Longrightarrow> unchanged valid mine sent a c"
  by (auto simp: unchanged_def)

lemma unchanged_valid: "unchanged valid mine sent a b \<Longrightarrow> valid b"
  by (simp add: unchanged_def)

lemma quiet_trans: "quiet a b \<Longrightarrow> quiet b c \<Longrightarrow> quiet a c"
  by (auto simp: same_debts_def unchanged_def)

lemma quiet_accounted: "quiet \<sigma> \<sigma>' \<Longrightarrow> accounted valid mine \<sigma> \<Longrightarrow> accounted valid mine \<sigma>'"
  by (auto simp: accounted_def same_debts_def unchanged_def)

lemma db_failure_quiet: "valid (snd \<sigma>) \<Longrightarrow> quiet \<sigma> (db_failure io \<sigma>)"
  by (auto simp: db_failure_def same_debts_def split: prod.split dest: mono_quiet)

lemma read_due_quiet: "valid s \<Longrightarrow> read_due io c s = (due, c', s') \<Longrightarrow> unchanged valid mine sent s s'"
  by (auto simp: read_due_def Let_def split: option.splits prod.splits
      intro: unchanged_refl dest: mono_quiet)

lemma maybe_sweep_quiet:
  assumes "valid (snd \<sigma>)" and "maybe_sweep io \<sigma> = (r, \<sigma>')" shows "quiet \<sigma> \<sigma>'"
proof -
  obtain due c s where rd: "read_due io (d_sweep_clock (fst \<sigma>)) (snd \<sigma>) = (due, c, s)"
    by (cases "read_due io (d_sweep_clock (fst \<sigma>)) (snd \<sigma>)")
  have u: "unchanged valid mine sent (snd \<sigma>) s" using read_due_quiet [OF assms(1) rd] .
  show ?thesis
    using assms(2) u sweep_quiet [OF unchanged_valid [OF u]]
    by (auto simp: maybe_sweep_def Let_def rd same_debts_def intro: unchanged_trans
        split: if_splits prod.splits sum.splits)
qed

lemma maybe_heartbeat_quiet:
  assumes "valid (snd \<sigma>)" and "maybe_heartbeat io \<sigma> = (r, \<sigma>')" shows "quiet \<sigma> \<sigma>'"
proof -
  obtain due c s where rd: "read_due io (d_heartbeat_clock (fst \<sigma>)) (snd \<sigma>) = (due, c, s)"
    by (cases "read_due io (d_heartbeat_clock (fst \<sigma>)) (snd \<sigma>)")
  have u: "unchanged valid mine sent (snd \<sigma>) s" using read_due_quiet [OF assms(1) rd] .
  show ?thesis
    using assms(2) u beat_quiet [OF unchanged_valid [OF u]]
    by (auto simp: maybe_heartbeat_def Let_def rd same_debts_def intro: unchanged_trans
        split: if_splits prod.splits sum.splits option.splits)
qed

lemma read_remaining_quiet:
  "valid s \<Longrightarrow> read_remaining io b s = (r, s') \<Longrightarrow> unchanged valid mine sent s s'"
  by (auto simp: read_remaining_def split: if_splits prod.splits
      intro: unchanged_refl dest: mono_quiet)

lemma pace_quiet:
  assumes "valid (snd \<sigma>)" and "pace io n w \<sigma> = (r, \<sigma>')" shows "quiet \<sigma> \<sigma>'"
proof -
  obtain r1 s1 where r1: "read_remaining io (health (fst \<sigma>)) (snd \<sigma>) = (r1, s1)" by (metis surj_pair)
  obtain r2 s2 where r2: "read_remaining io (db_health (fst \<sigma>)) s1 = (r2, s2)" by (metis surj_pair)
  have u1: "unchanged valid mine sent (snd \<sigma>) s1" using read_remaining_quiet [OF assms(1) r1] .
  have u2: "unchanged valid mine sent s1 s2"
    using read_remaining_quiet [OF unchanged_valid [OF u1] r2] .
  have u: "unchanged valid mine sent (snd \<sigma>) s2" using unchanged_trans [OF u1 u2] .
  show ?thesis
    using assms(2) u stop_quiet [OF unchanged_valid [OF u2]] wait_quiet [OF unchanged_valid [OF u2]]
    by (auto simp: pace_def r1 r2 Let_def intro: unchanged_trans
        split: if_splits prod.splits sum.splits)
qed

text \<open>The batch.\<close>

lemma send_ids_sent:
  assumes "valid s" and "send_ids io ids k s = (out, s')"
  shows "\<exists>m \<le> length ids. valid s' \<and> sent s' = sent s @ take m ids \<and>
    mine s' \<subseteq> mine s - set (take m ids) \<and>
    (case out of AllSent \<Rightarrow> m = length ids | SendFailed j \<Rightarrow> j = k + m \<and> m < length ids
               | SendEscaped e \<Rightarrow> m < length ids)"
  using assms
proof (induction ids arbitrary: k s)
  case Nil
  then show ?case by auto
next
  case (Cons i ids)
  obtain x s1 where d: "op_dispatch_fn io i s = (x, s1)" by (metis surj_pair)
  show ?case
  proof (cases x)
    case None
    then have step: "valid s1" "mine s1 \<subseteq> mine s - {i}" "sent s1 = sent s @ [i]"
      using send_ok Cons.prems(1) d by auto
    moreover have "send_ids io ids (Suc k) s1 = (out, s')" using Cons.prems(2) d None by simp
    ultimately obtain m where "m \<le> length ids" "valid s'" "sent s' = sent s1 @ take m ids"
      "mine s' \<subseteq> mine s1 - set (take m ids)"
      "case out of AllSent \<Rightarrow> m = length ids | SendFailed j \<Rightarrow> j = Suc k + m \<and> m < length ids
               | SendEscaped e \<Rightarrow> m < length ids"
      using Cons.IH by blast
    with step show ?thesis
      by (intro exI [of _ "Suc m"]) (auto split: send_outcome.splits)
  next
    case (Some e)
    then have "unchanged valid mine sent s s1" using send_err Cons.prems(1) d by blast
    then show ?thesis
      using Cons.prems(2) d Some
      by (intro exI [of _ 0]) (auto simp: unchanged_def split: if_splits)
  qed
qed

lemma release_quietly_accounts:
  assumes "valid (snd \<sigma>)" and "release_quietly io ids \<sigma> = (Inr u, \<sigma>')"
    and "pending_release (fst \<sigma>) = []"
  shows "valid (snd \<sigma>') \<and> sent (snd \<sigma>') = sent (snd \<sigma>) \<and> batch_size (fst \<sigma>') = batch_size (fst \<sigma>) \<and>
    ((mine (snd \<sigma>') \<subseteq> mine (snd \<sigma>) - set ids \<and> pending_release (fst \<sigma>') = []) \<or>
     (mine (snd \<sigma>') \<subseteq> mine (snd \<sigma>) \<and> pending_release (fst \<sigma>') = fromkeys ids))"
proof -
  obtain x s1 where r: "op_release io ids (snd \<sigma>) = (x, s1)" by (metis surj_pair)
  show ?thesis
  proof (cases x)
    case (Inl e)
    let ?\<tau> = "((fst \<sigma>)\<lparr>pending_release := fromkeys (pending_release (fst \<sigma>) @ ids)\<rparr>, s1)"
    have c: "\<sigma>' = db_failure io ?\<tau>"
      using assms(2) r Inl by (auto simp: release_quietly_def split: if_splits)
    have u: "unchanged valid mine sent (snd \<sigma>) s1" using release_err assms(1) r Inl by blast
    have "quiet ?\<tau> \<sigma>'" using db_failure_quiet [of ?\<tau>] u c by (simp add: unchanged_def)
    with u assms(3) show ?thesis by (auto simp: same_debts_def unchanged_def)
  next
    case (Inr u)
    then show ?thesis
      using release_ok [OF assms(1), of ids u s1] r assms(2,3) by (auto simp: release_quietly_def)
  qed
qed

lemma dispatch_batch_accounts:
  assumes a: "accounted valid mine \<sigma>" and p: "pending_release (fst \<sigma>) = []"
    and b: "dispatch_batch io \<sigma> = (Inr n, \<sigma>')"
  shows "accounted valid mine \<sigma>' \<and> batch_size (fst \<sigma>') = batch_size (fst \<sigma>) \<and>
    (\<exists>ids. fst (op_claim io (batch_size (fst \<sigma>)) (snd \<sigma>)) = Inr ids \<and>
       distinct ids \<and> length ids \<le> batch_size (fst \<sigma>) \<and> n \<le> length ids \<and>
       sent (snd \<sigma>') = sent (snd \<sigma>) @ take n ids \<and>
       (pending_release (fst \<sigma>') = [] \<or> pending_release (fst \<sigma>') = drop n ids))"
proof -
  have valid: "valid (snd \<sigma>)" and m0: "mine (snd \<sigma>) = {}" using a p by (auto simp: accounted_def)
  obtain x s1 where cl: "op_claim io (batch_size (fst \<sigma>)) (snd \<sigma>) = (x, s1)" by (metis surj_pair)
  then obtain ids where x: "x = Inr ids"
    using b by (cases x) (auto simp: dispatch_batch_def Let_def)
  have ids: "valid s1" "distinct ids" "length ids \<le> batch_size (fst \<sigma>)" "mine s1 \<subseteq> set ids"
    "sent s1 = sent (snd \<sigma>)"
    using claim_ok [OF valid] cl x m0 by auto
  show ?thesis
  proof (cases "ids = []")
    case True
    then have "n = 0" "\<sigma>' = ((fst \<sigma>)\<lparr>health := note_success (health (fst \<sigma>))\<rparr>, s1)"
      using b cl x by (auto simp: dispatch_batch_def Let_def)
    with True ids p cl x show ?thesis by (auto simp: accounted_def intro!: exI [of _ "[]"])
  next
    case False
    obtain out s2 where sd: "send_ids io ids 0 s1 = (out, s2)" by (metis surj_pair)
    obtain m where m: "m \<le> length ids" "valid s2" "sent s2 = sent s1 @ take m ids"
      "mine s2 \<subseteq> set ids - set (take m ids)"
      "case out of AllSent \<Rightarrow> m = length ids | SendFailed j \<Rightarrow> j = 0 + m \<and> m < length ids
               | SendEscaped e \<Rightarrow> m < length ids"
      using send_ids_sent [OF ids(1) sd] ids(4) by auto
    have rest: "set ids - set (take m ids) = set (drop m ids)"
      using ids(2) set_take_disj_set_drop_if_distinct [of ids m m]
      by (metis Diff_cancel Diff_triv Un_Diff append_take_drop_id inf_commute order_refl set_append
          sup_bot_left)
    show ?thesis
    proof (cases out)
      case AllSent
      then have "n = length ids" "\<sigma>' = ((fst \<sigma>)\<lparr>health := note_success (health (fst \<sigma>))\<rparr>, s2)"
        using b cl x False sd by (auto simp: dispatch_batch_def Let_def)
      with AllSent m ids p cl x show ?thesis by (auto simp: accounted_def)
    next
      case (SendFailed j)
      then have j: "j = m" "m < length ids" using m(5) by auto
      obtain y d3 s3 where rq: "release_quietly io (drop m ids) (fst \<sigma>, s2) = (y, d3, s3)"
        by (metis prod_cases3)
      then obtain u where y: "y = Inr u"
        using b cl x False sd SendFailed j by (cases y) (auto simp: dispatch_batch_def Let_def)
      obtain now s4 where mo: "op_monotonic io s3 = (now, s4)" by (metis surj_pair)
      have res: "n = m" "\<sigma>' = (d3\<lparr>health := note_failure now (health d3)\<rparr>, s4)"
        using b cl x False sd SendFailed j rq y mo by (auto simp: dispatch_batch_def Let_def)
      have rel: "valid s3 \<and> sent s3 = sent s2 \<and> batch_size d3 = batch_size (fst \<sigma>) \<and>
          ((mine s3 \<subseteq> mine s2 - set (drop m ids) \<and> pending_release d3 = []) \<or>
           (mine s3 \<subseteq> mine s2 \<and> pending_release d3 = fromkeys (drop m ids)))"
        using release_quietly_accounts [of "(fst \<sigma>, s2)" "drop m ids" u "(d3, s3)"] m(2) rq y p
        by simp
      then have "unchanged valid mine sent s3 s4" using mono_quiet mo by blast
      with rel res m rest ids cl x show ?thesis
        by (auto simp: accounted_def unchanged_def fromkeys_id) blast+
    next
      case (SendEscaped e)
      then show ?thesis using b cl x False sd by (auto simp: dispatch_batch_def Let_def)
    qed
  qed
qed

lemma retry_pending_accounts:
  assumes a: "accounted valid mine \<sigma>" and r: "retry_pending_release io \<sigma> = (Inr ready, \<sigma>')"
  shows "accounted valid mine \<sigma>' \<and> batch_size (fst \<sigma>') = batch_size (fst \<sigma>) \<and>
    sent (snd \<sigma>') = sent (snd \<sigma>) \<and>
    (if ready then pending_release (fst \<sigma>') = []
     else pending_release (fst \<sigma>') = pending_release (fst \<sigma>))"
proof (cases "pending_release (fst \<sigma>) = []")
  case True
  then show ?thesis using a r by (auto simp: retry_pending_release_def)
next
  case False
  let ?ids = "pending_release (fst \<sigma>)"
  have valid: "valid (snd \<sigma>)" and m: "mine (snd \<sigma>) \<subseteq> set ?ids" using a by (auto simp: accounted_def)
  obtain x s1 where rel: "op_release io ?ids (snd \<sigma>) = (x, s1)" by (metis surj_pair)
  show ?thesis
  proof (cases x)
    case (Inl e)
    let ?\<tau> = "((fst \<sigma>)\<lparr>pending_release := ?ids\<rparr>, s1)"
    have res: "ready = False" "\<sigma>' = db_failure io ?\<tau>"
      using r rel Inl False by (auto simp: retry_pending_release_def Let_def split: if_splits)
    have u: "unchanged valid mine sent (snd \<sigma>) s1" using release_err valid rel Inl by blast
    then have "quiet ?\<tau> \<sigma>'" using db_failure_quiet [of ?\<tau>] res by (simp add: unchanged_def)
    with u res a show ?thesis by (auto simp: accounted_def same_debts_def unchanged_def)
  next
    case (Inr u)
    then have "valid s1 \<and> mine s1 = {} \<and> sent s1 = sent (snd \<sigma>)"
      using release_ok [OF valid] rel m by auto
    then show ?thesis
      using r rel Inr False by (auto simp: retry_pending_release_def Let_def accounted_def)
  qed
qed

text \<open>
  A caught error of the body leaves the accounts in order: either the batch was dispatched
  and accounted for, or no claim returned.
\<close>

lemma dispatch_batch_error:
  assumes a: "accounted valid mine \<sigma>" and p: "pending_release (fst \<sigma>) = []"
    and b: "dispatch_batch io \<sigma> = (Inl e, \<sigma>')" and c: "caught e"
  shows "accounted valid mine \<sigma>' \<and> batch_size (fst \<sigma>') = batch_size (fst \<sigma>) \<and>
    sent (snd \<sigma>') = sent (snd \<sigma>)"
proof -
  have valid: "valid (snd \<sigma>)" using a by (simp add: accounted_def)
  obtain x s1 where cl: "op_claim io (batch_size (fst \<sigma>)) (snd \<sigma>) = (x, s1)" by (metis surj_pair)
  show ?thesis
  proof (cases x)
    case (Inl e1)
    then have "unchanged valid mine sent (snd \<sigma>) s1" using claim_err valid cl by blast
    then show ?thesis
      using b cl Inl a by (auto simp: dispatch_batch_def Let_def accounted_def unchanged_def) blast+
  next
    case (Inr ids)
    show ?thesis
      using b cl Inr c
      by (auto simp: dispatch_batch_def Let_def split: prod.splits sum.splits if_splits
          send_outcome.splits dest: send_escaped release_raises)
  qed
qed

lemma dispatch_sent_prefix:
  "dispatch_batch io \<sigma> = (r, \<sigma>') \<Longrightarrow> accounted valid mine \<sigma> \<Longrightarrow> pending_release (fst \<sigma>) = [] \<Longrightarrow>
   (case r of Inr _ \<Rightarrow> True | Inl e \<Rightarrow> caught e) \<Longrightarrow>
   accounted valid mine \<sigma>' \<and> batch_size (fst \<sigma>') = batch_size (fst \<sigma>)"
  by (cases r) (auto dest: dispatch_batch_accounts dispatch_batch_error)

lemma try_body_accounts:
  assumes a: "accounted valid mine \<sigma>" and p: "ready \<Longrightarrow> pending_release (fst \<sigma>) = []"
    and b: "try_body io ready \<sigma> = (r, \<sigma>')" and c: "case r of Inr _ \<Rightarrow> True | Inl e \<Rightarrow> caught e"
  shows "accounted valid mine \<sigma>' \<and> batch_size (fst \<sigma>') = batch_size (fst \<sigma>)"
proof -
  have va: "valid (snd \<sigma>)" using a by (simp add: accounted_def)
  obtain x1 \<sigma>1 where h: "maybe_heartbeat io \<sigma> = (x1, \<sigma>1)" by (metis surj_pair)
  have q1: "quiet \<sigma> \<sigma>1" using maybe_heartbeat_quiet [OF va h] .
  obtain x2 \<sigma>2 where s: "maybe_sweep io \<sigma>1 = (x2, \<sigma>2)" by (metis surj_pair)
  have q2: "quiet \<sigma>1 \<sigma>2" using maybe_sweep_quiet [OF _ s] q1 by (simp add: unchanged_def)
  have q: "quiet \<sigma> \<sigma>2" using quiet_trans [OF q1 q2] .
  then have a2: "accounted valid mine \<sigma>2" using quiet_accounted a by blast
  obtain x3 \<sigma>3 where d: "(if \<not> ready then (Inr 0, \<sigma>2) else dispatch_batch io \<sigma>2) = (x3, \<sigma>3)"
    by (metis surj_pair)
  obtain x4 s4 where n: "(case op_next_due io of
      None \<Rightarrow> (Inr None, snd \<sigma>3) | Some f \<Rightarrow> f (snd \<sigma>3)) = (x4, s4)" by (metis surj_pair)
  obtain now s5 where w: "op_wall_clock io s4 = (now, s5)" by (metis surj_pair)
  have d3: "accounted valid mine \<sigma>3 \<and> batch_size (fst \<sigma>3) = batch_size (fst \<sigma>2)"
    if "case x3 of Inr _ \<Rightarrow> True | Inl e \<Rightarrow> caught e"
    using d a2 that dispatch_sent_prefix [of \<sigma>2 x3 \<sigma>3] p q
    by (auto simp: same_debts_def split: if_splits)
  have u4: "unchanged valid mine sent (snd \<sigma>3) s4" if "valid (snd \<sigma>3)"
    using n that due_quiet unchanged_refl by (auto split: option.splits)
  have u5: "unchanged valid mine sent s4 s5" if "valid s4" using wall_quiet w that by blast
  show ?thesis
  proof (cases x1)
    case (Inl e)
    then show ?thesis
      using b h q1 quiet_accounted [OF q1 a] by (auto simp: try_body_def same_debts_def)
  next
    case (Inr u1)
    show ?thesis
    proof (cases x2)
      case (Inl e)
      then show ?thesis
        using b h \<open>x1 = Inr u1\<close> s q a2 by (auto simp: try_body_def same_debts_def)
    next
      case (Inr u2)
      note heads = h \<open>x1 = Inr u1\<close> s Inr d
      show ?thesis
      proof (cases x3)
        case (Inl e)
        then have "r = Inl e" "\<sigma>' = \<sigma>3" using b heads by (simp_all add: try_body_def)
        then show ?thesis using c d3 Inl q by (simp add: same_debts_def)
      next
        case (Inr k)
        have "\<sigma>' = (fst \<sigma>3, s4) \<or> \<sigma>' = (fst \<sigma>3, s5)"
          using b heads Inr n w by (cases x4) (auto simp: try_body_def)
        then show ?thesis
          using d3 Inr q u4 u5 by (auto simp: accounted_def unchanged_def same_debts_def) blast+
      qed
    qed
  qed
qed

lemma iterate_accounts:
  assumes a: "accounted valid mine \<sigma>" and i: "iterate io \<sigma> = (Inr u, \<sigma>')"
  shows "accounted valid mine \<sigma>' \<and> batch_size (fst \<sigma>') = batch_size (fst \<sigma>)"
proof -
  obtain ready \<sigma>1 where r: "retry_pending_release io \<sigma> = (Inr ready, \<sigma>1)"
    using i by (auto simp: iterate_def split: prod.splits sum.splits)
  have a1: "accounted valid mine \<sigma>1" "batch_size (fst \<sigma>1) = batch_size (fst \<sigma>)"
    "ready \<Longrightarrow> pending_release (fst \<sigma>1) = []"
    using retry_pending_accounts [OF a r] by (auto split: if_splits)
  obtain n w \<sigma>2 where g: "guarded_body io ready \<sigma>1 = (Inr (n, w), \<sigma>2)"
    and pc: "pace io n w \<sigma>2 = (Inr u, \<sigma>')"
    using i r by (auto simp: iterate_def split: prod.splits sum.splits)
  obtain x \<tau> where t: "try_body io ready \<sigma>1 = (x, \<tau>)" by (metis surj_pair)
  have "case x of Inr _ \<Rightarrow> True | Inl e \<Rightarrow> caught e"
    using g t by (auto simp: guarded_body_def split: sum.splits if_splits)
  then have at: "accounted valid mine \<tau> \<and> batch_size (fst \<tau>) = batch_size (fst \<sigma>1)"
    using try_body_accounts [OF a1(1) a1(3) t] by blast
  have "\<sigma>2 = db_failure io \<tau> \<or> \<sigma>2 = \<tau> \<or>
      \<sigma>2 = ((fst \<tau>)\<lparr>db_health := note_success (db_health (fst \<tau>))\<rparr>, snd \<tau>)"
    using g t by (auto simp: guarded_body_def split: sum.splits if_splits)
  moreover have "quiet \<tau> (db_failure io \<tau>)"
    using db_failure_quiet at by (simp add: accounted_def)
  ultimately have a2: "accounted valid mine \<sigma>2 \<and> batch_size (fst \<sigma>2) = batch_size (fst \<tau>)"
    using at by (auto simp: accounted_def same_debts_def unchanged_def)
  then have "quiet \<sigma>2 \<sigma>'" using pace_quiet [OF _ pc] by (simp add: accounted_def)
  then show ?thesis
    using quiet_accounted [of \<sigma>2 \<sigma>'] a2 at a1(2) by (simp add: same_debts_def)
qed

lemma loop_accounts:
  assumes "accounted valid mine \<sigma>" and "loop_bounded io n \<sigma> = (Inr u, \<sigma>')"
  shows "accounted valid mine \<sigma>' \<and> batch_size (fst \<sigma>') = batch_size (fst \<sigma>)"
  using assms
proof (induction n arbitrary: \<sigma>)
  case 0
  then show ?case by simp
next
  case (Suc n)
  show ?case
  proof (cases "op_stop_is_set io (snd \<sigma>)")
    case True
    then show ?thesis using Suc.prems by simp
  next
    case False
    then obtain u1 \<tau> where i: "iterate io \<sigma> = (Inr u1, \<tau>)" and l: "loop_bounded io n \<tau> = (Inr u, \<sigma>')"
      using Suc.prems(2) by (auto split: prod.splits sum.splits)
    then show ?thesis using iterate_accounts [OF Suc.prems(1) i] Suc.IH [OF _ l] by simp
  qed
qed

text \<open>While a release is refused nothing new is claimed or sent.\<close>

lemma no_claim_while_stranded:
  assumes "pending_release (fst \<sigma>) \<noteq> []" and "valid (snd \<sigma>)"
    and "op_release io (pending_release (fst \<sigma>)) (snd \<sigma>) = (Inl e, s1)" and "caught e"
    and "iterate io \<sigma> = (Inr u, \<sigma>')"
  shows "unchanged valid mine sent (snd \<sigma>) (snd \<sigma>') \<and>
    pending_release (fst \<sigma>') = pending_release (fst \<sigma>)"
proof -
  let ?\<tau> = "((fst \<sigma>)\<lparr>pending_release := pending_release (fst \<sigma>)\<rparr>, s1)"
  have u: "unchanged valid mine sent (snd \<sigma>) s1" using release_err assms(2,3) by blast
  have r: "retry_pending_release io \<sigma> = (Inr False, db_failure io ?\<tau>)"
    using assms(1,3,4) by (simp add: retry_pending_release_def Let_def)
  have q1: "quiet \<sigma> (db_failure io ?\<tau>)"
    using db_failure_quiet [of ?\<tau>] u by (auto simp: unchanged_def same_debts_def)
  obtain n w \<sigma>2 where g: "guarded_body io False (db_failure io ?\<tau>) = (Inr (n, w), \<sigma>2)"
    and pc: "pace io n w \<sigma>2 = (Inr u, \<sigma>')"
    using assms(5) r by (auto simp: iterate_def split: prod.splits sum.splits)
  have body: "quiet \<upsilon> \<upsilon>'" if v: "valid (snd \<upsilon>)" and t: "try_body io False \<upsilon> = (x, \<upsilon>')" for \<upsilon> \<upsilon>' x
  proof -
    obtain x1 \<sigma>1 where h: "maybe_heartbeat io \<upsilon> = (x1, \<sigma>1)" by (metis surj_pair)
    have k1: "quiet \<upsilon> \<sigma>1" using maybe_heartbeat_quiet [OF v h] .
    obtain x2 \<sigma>2 where s: "maybe_sweep io \<sigma>1 = (x2, \<sigma>2)" by (metis surj_pair)
    have k2: "quiet \<upsilon> \<sigma>2"
      using quiet_trans [OF k1 maybe_sweep_quiet [OF _ s]] k1 by (simp add: unchanged_def)
    obtain x4 s4 where n: "(case op_next_due io of
        None \<Rightarrow> (Inr None, snd \<sigma>2) | Some f \<Rightarrow> f (snd \<sigma>2)) = (x4, s4)" by (metis surj_pair)
    have k4: "unchanged valid mine sent (snd \<sigma>2) s4"
      using n k2 due_quiet unchanged_refl by (auto simp: unchanged_def split: option.splits)
    obtain now s5 where w: "op_wall_clock io s4 = (now, s5)" by (metis surj_pair)
    have k5: "unchanged valid mine sent s4 s5" using wall_quiet w k4 by (auto simp: unchanged_def)
    have "\<upsilon>' \<in> {\<sigma>1, \<sigma>2, (fst \<sigma>2, s4), (fst \<sigma>2, s5)}"
      using t h s n w by (auto simp: try_body_def split: sum.splits)
    then show ?thesis using k1 k2 k4 k5 by (auto simp: same_debts_def unchanged_def) blast+
  qed
  obtain x \<tau> where t: "try_body io False (db_failure io ?\<tau>) = (x, \<tau>)" by (metis surj_pair)
  have q2: "quiet (db_failure io ?\<tau>) \<tau>" using body [OF _ t] q1 by (simp add: unchanged_def)
  have "\<sigma>2 = db_failure io \<tau> \<or> \<sigma>2 = \<tau> \<or>
      \<sigma>2 = ((fst \<tau>)\<lparr>db_health := note_success (db_health (fst \<tau>))\<rparr>, snd \<tau>)"
    using g t by (auto simp: guarded_body_def split: sum.splits if_splits)
  then have q3: "quiet \<tau> \<sigma>2"
    using db_failure_quiet [of \<tau>] q2 by (auto simp: same_debts_def unchanged_def)
  have q4: "quiet \<sigma>2 \<sigma>'" using pace_quiet [OF _ pc] q3 by (simp add: unchanged_def)
  show ?thesis
    using q1 q2 q3 q4 by (auto simp: same_debts_def unchanged_def)
qed

end

section \<open>Outages\<close>

text \<open>
  The contract of a backend whose failures are ordinary: every call takes time (\<open>age\<close>), and what it
  raises, if it may raise, is an \<open>Exception\<close>.  Then the loop never dies.
\<close>

definition ordinary :: "'a result \<Rightarrow> bool" where
  "ordinary r = (case r of Inl e \<Rightarrow> caught e | Inr _ \<Rightarrow> True)"

lemma ordinary_simps [simp]: "ordinary (Inl e) = caught e" "ordinary (Inr x)"
  by (simp_all add: ordinary_def)

locale resilient_backend = dispatch_backend io valid mine sent
  for io :: "'s dispatch_io" and valid :: "'s \<Rightarrow> bool" and mine :: "'s \<Rightarrow> string set"
    and sent :: "'s \<Rightarrow> string list" +
  fixes age :: "'s \<Rightarrow> nat"
  assumes claim_step: "op_claim io n s = (r1, s') \<Longrightarrow> age s < age s' \<and> ordinary r1"
    and release_step: "op_release io ids s = (r2, s') \<Longrightarrow> age s < age s' \<and> ordinary r2"
    and send_step: "op_dispatch_fn io i s = (r3, s') \<Longrightarrow> age s < age s' \<and> (\<forall>e. r3 = Some e \<longrightarrow> caught e)"
    and sweep_step: "op_run_sweep io s = (r4, s') \<Longrightarrow> age s < age s' \<and> ordinary r4"
    and beat_step: "op_heartbeat io = Some f \<Longrightarrow> f s = (r5, s') \<Longrightarrow> age s < age s' \<and> ordinary r5"
    and due_step: "op_next_due io = Some g \<Longrightarrow> g s = (r6, s') \<Longrightarrow> age s < age s' \<and> ordinary r6"
    and wait_step: "op_wait_for_work io t s = (r7, s') \<Longrightarrow> age s < age s' \<and> (\<exists>b. r7 = Inr b)"
    and mono_step: "op_monotonic io s = (r8, s') \<Longrightarrow> age s < age s'"
    and wall_step: "op_wall_clock io s = (r9, s') \<Longrightarrow> age s < age s'"
    and stop_step: "op_stop_wait io t s = (r10, s') \<Longrightarrow> age s < age s' \<and> (\<exists>u. r10 = Inr u)"
begin

lemma db_failure_age: "age (snd \<sigma>) < age (snd (db_failure io \<sigma>))"
  by (auto simp: db_failure_def split: prod.split dest: mono_step)

lemma read_due_age: "read_due io c s = (due, c', s') \<Longrightarrow> age s \<le> age s'"
  by (auto simp: read_due_def Let_def split: option.splits prod.splits dest: mono_step)

lemma read_remaining_age: "read_remaining io b s = (r, s') \<Longrightarrow> age s \<le> age s'"
  by (auto simp: read_remaining_def split: if_splits prod.splits dest: mono_step)

lemma retry_pending_steps:
  assumes "retry_pending_release io \<sigma> = (r, \<sigma>')"
  shows "\<exists>ready. r = Inr ready \<and> age (snd \<sigma>) \<le> age (snd \<sigma>') \<and>
    (\<not> ready \<longrightarrow> age (snd \<sigma>) < age (snd \<sigma>'))"
proof (cases "pending_release (fst \<sigma>) = []")
  case True
  then show ?thesis using assms by (auto simp: retry_pending_release_def intro!: exI [of _ True])
next
  case False
  obtain x s1 where rel: "op_release io (pending_release (fst \<sigma>)) (snd \<sigma>) = (x, s1)"
    by (metis surj_pair)
  have a: "age (snd \<sigma>) < age s1" "ordinary x" using release_step [OF rel] by auto
  show ?thesis
  proof (cases x)
    case (Inl e)
    let ?\<tau> = "((fst \<sigma>)\<lparr>pending_release := pending_release (fst \<sigma>)\<rparr>, s1)"
    have "r = Inr False" "\<sigma>' = db_failure io ?\<tau>"
      using assms False rel Inl a(2) by (auto simp: retry_pending_release_def Let_def)
    then show ?thesis
      using db_failure_age [of ?\<tau>] a(1) by (auto intro!: exI [of _ False])
  next
    case (Inr u)
    then have "r = Inr True" "snd \<sigma>' = s1"
      using assms False rel by (auto simp: retry_pending_release_def Let_def)
    then show ?thesis using a(1) by (intro exI [of _ True]) simp
  qed
qed

lemma release_quietly_steps:
  assumes "release_quietly io ids \<sigma> = (r, \<sigma>')"
  shows "(\<exists>u. r = Inr u) \<and> age (snd \<sigma>) < age (snd \<sigma>')"
proof -
  obtain x s1 where rel: "op_release io ids (snd \<sigma>) = (x, s1)" by (metis surj_pair)
  have a: "age (snd \<sigma>) < age s1" "ordinary x" using release_step [OF rel] by auto
  let ?\<tau> = "((fst \<sigma>)\<lparr>pending_release := fromkeys (pending_release (fst \<sigma>) @ ids)\<rparr>, s1)"
  show ?thesis
    using assms rel a db_failure_age [of ?\<tau>]
    by (cases x) (auto simp: release_quietly_def)
qed

lemma send_ids_steps:
  "send_ids io ids k s = (out, s') \<Longrightarrow> age s \<le> age s' \<and> (\<forall>e. out \<noteq> SendEscaped e)"
proof (induction ids arbitrary: k s)
  case Nil
  then show ?case by auto
next
  case (Cons i ids)
  obtain x s1 where d: "op_dispatch_fn io i s = (x, s1)" by (metis surj_pair)
  then have "age s < age s1" "\<forall>e. x = Some e \<longrightarrow> caught e" using send_step by blast+
  then show ?case using Cons.prems d Cons.IH [of "Suc k" s1] by (cases x) auto
qed

lemma dispatch_batch_steps:
  assumes "dispatch_batch io \<sigma> = (r, \<sigma>')"
  shows "ordinary r \<and> age (snd \<sigma>) < age (snd \<sigma>')"
proof -
  obtain x s1 where cl: "op_claim io (batch_size (fst \<sigma>)) (snd \<sigma>) = (x, s1)" by (metis surj_pair)
  have a: "age (snd \<sigma>) < age s1" "ordinary x" using claim_step [OF cl] by auto
  show ?thesis
  proof (cases x)
    case (Inl e)
    then show ?thesis using assms cl a by (auto simp: dispatch_batch_def Let_def)
  next
    case (Inr ids)
    obtain out s2 where sd: "send_ids io ids 0 s1 = (out, s2)" by (metis surj_pair)
    have b: "age s1 \<le> age s2" "\<And>e. out \<noteq> SendEscaped e" using send_ids_steps [OF sd] by auto
    show ?thesis
    proof (cases "\<exists>j. ids \<noteq> [] \<and> out = SendFailed j")
      case False
      then show ?thesis
        using assms cl Inr a sd b by (cases out) (auto simp: dispatch_batch_def Let_def split: if_splits)
    next
      case True
      then obtain j where j: "ids \<noteq> []" "out = SendFailed j" by blast
      obtain y d3 s3 where rq: "release_quietly io (drop j ids) (fst \<sigma>, s2) = (y, d3, s3)"
        by (metis prod_cases3)
      have c: "\<exists>u. y = Inr u" "age s2 < age s3" using release_quietly_steps [OF rq] by auto
      obtain now s4 where mo: "op_monotonic io s3 = (now, s4)" by (metis surj_pair)
      have "age s3 < age s4" using mono_step [OF mo] .
      then show ?thesis
        using assms cl Inr sd j rq c mo a b by (auto simp: dispatch_batch_def Let_def)
    qed
  qed
qed

lemma maybe_heartbeat_steps:
  assumes "maybe_heartbeat io \<sigma> = (r, \<sigma>')"
  shows "(\<exists>b. r = Inr b) \<and> age (snd \<sigma>) \<le> age (snd \<sigma>')"
proof -
  obtain due c s where rd: "read_due io (d_heartbeat_clock (fst \<sigma>)) (snd \<sigma>) = (due, c, s)"
    by (metis prod_cases3)
  have a: "age (snd \<sigma>) \<le> age s" using read_due_age [OF rd] .
  show ?thesis
  proof (cases "due \<and> op_heartbeat io \<noteq> None")
    case False
    then show ?thesis using assms a by (auto simp: maybe_heartbeat_def rd Let_def split: if_splits option.splits)
  next
    case True
    then obtain f where f: "op_heartbeat io = Some f" by blast
    obtain x s1 where x: "f s = (x, s1)" by (metis surj_pair)
    then show ?thesis
      using assms a True f beat_step [OF f x]
      by (cases x) (auto simp: maybe_heartbeat_def rd Let_def)
  qed
qed

lemma maybe_sweep_steps:
  assumes "maybe_sweep io \<sigma> = (r, \<sigma>')"
  shows "(\<exists>b. r = Inr b) \<and> age (snd \<sigma>) \<le> age (snd \<sigma>')"
proof -
  obtain due c s where rd: "read_due io (d_sweep_clock (fst \<sigma>)) (snd \<sigma>) = (due, c, s)"
    by (metis prod_cases3)
  have a: "age (snd \<sigma>) \<le> age s" using read_due_age [OF rd] .
  obtain x s1 where x: "op_run_sweep io s = (x, s1)" by (metis surj_pair)
  show ?thesis
    using assms a x sweep_step [OF x] by (cases x; cases due) (auto simp: maybe_sweep_def rd Let_def)
qed

lemma try_body_steps:
  assumes "try_body io ready \<sigma> = (r, \<sigma>')"
  shows "ordinary r \<and> age (snd \<sigma>) \<le> age (snd \<sigma>') \<and> (ready \<longrightarrow> age (snd \<sigma>) < age (snd \<sigma>'))"
proof -
  obtain x1 \<sigma>1 where h: "maybe_heartbeat io \<sigma> = (x1, \<sigma>1)" by (metis surj_pair)
  obtain b1 where b1: "x1 = Inr b1" and a1: "age (snd \<sigma>) \<le> age (snd \<sigma>1)"
    using maybe_heartbeat_steps [OF h] by blast
  obtain x2 \<sigma>2 where s: "maybe_sweep io \<sigma>1 = (x2, \<sigma>2)" by (metis surj_pair)
  obtain b2 where b2: "x2 = Inr b2" and a2: "age (snd \<sigma>1) \<le> age (snd \<sigma>2)"
    using maybe_sweep_steps [OF s] by blast
  obtain x3 \<sigma>3 where d: "(if \<not> ready then (Inr 0, \<sigma>2) else dispatch_batch io \<sigma>2) = (x3, \<sigma>3)"
    by (metis surj_pair)
  have a3: "ordinary x3 \<and> age (snd \<sigma>2) \<le> age (snd \<sigma>3) \<and> (ready \<longrightarrow> age (snd \<sigma>2) < age (snd \<sigma>3))"
    using d dispatch_batch_steps [of \<sigma>2 x3 \<sigma>3] by (auto split: if_splits)
  obtain x4 s4 where n: "(case op_next_due io of
      None \<Rightarrow> (Inr None, snd \<sigma>3) | Some f \<Rightarrow> f (snd \<sigma>3)) = (x4, s4)" by (metis surj_pair)
  have a4: "ordinary x4 \<and> age (snd \<sigma>3) \<le> age s4"
    using n by (auto split: option.splits dest: due_step)
  obtain now s5 where w: "op_wall_clock io s4 = (now, s5)" by (metis surj_pair)
  have a5: "age s4 < age s5" using wall_step [OF w] .
  show ?thesis
  proof (cases x3)
    case (Inl e)
    then have "r = Inl e" "\<sigma>' = \<sigma>3" using assms h b1 s b2 d by (simp_all add: try_body_def)
    then show ?thesis using Inl a1 a2 a3 by auto
  next
    case (Inr k)
    then show ?thesis
      using assms h b1 s b2 d n w a1 a2 a3 a4 a5 by (cases x4) (auto simp: try_body_def)
  qed
qed

lemma guarded_body_steps:
  assumes "guarded_body io ready \<sigma> = (r, \<sigma>')"
  shows "(\<exists>x. r = Inr x) \<and> age (snd \<sigma>) \<le> age (snd \<sigma>') \<and> (ready \<longrightarrow> age (snd \<sigma>) < age (snd \<sigma>'))"
proof -
  obtain x \<tau> where t: "try_body io ready \<sigma> = (x, \<tau>)" by (metis surj_pair)
  show ?thesis
    using assms t try_body_steps [OF t] db_failure_age [of \<tau>]
    by (cases x) (auto simp: guarded_body_def split: if_splits)
qed

lemma pace_steps:
  assumes "pace io n w \<sigma> = (r, \<sigma>')"
  shows "(\<exists>u. r = Inr u) \<and> age (snd \<sigma>) \<le> age (snd \<sigma>')"
proof -
  obtain r1 s1 where r1: "read_remaining io (health (fst \<sigma>)) (snd \<sigma>) = (r1, s1)" by (metis surj_pair)
  obtain r2 s2 where r2: "read_remaining io (db_health (fst \<sigma>)) s1 = (r2, s2)" by (metis surj_pair)
  obtain x s3 where x: "op_wait_for_work io w s2 = (x, s3)" by (metis surj_pair)
  obtain y s4 where y: "op_stop_wait io (max r1 r2) s2 = (y, s4)" by (metis surj_pair)
  show ?thesis
    using assms read_remaining_age [OF r1] read_remaining_age [OF r2] wait_step [OF x] stop_step [OF y]
    by (auto simp: pace_def r1 r2 x y Let_def split: if_splits)
qed

lemma iterate_steps:
  assumes "iterate io \<sigma> = (r, \<sigma>')"
  shows "r = Inr () \<and> age (snd \<sigma>) < age (snd \<sigma>')"
proof -
  obtain x \<sigma>1 where x: "retry_pending_release io \<sigma> = (x, \<sigma>1)" by (metis surj_pair)
  obtain ready where ready: "x = Inr ready" and a1: "age (snd \<sigma>) \<le> age (snd \<sigma>1)"
    "\<not> ready \<longrightarrow> age (snd \<sigma>) < age (snd \<sigma>1)"
    using retry_pending_steps [OF x] by blast
  obtain y \<sigma>2 where y: "guarded_body io ready \<sigma>1 = (y, \<sigma>2)" by (metis surj_pair)
  obtain n w where nw: "y = Inr (n, w)" and a2: "age (snd \<sigma>1) \<le> age (snd \<sigma>2)"
    "ready \<longrightarrow> age (snd \<sigma>1) < age (snd \<sigma>2)"
    using guarded_body_steps [OF y] by (metis surj_pair)
  have "pace io n w \<sigma>2 = (r, \<sigma>')" using assms x ready y nw by (simp add: iterate_def)
  then show ?thesis using pace_steps [of n w \<sigma>2 r \<sigma>'] a1 a2 by (cases ready) auto
qed

lemma loop_returns: "\<exists>\<sigma>'. loop_bounded io n \<sigma> = (Inr (), \<sigma>')"
proof (induction n arbitrary: \<sigma>)
  case 0
  then show ?case by simp
next
  case (Suc n)
  obtain r \<tau> where i: "iterate io \<sigma> = (r, \<tau>)" by (metis surj_pair)
  then have "r = Inr ()" using iterate_steps by blast
  then show ?case using i Suc [of \<tau>] by simp
qed

text \<open>A stop event that is set for good ends the loop.\<close>

lemma loop_stops:
  assumes "\<And>s. N \<le> age s \<Longrightarrow> op_stop_is_set io s"
  shows "\<exists>n \<sigma>'. loop_bounded io n \<sigma> = (Inr (), \<sigma>') \<and> op_stop_is_set io (snd \<sigma>')"
proof (induction "N - age (snd \<sigma>)" arbitrary: \<sigma> rule: less_induct)
  case less
  show ?case
  proof (cases "op_stop_is_set io (snd \<sigma>)")
    case True
    then show ?thesis by (intro exI [of _ 0]) simp
  next
    case False
    then have "age (snd \<sigma>) < N" using assms not_le by blast
    moreover obtain r \<tau> where i: "iterate io \<sigma> = (r, \<tau>)" by (metis surj_pair)
    moreover from this have r: "r = Inr ()" "age (snd \<sigma>) < age (snd \<tau>)" using iterate_steps by blast+
    ultimately have "N - age (snd \<tau>) < N - age (snd \<sigma>)" by linarith
    then obtain n \<sigma>' where "loop_bounded io n \<tau> = (Inr (), \<sigma>')" "op_stop_is_set io (snd \<sigma>')"
      using less [of \<tau>] by blast
    then show ?thesis using False i r by (intro exI [of _ "Suc n"]) simp
  qed
qed

end

end
