(* ===== verification/Sa_Backend.thy ===== *)
theory Sa_Backend
  imports Sa_Dispatch Sa_Executor Sa_Queries Dispatch_Contract
begin

text \<open>
  The SQLAlchemy backend under the dispatcher: a site whose database, transport and clocks
  the dispatcher calls, and the proof that it meets the contract of
  \<open>Dispatch_Contract\<close>.

  Time is counted in calls.  At call \<open>k\<close> the site says whether the database or the transport
  is down, what the clocks read, and which workers and operators acted since the last call;
  these are arbitrary functions of \<open>k\<close>, so a statement about all sites is a statement about
  every interleaving of one dispatcher with workers, operators and outages.
\<close>

datatype outside_event =
    WorkerStarts string | OperatorRetries string | OperatorKills string

record site =
  v_backend :: backend
  v_version :: string
  v_clk :: "nat \<Rightarrow> clock"
  v_mono :: "nat \<Rightarrow> rat"
  v_locked :: "nat \<Rightarrow> nat \<Rightarrow> string \<Rightarrow> bool"
  v_database_down :: "nat \<Rightarrow> bool"
  v_transport_down :: "nat \<Rightarrow> bool"
  v_outside :: "nat \<Rightarrow> outside_event list"
  v_stopped :: "nat \<Rightarrow> bool"

record world =
  w_db :: ledger
  w_notes :: "notification list"
  w_heartbeats :: heartbeats
  w_sent :: "string list"
  w_handed :: "string list"   \<comment> \<open>handed to the transport since their last claim\<close>
  w_calls :: nat

definition no_policies :: "(unit, unit) policy_state" where
  "no_policies = \<lparr>registered = [], project_policies = []\<rparr>"

fun outside_step :: "clock \<Rightarrow> outside_event \<Rightarrow> ledger \<Rightarrow> ledger" where
  "outside_step clk (WorkerStarts i) db = snd (process_claim no_policies clk i db)"
| "outside_step clk (OperatorRetries i) db =
     working (snd (retry_task False clk i (begin_transaction db [])))"
| "outside_step clk (OperatorKills i) db =
     working (snd (kill_task clk i (begin_transaction db [])))"

text \<open>Each call of the dispatcher finds the world as the others left it.\<close>

definition tick :: "site \<Rightarrow> world \<Rightarrow> world" where
  "tick v w = w\<lparr>w_db := fold (outside_step (v_clk v (w_calls w))) (v_outside v (w_calls w)) (w_db w),
                w_calls := Suc (w_calls w)\<rparr>"

definition database_error :: exn where
  "database_error = py_exn (UserC ''OperationalError'' [ExceptionC]) ''database is down''"

definition transport_error :: exn where
  "transport_error = py_exn (UserC ''ConnectionError'' [ExceptionC]) ''broker is down''"

definition site_claim :: "site \<Rightarrow> nat \<Rightarrow> world \<Rightarrow> string list result \<times> world" where
  "site_claim v n w =
     (let k = w_calls w; w1 = tick v w in
      if v_database_down v k then (Inl database_error, w1)
      else let (ids, db) = claim (v_backend v) (v_clk v k) (v_locked v k) alone n (w_db w1)
           in (Inr ids, w1\<lparr>w_db := db,
                           w_handed := filter (\<lambda>i. i \<notin> set ids) (w_handed w1)\<rparr>))"

definition site_release :: "site \<Rightarrow> string list \<Rightarrow> world \<Rightarrow> unit result \<times> world" where
  "site_release v ids w =
     (let k = w_calls w; w1 = tick v w in
      if v_database_down v k then (Inl database_error, w1)
      else (Inr (), w1\<lparr>w_db := release (v_clk v k) ids (w_db w1)\<rparr>))"

definition site_sweep :: "site \<Rightarrow> world \<Rightarrow> sweep_result result \<times> world" where
  "site_sweep v w =
     (let k = w_calls w; w1 = tick v w in
      if v_database_down v k then (Inl database_error, w1)
      else let (result, db, notes) = run_sweep (v_backend v) (\<lambda>j n. v_clk v k (3 * j + n)) (v_locked v k 0)
                 (\<lambda>_. alone) (w_db w1) (w_notes w1)
           in (Inr result, w1\<lparr>w_db := db, w_notes := notes\<rparr>))"

definition site_heartbeat :: "site \<Rightarrow> world \<Rightarrow> unit result \<times> world" where
  "site_heartbeat v w =
     (let k = w_calls w; w1 = tick v w in
      if v_database_down v k then (Inl database_error, w1)
      else (Inr (), w1\<lparr>w_heartbeats :=
             heartbeat (v_version v) (v_backend v) (v_clk v k 0) (w_heartbeats w1)\<rparr>))"

definition site_next_due :: "site \<Rightarrow> world \<Rightarrow> datetime option result \<times> world" where
  "site_next_due v w =
     (let k = w_calls w; w1 = tick v w in
      if v_database_down v k then (Inl database_error, w1)
      else (Inr (next_due (v_backend v) (v_clk v k 0) (w_db w1)), w1))"

definition site_dispatch :: "site \<Rightarrow> string \<Rightarrow> world \<Rightarrow> exn option \<times> world" where
  "site_dispatch v i w =
     (let k = w_calls w; w1 = tick v w in
      if v_transport_down v k then (Some transport_error, w1)
      else (None, w1\<lparr>w_sent := w_sent w1 @ [i], w_handed := i # w_handed w1\<rparr>))"

definition site_close :: "site \<Rightarrow> world \<Rightarrow> unit result \<times> world" where
  "site_close v w =
     (let k = w_calls w; w1 = tick v w
      in (Inr (), w1\<lparr>w_heartbeats :=
             close_heartbeat (\<not> v_database_down v k) (v_backend v) (w_heartbeats w1)\<rparr>))"

definition site_io :: "site \<Rightarrow> world dispatch_io" where
  "site_io v =
     \<lparr>op_claim = site_claim v, op_release = site_release v, op_run_sweep = site_sweep v,
      op_heartbeat = Some (site_heartbeat v), op_next_due = Some (site_next_due v),
      op_wait_for_work = (\<lambda>t w. (Inr False, tick v w)), op_close = site_close v,
      op_dispatch_fn = site_dispatch v,
      op_monotonic = (\<lambda>w. (v_mono v (w_calls w), tick v w)),
      op_wall_clock = (\<lambda>w. (v_clk v (w_calls w) 0, tick v w)),
      op_stop_wait = (\<lambda>t w. (Inr (), tick v w)), op_stop_is_set = (\<lambda>w. v_stopped v (w_calls w))\<rparr>"

section \<open>The contract\<close>

definition dispatching :: "ledger \<Rightarrow> string set" where
  "dispatching db = row_id ` {r \<in> set db. status r = DISPATCHING}"

definition world_valid :: "world \<Rightarrow> bool" where
  "world_valid w = ledger_wf (w_db w)"

definition world_mine :: "world \<Rightarrow> string set" where
  "world_mine w = dispatching (w_db w) - set (w_handed w)"

interpretation bare: row_invariant "\<lambda>_. True"
  by unfold_locales simp

lemma table_ok_bare: "table_ok (\<lambda>_. True) db = ledger_wf db"
  by (simp add: table_ok_def list_all_iff)

lemma in_dispatching: "i \<in> dispatching db \<longleftrightarrow> (\<exists>r \<in> set db. row_id r = i \<and> status r = DISPATCHING)"
  by (auto simp: dispatching_def)

lemma dispatching_update:
  assumes "\<And>r. r \<in> set db \<Longrightarrow> P r \<Longrightarrow> status (f r) = DISPATCHING \<Longrightarrow> row_id (f r) \<in> A"
  shows "dispatching (update_where P f db) \<subseteq> dispatching db \<union> A"
  using assms by (auto simp: in_dispatching set_update_where)

lemma dispatching_leave:
  assumes "\<And>r. r \<in> set db \<Longrightarrow> P r \<Longrightarrow> status (f r) \<noteq> DISPATCHING"
  shows "dispatching (update_where P f db) \<subseteq> dispatching db"
  using assms by (auto simp: in_dispatching set_update_where)

lemma dispatching_set_row:
  "(\<And>r. status (f r) \<noteq> DISPATCHING) \<Longrightarrow> dispatching (set_row i f db) \<subseteq> dispatching db"
  by (rule dispatching_leave) simp

lemma claim_dispatching:
  "dispatching (snd (claim b clk locked alone n db))
     \<subseteq> dispatching db \<union> set (fst (claim b clk locked alone n db))"
proof -
  let ?v = "claim_view b clk locked alone n db"
  have view: "dispatching ?v \<subseteq> dispatching db"
    by (auto simp: claim_view_def expire_rows_def dest!: subsetD [OF dispatching_leave, rotated])
  have "dispatching (snd (claim b clk locked alone n db))
      \<subseteq> dispatching ?v \<union> set (fst (claim b clk locked alone n db))"
  proof (cases "candidates b clk locked n ?v = []")
    case True
    then show ?thesis by (simp add: claim_eq)
  next
    case False
    then show ?thesis
      by (simp add: claim_eq Let_def) (rule dispatching_update, auto)
  qed
  with view show ?thesis by blast
qed

lemma release_dispatching: "dispatching (release clk ids db) \<subseteq> dispatching db - set ids"
  by (auto simp: release_def in_dispatching set_update_where)

lemma sweep_dispatching_set:
  "dispatching (working (snd (sweep is_pg clk locked (\<lambda>_. alone) m d limit t)))
     \<subseteq> dispatching (working t)"
proof -
  have e: "dispatching (working (snd (sweep_expired c l alone limit t))) \<subseteq> dispatching (working t)"
    and f: "dispatching (working (snd (sweep_failed is_pg c alone limit t))) \<subseteq> dispatching (working t)"
    and s: "dispatching (working (snd (sweep_stuck is_pg c alone m limit t))) \<subseteq> dispatching (working t)"
    and p: "dispatching (working (snd (sweep_dispatching is_pg c alone d limit t)))
      \<subseteq> dispatching (working t)" for c l t
    by (auto simp: sweep_defs Let_def update_returning_def in_dispatching set_update_where)
  obtain e1 t1 where t1: "sweep_expired (clk 0) locked alone limit t = (e1, t1)" by (metis surj_pair)
  obtain f1 t2 where t2: "sweep_failed is_pg (clk 1) alone limit t1 = (f1, t2)" by (metis surj_pair)
  obtain p1 t3 where t3: "sweep_dispatching is_pg (clk 2) alone d limit t2 = (p1, t3)"
    by (metis surj_pair)
  obtain s1 t4 where t4: "sweep_stuck is_pg (clk 3) alone m limit t3 = (s1, t4)" by (metis surj_pair)
  have "dispatching (working t4) \<subseteq> dispatching (working t)"
    using e [of "clk 0" locked t] f [of "clk 1" t1] p [of "clk 2" t2] s [of "clk 3" t3] t1 t2 t3 t4
    by simp
  then show ?thesis by (simp add: sweep_def t1 t2 t3 t4 del: One_nat_def)
qed

lemma outside_step_quiet:
  assumes "ledger_wf db"
  shows "ledger_wf (outside_step clk ev db) \<and> dispatching (outside_step clk ev db) \<subseteq> dispatching db"
proof (cases ev)
  case (WorkerStarts i)
  then show ?thesis
    using bare.inv_process_claim [of db no_policies clk i] assms
    by (auto simp: table_ok_bare process_claim_def Let_def dest!: subsetD [OF dispatching_set_row, rotated]
        split: option.splits)
next
  case (OperatorRetries i)
  then show ?thesis
    using bare.inv_retry_task [of "begin_transaction db []" False clk i] assms
    by (auto simp: table_ok_bare retry_task_def Let_def begin_transaction_def
        dest!: subsetD [OF dispatching_set_row, rotated] split: option.splits)
next
  case (OperatorKills i)
  then show ?thesis
    using bare.inv_kill_task [of "begin_transaction db []" clk i] assms
    by (auto simp: table_ok_bare kill_task_def Let_def begin_transaction_def
        dest!: subsetD [OF dispatching_set_row, rotated] split: option.splits)
qed

lemma outside_quiet:
  "ledger_wf db \<Longrightarrow> ledger_wf (fold (outside_step clk) evs db) \<and>
   dispatching (fold (outside_step clk) evs db) \<subseteq> dispatching db"
proof (induction evs arbitrary: db)
  case Nil
  then show ?case by simp
next
  case (Cons ev evs)
  then show ?case using outside_step_quiet [OF Cons.prems, of clk ev] by fastforce
qed

lemma tick_quiet: "world_valid w \<Longrightarrow> unchanged world_valid world_mine w_sent w (tick v w)"
  using outside_quiet [of "w_db w"]
  by (auto simp: unchanged_def world_valid_def world_mine_def tick_def)

lemma valid_tick: "world_valid w \<Longrightarrow> world_valid (tick v w)"
  using tick_quiet [of w v] by (simp add: unchanged_def)

text \<open>
  Every call is a tick followed by a change of its own: it is enough to show the change
  quiet on valid worlds.
\<close>

lemma quiet_after_tick:
  assumes "world_valid w"
    and "world_valid (tick v w) \<Longrightarrow> unchanged world_valid world_mine w_sent (tick v w) w'"
  shows "unchanged world_valid world_mine w_sent w w'"
  using tick_quiet [OF assms(1), of v] assms(2) [OF valid_tick [OF assms(1)]]
  by (auto simp: unchanged_def)

lemma tick_changed: "world_mine (tick v w) \<subseteq> world_mine w" "w_sent (tick v w) = w_sent w"
  if "world_valid w"
  using tick_quiet [OF that, of v] by (auto simp: unchanged_def)

lemma claim_valid:
  assumes "ledger_wf db"
  shows "ledger_wf (snd (claim b clk locked alone n db))"
    and "distinct (fst (claim b clk locked alone n db))"
proof -
  show "ledger_wf (snd (claim b clk locked alone n db))"
    using bare.inv_claim [of db alone b clk locked n] assms by (simp add: table_ok_bare)
  have "ledger_wf (claim_view b clk locked alone n db)"
    using bare.inv_claim_view [of db alone b clk locked n] assms by (simp add: table_ok_bare)
  then have "distinct (candidates b clk locked n (claim_view b clk locked alone n db))"
    by (intro distinct_select_ids ledger_wf_distinct)
  then show "distinct (fst (claim b clk locked alone n db))"
    by (simp add: claim_eq Let_def)
qed

lemma release_valid: "ledger_wf db \<Longrightarrow> ledger_wf (release clk ids db)"
  using bare.inv_release [of db clk ids] by (simp add: table_ok_bare)

lemma run_sweep_quiet:
  assumes "ledger_wf db" and "run_sweep b clk locked (\<lambda>_. alone) db sent = (r, db', notes)"
  shows "ledger_wf db' \<and> dispatching db' \<subseteq> dispatching db"
proof -
  have "ledger_wf db'"
    using bare.inv_run_sweep [of db "\<lambda>_. alone" clk locked b sent] assms by (simp add: table_ok_bare)
  moreover have "dispatching db' \<subseteq> dispatching db"
    using assms(2) sweep_dispatching_set [of "b_postgresql b" clk locked
        "b_stuck_threshold_minutes b" "b_dispatch_timeout_seconds b" "b_sweep_limit b"
        "begin_transaction db sent"]
    by (auto simp: run_sweep_def Let_def begin_transaction_def commit_def split: prod.splits)
  ultimately show ?thesis by simp
qed

lemma tick_beats_quiet: "world_valid w \<Longrightarrow>
    unchanged world_valid world_mine w_sent w ((tick v w)\<lparr>w_heartbeats := h\<rparr>)"
  using tick_quiet [of w v] by (simp add: unchanged_def world_valid_def world_mine_def)

interpretation sa: dispatch_backend "site_io v" world_valid world_mine w_sent for v
proof unfold_locales
  fix s :: world and n ids s'
  assume valid: "world_valid s" and c: "op_claim (site_io v) n s = (Inr ids, s')"
  let ?w = "tick v s"
  let ?r = "claim (v_backend v) (v_clk v (w_calls s)) (v_locked v (w_calls s)) alone n (w_db ?w)"
  have r: "ids = fst ?r" "s' = ?w\<lparr>w_db := snd ?r,
      w_handed := filter (\<lambda>i. i \<notin> set ids) (w_handed ?w)\<rparr>"
    using c by (auto simp: site_io_def site_claim_def Let_def split: if_splits prod.splits)
  have wf: "ledger_wf (w_db ?w)" using valid_tick [OF valid] by (simp add: world_valid_def)
  show "world_valid s' \<and> distinct ids \<and> length ids \<le> n \<and>
      world_mine s' \<subseteq> world_mine s \<union> set ids \<and> w_sent s' = w_sent s"
    using claim_valid [OF wf] claim_length [of _ _ _ alone n] tick_changed [OF valid, of v]
      claim_dispatching [of "v_backend v" "v_clk v (w_calls s)" "v_locked v (w_calls s)" n "w_db ?w"]
    unfolding r by (auto simp: world_valid_def world_mine_def)
next
  fix s :: world and ids u s'
  assume valid: "world_valid s" and c: "op_release (site_io v) ids s = (Inr u, s')"
  have r: "s' = (tick v s)\<lparr>w_db := release (v_clk v (w_calls s)) ids (w_db (tick v s))\<rparr>"
    using c by (auto simp: site_io_def site_release_def Let_def split: if_splits)
  have wf: "ledger_wf (w_db (tick v s))" using valid_tick [OF valid] by (simp add: world_valid_def)
  show "world_valid s' \<and> world_mine s' \<subseteq> world_mine s - set ids \<and> w_sent s' = w_sent s"
    using tick_changed [OF valid, of v] release_valid [OF wf]
      release_dispatching [of "v_clk v (w_calls s)" ids "w_db (tick v s)"]
    unfolding r by (auto simp: world_valid_def world_mine_def)
next
  fix s :: world and i s'
  assume valid: "world_valid s" and c: "op_dispatch_fn (site_io v) i s = (None, s')"
  then show "world_valid s' \<and> world_mine s' \<subseteq> world_mine s - {i} \<and> w_sent s' = w_sent s @ [i]"
    using tick_changed [OF valid, of v] valid_tick [OF valid, of v]
    by (auto simp: site_io_def site_dispatch_def Let_def world_valid_def world_mine_def
        split: if_splits)
next
  fix s :: world and r1 s'
  assume valid: "world_valid s" and c: "op_run_sweep (site_io v) s = (r1, s')"
  show "unchanged world_valid world_mine w_sent s s'"
  proof (rule quiet_after_tick [OF valid])
    assume "world_valid (tick v s)"
    then show "unchanged world_valid world_mine w_sent (tick v s) s'"
      using c by (auto simp: site_io_def site_sweep_def Let_def unchanged_def world_valid_def
          world_mine_def split: if_splits prod.splits dest: run_sweep_quiet)
        (use run_sweep_quiet in blast)
  qed
qed (auto simp: site_io_def site_claim_def site_release_def site_dispatch_def site_heartbeat_def
    site_next_due_def Let_def split: if_splits prod.splits intro: tick_quiet tick_beats_quiet)

lemma caught_site_errors [simp]: "caught database_error" "caught transport_error"
  by (simp_all add: database_error_def transport_error_def py_exn_def isinstance_def)

interpretation sa: resilient_backend "site_io v" world_valid world_mine w_sent w_calls for v
  by unfold_locales
    (auto simp: site_io_def site_claim_def site_release_def site_dispatch_def site_heartbeat_def
      site_next_due_def site_sweep_def tick_def Let_def split: if_splits prod.splits)

end
