(* ===== verification/Dispatcher_Properties.thy ===== *)
theory Dispatcher_Properties
  imports Sa_Backend Claim_Properties
begin

text \<open>
  Properties of the dispatcher loop over the SQLAlchemy backend: one dispatcher at a site where the
  database and the transport fail at will, and workers and operators act between any two of its
  calls.  They are the facts of the contract \<open>resilient_backend\<close>, interpreted on \<open>site_io\<close>.
\<close>

section \<open>Helpers\<close>

lemma close_keeps:
  "snd (snd (finally_close (site_io v) (r, d, w))) =
     (tick v w)\<lparr>w_heartbeats := close_heartbeat (\<not> v_database_down v (w_calls w)) (v_backend v)
        (w_heartbeats (tick v w))\<rparr>"
  "fst (snd (finally_close (site_io v) (r, d, w))) = d"
  "fst (finally_close (site_io v) (r, d, w)) = r"
  by (simp_all add: finally_close_def site_io_def site_close_def Let_def)

lemma run_site:
  "\<exists>d1 w1. loop_bounded (site_io v) n (d, w) = (Inr (), d1, w1) \<and>
     run (site_io v) (Some n) (d, w) = Some (finally_close (site_io v) (Inr (), d1, w1))"
  using sa.loop_returns [of v n "(d, w)"] by (auto simp: run_def)

lemma dispatcher_init_fields:
  assumes "dispatcher_init n idle iv base cap db_cap hb = Inr d"
  shows "pending_release d = [] \<and> batch_size d = nat n \<and> 1 \<le> n \<and>
    health d = backoff_init base cap \<and> db_health d = backoff_init base db_cap"
  using assms by (auto simp: dispatcher_init_def split: if_splits)

lemma mine_settled:
  "world_mine w \<subseteq> S \<longleftrightarrow>
     (\<forall>r \<in> set (w_db w). status r = DISPATCHING \<longrightarrow> row_id r \<in> set (w_handed w) \<or> row_id r \<in> S)"
  by (auto simp: world_mine_def dispatching_def)

section \<open>Sample sites\<close>

definition sample_site :: site where
  "sample_site = \<lparr>v_backend = sample_backend, v_version = ''1'', v_clk = (\<lambda>k j. 1000 + int (8 * k + j)),
     v_mono = of_nat, v_locked = (\<lambda>_ _ _. False), v_database_down = (\<lambda>k. k = 3 \<or> k = 5),
     v_transport_down = (\<lambda>k. k = 3), v_outside = (\<lambda>k. if k = 1 then [OperatorKills ''a''] else []),
     v_stopped = (\<lambda>k. 7 \<le> k)\<rparr>"

definition calm_site :: site where
  "calm_site = sample_site\<lparr>v_database_down := (\<lambda>_. False), v_transport_down := (\<lambda>_. False),
     v_outside := (\<lambda>_. [])\<rparr>"

definition sample_world :: world where
  "sample_world = \<lparr>w_db = sample_backlog, w_notes = [], w_heartbeats = [], w_sent = [],
     w_handed = [], w_calls = 0\<rparr>"

definition sample_dispatcher :: dispatcher where
  "sample_dispatcher = \<lparr>batch_size = 2, idle_poll_seconds = 5,
     health = backoff_init 1 30, db_health = backoff_init 1 5,
     d_sweep_clock = \<lparr>sc_interval = None, sc_last = None\<rparr>,
     d_heartbeat_clock = \<lparr>sc_interval = None, sc_last = None\<rparr>, pending_release = []\<rparr>"

section \<open>Properties\<close>

text \<open>
  C1. No claim is ever lost by a living dispatcher, whatever fails: started with no claims of its own, it
  survives any pattern of database and transport outages for any number of passes, and when it
  returns every \<open>DISPATCHING\<close> task has been handed to the transport or is remembered for release;
  the remembered identifiers are distinct and at most one batch.
\<close>

theorem dispatcher_never_loses_claims:
  assumes "world_valid w" and "world_mine w = {}"
    and "dispatcher_init batch idle iv base cap db_cap hb = Inr d"
  shows "\<exists>d' w'. run (site_io v) (Some n) (d, w) = Some (Inr (), d', w') \<and> ledger_wf (w_db w') \<and>
    (\<forall>r \<in> set (w_db w'). status r = DISPATCHING \<longrightarrow>
       row_id r \<in> set (w_handed w') \<or> row_id r \<in> set (pending_release d')) \<and>
    distinct (pending_release d') \<and> length (pending_release d') \<le> nat batch"
proof -
  note d = dispatcher_init_fields [OF assms(3)]
  obtain d1 w1 where l: "loop_bounded (site_io v) n (d, w) = (Inr (), d1, w1)"
    and r: "run (site_io v) (Some n) (d, w) = Some (finally_close (site_io v) (Inr (), d1, w1))"
    using run_site by blast
  have "accounted world_valid world_mine (d, w)"
    using assms(1,2) d by (simp add: accounted_def)
  then have a: "accounted world_valid world_mine (d1, w1)" "batch_size d1 = nat batch"
    using sa.loop_accounts [OF _ l] d by auto
  have w1: "world_valid w1" "world_mine w1 \<subseteq> set (pending_release d1)"
    "distinct (pending_release d1)" "length (pending_release d1) \<le> nat batch"
    using a by (auto simp: accounted_def)
  let ?w' = "snd (snd (finally_close (site_io v) (Inr (), d1, w1)))"
  have q: "unchanged world_valid world_mine w_sent w1 ?w'"
    unfolding close_keeps using w1(1) by (rule tick_beats_quiet)
  then have "world_mine ?w' \<subseteq> set (pending_release d1)" "ledger_wf (w_db ?w')"
    using w1(2) by (auto simp: unchanged_def world_valid_def)
  then show ?thesis
    unfolding mine_settled using r w1(3,4) close_keeps(2,3) [of v "Inr ()" d1 w1]
    by (intro exI [of _ d1] exI [of _ ?w']) (simp add: prod_eq_iff)
qed

lemma sample_world_valid: "world_valid sample_world" "world_mine sample_world = {}"
proof -
  show "world_valid sample_world"
    using sample_backlog_wf by (simp add: world_valid_def sample_world_def)
  show "world_mine sample_world = {}"
  proof -
    have "\<forall>r \<in> set sample_backlog. status r \<noteq> DISPATCHING"
      by (simp add: sample_backlog_def sample_row_def)
    then show ?thesis by (auto simp: world_mine_def dispatching_def sample_world_def)
  qed
qed

theorem dispatcher_never_loses_claims_witness:
  "\<exists>d w'. dispatcher_init 2 5 None 1 30 5 15 = Inr d \<and>
    (\<exists>d'. run (site_io sample_site) (Some 4) (d, sample_world) = Some (Inr (), d', w') \<and>
      length (pending_release d') \<le> 2)"
proof -
  obtain d where d: "dispatcher_init 2 5 None 1 30 5 15 = Inr d" by (simp add: dispatcher_init_def)
  from dispatcher_never_loses_claims [OF sample_world_valid d, of sample_site 4] d
  show ?thesis by auto
qed

text \<open>
  One batch: a healthy transport receives the claimed identifiers in claim order; if it fails, it
  has received a prefix of them, and the rest is back in the database or remembered for release in full;
  nothing is sent twice and nothing is sent that was not claimed.
\<close>

lemma batch_sends_prefix:
  assumes "world_valid w" and "world_mine w = {}" and "pending_release d = []"
    and "dispatch_batch (site_io v) (d, w) = (Inr n, d', w')"
  shows "\<exists>ids. fst (site_claim v (batch_size d) w) = Inr ids \<and>
    w_sent w' = w_sent w @ take n ids \<and> n \<le> length ids \<and> distinct ids \<and> length ids \<le> batch_size d \<and>
    (pending_release d' = [] \<or> pending_release d' = drop n ids) \<and>
    world_mine w' \<subseteq> set (pending_release d')"
proof -
  have "accounted world_valid world_mine (d, w)"
    using assms(1-3) by (simp add: accounted_def)
  from sa.dispatch_batch_accounts [OF this _ assms(4)] assms(3) show ?thesis
    by (auto simp: accounted_def site_io_def)
qed

text \<open>
  While a stranded release is refused, a pass claims nothing and sends nothing: the transport has
  received what it had, the dispatcher holds no new task, and it still remembers the same releases.
\<close>

lemma stranded_release_blocks_claims:
  assumes "world_valid w" and "pending_release d \<noteq> []" and "v_database_down v (w_calls w)"
    and "iterate (site_io v) (d, w) = (r, d', w')"
  shows "r = Inr () \<and> w_sent w' = w_sent w \<and> world_mine w' \<subseteq> world_mine w \<and>
    pending_release d' = pending_release d"
proof -
  have r: "r = Inr ()" using sa.iterate_steps [OF assms(4)] by simp
  have "op_release (site_io v) (pending_release d) w = (Inl database_error, tick v w)"
    using assms(3) by (simp add: site_io_def site_release_def Let_def)
  then show ?thesis
    using sa.no_claim_while_stranded [of "(d, w)" v database_error "tick v w" "()" "(d', w')"]
      assms r by (auto simp: unchanged_def)
qed

text \<open>
  C25. Stopping works: if the stop event is set from some moment on, an unbounded run ends normally,
  whatever fails meanwhile, and then the dispatcher has removed its own heartbeat if the database let it.
\<close>

theorem stop_ends_the_run:
  assumes "\<And>k. N \<le> k \<Longrightarrow> v_stopped v k"
  shows "\<exists>d' w'. run (site_io v) None (d, w) = Some (Inr (), d', w') \<and>
    (\<not> v_database_down v (w_calls w' - 1) \<longrightarrow>
       (\<forall>h \<in> set (w_heartbeats w'). hb_instance_id h \<noteq> b_instance_id (v_backend v)))"
proof -
  have "op_stop_is_set (site_io v) s" if "N \<le> w_calls s" for s
    using assms that by (simp add: site_io_def)
  then obtain n \<sigma>1 where l: "loop_bounded (site_io v) n (d, w) = (Inr (), \<sigma>1)"
    and s: "op_stop_is_set (site_io v) (snd \<sigma>1)"
    using sa.loop_stops [of N v "(d, w)"] by blast
  obtain d1 w1 where \<sigma>1: "\<sigma>1 = (d1, w1)" by (metis surj_pair)
  have "loop_unbounded (site_io v) (d, w) = Some (Inr (), d1, w1)"
    using loop_unbounded_stops [OF l [unfolded \<sigma>1]] s \<sigma>1 by simp
  then have r: "run (site_io v) None (d, w) = Some (finally_close (site_io v) (Inr (), d1, w1))"
    by (simp add: run_def)
  let ?w' = "snd (snd (finally_close (site_io v) (Inr (), d1, w1)))"
  have "w_calls ?w' - 1 = w_calls w1" by (simp add: close_keeps tick_def)
  moreover have "\<not> v_database_down v (w_calls w1) \<longrightarrow>
      (\<forall>h \<in> set (w_heartbeats ?w'). hb_instance_id h \<noteq> b_instance_id (v_backend v))"
    by (simp add: close_keeps close_heartbeat_def)
  ultimately show ?thesis
    using r close_keeps(2,3) [of v "Inr ()" d1 w1]
    by (intro exI [of _ d1] exI [of _ ?w']) (simp add: prod_eq_iff)
qed

theorem stop_ends_the_run_witness:
  "\<exists>d' w'. run (site_io sample_site) None (sample_dispatcher, sample_world) = Some (Inr (), d', w')"
  using stop_ends_the_run [of 7 sample_site sample_dispatcher sample_world]
  by (auto simp: sample_site_def)

section \<open>Delivery and backoff\<close>

lemma send_ids_healthy:
  assumes "\<And>j. j < length ids \<Longrightarrow> \<not> v_transport_down v (w_calls w + j)"
  shows "\<exists>w'. send_ids (site_io v) ids n w = (AllSent, w') \<and> w_sent w' = w_sent w @ ids"
  using assms
proof (induction ids arbitrary: n w)
  case Nil
  then show ?case by simp
next
  case (Cons i ids)
  let ?w1 = "(tick v w)\<lparr>w_sent := w_sent (tick v w) @ [i], w_handed := i # w_handed (tick v w)\<rparr>"
  have "\<not> v_transport_down v (w_calls w)" using Cons.prems [of 0] by simp
  then have d: "op_dispatch_fn (site_io v) i w = (None, ?w1)"
    by (simp add: site_io_def site_dispatch_def Let_def)
  have "\<not> v_transport_down v (w_calls ?w1 + j)" if "j < length ids" for j
    using Cons.prems [of "Suc j"] that by (simp add: tick_def)
  then obtain w' where "send_ids (site_io v) ids (Suc n) ?w1 = (AllSent, w')"
    "w_sent w' = w_sent ?w1 @ ids" using Cons.IH [of ?w1 "Suc n"] by blast
  then show ?case using d by (simp add: tick_def)
qed

text \<open>
  With the database and the transport up, one batch delivers: the transport receives, in claim order,
  exactly the tasks the claim query took, the batch returns their number, and the transport counts as
  healthy again.
\<close>

lemma healthy_batch_delivers:
  assumes "\<not> v_database_down v (w_calls w)"
    and "\<And>k. w_calls w < k \<Longrightarrow> k \<le> w_calls w + batch_size d \<Longrightarrow> \<not> v_transport_down v k"
    and "ids = fst (claim (v_backend v) (v_clk v (w_calls w)) (v_locked v (w_calls w)) alone
      (batch_size d) (w_db (tick v w)))"
  shows "\<exists>w'. dispatch_batch (site_io v) (d, w) =
      (Inr (length ids), d\<lparr>health := note_success (health d)\<rparr>, w') \<and>
    w_sent w' = w_sent w @ ids"
proof -
  let ?k = "w_calls w"
  obtain db where c: "claim (v_backend v) (v_clk v ?k) (v_locked v ?k) alone (batch_size d)
      (w_db (tick v w)) = (ids, db)" using assms(3) by (metis prod.collapse)
  let ?w1 = "(tick v w)\<lparr>w_db := db, w_handed := filter (\<lambda>i. i \<notin> set ids) (w_handed (tick v w))\<rparr>"
  have cl: "op_claim (site_io v) (batch_size d) w = (Inr ids, ?w1)"
    using assms(1) c by (simp add: site_io_def site_claim_def Let_def)
  have len: "length ids \<le> batch_size d" using claim_length [of _ _ _ alone] assms(3) by simp
  have "\<not> v_transport_down v (w_calls ?w1 + j)" if "j < length ids" for j
    using assms(2) [of "w_calls ?w1 + j"] that len by (simp add: tick_def)
  then obtain w' where s: "send_ids (site_io v) ids 0 ?w1 = (AllSent, w')"
    "w_sent w' = w_sent ?w1 @ ids" using send_ids_healthy by blast
  show ?thesis
  proof (cases "ids = []")
    case True
    then show ?thesis using cl by (simp add: dispatch_batch_def Let_def tick_def)
  next
    case False
    then show ?thesis using cl s by (simp add: dispatch_batch_def Let_def tick_def)
  qed
qed

lemma fail_times_snoc: "fail_times (nows @ [now]) b = note_failure now (fail_times nows b)"
  by (simp add: fail_times_def)

lemma note_failure_retry_at: "bk_retry_at (note_failure now b) = now + bk_delay (note_failure now b)"
  by (simp add: note_failure_def Let_def)

text \<open>
  Failures in a row are answered by exponential backoff: the \<open>n\<close>-th asks for the base delay doubled
  \<open>n - 1\<close> times, capped; what is still owed at a later moment is that delay less the time already
  served, never negative; and one success forgets all of it.
\<close>

lemma outage_backoff:
  assumes "0 < base" and "base \<le> cap"
  shows "bk_delay (fail_times (nows @ [now]) (backoff_init base cap)) = min (base * 2 ^ length nows) cap \<and>
    remaining_delay t (fail_times (nows @ [now]) (backoff_init base cap)) =
      max 0 (min (base * 2 ^ length nows) cap - (t - now)) \<and>
    remaining_delay t (note_success (fail_times (nows @ [now]) (backoff_init base cap))) = 0"
proof -
  let ?b = "fail_times (nows @ [now]) (backoff_init base cap)"
  have d: "bk_delay ?b = min (base * 2 ^ length nows) cap"
  proof -
    obtain first rest where fr: "nows @ [now] = first # rest" by (cases "nows @ [now]") auto
    let ?b1 = "note_failure first (backoff_init base cap)"
    have b1: "bk_delay ?b1 = base" "bk_base ?b1 = base" "bk_cap ?b1 = cap"
      by (simp_all add: note_failure_def backoff_init_def Let_def)
    have "bk_delay (fail_times rest ?b1) = min (bk_base ?b1 * 2 ^ (0 + length rest)) (bk_cap ?b1)"
      by (rule fail_times_delay) (use assms b1 in auto)
    moreover have "length rest = length nows" using arg_cong [OF fr, of length] by simp
    ultimately show ?thesis unfolding fr using b1 by (simp add: fail_times_def)
  qed
  have "bk_retry_at ?b = now + min (base * 2 ^ length nows) cap"
    using d by (simp add: fail_times_snoc note_failure_retry_at)
  moreover have "min (base * 2 ^ length nows) cap \<noteq> 0" using assms by (auto simp: min_def)
  ultimately have "remaining_delay t ?b = max 0 (min (base * 2 ^ length nows) cap - (t - now))"
    unfolding remaining_delay_def d by (simp add: algebra_simps)
  then show ?thesis using d by (simp add: note_success_def remaining_delay_def)
qed

end
