(* ===== verification/Dj_Executor.thy ===== *)
theory Dj_Executor
  imports Sa_Executor
begin

text \<open>
  \<open>src/dewey/django/executor.py\<close>, with \<open>resolve_db_alias\<close> and \<open>notify_work_available\<close> of the
  Django integration.  The operations act on the one database their alias names.

  \<open>task.save(update_fields=...)\<close> writes the values of the object read under
  \<open>select_for_update\<close>, and stamps \<open>updated_at\<close>.
\<close>

definition resolve_db_alias :: "string \<Rightarrow> string option \<Rightarrow> string" where
  "resolve_db_alias router_choice using_alias =
     (case using_alias of
        None \<Rightarrow> router_choice
      | Some a \<Rightarrow> if a = [] then router_choice else a)"

definition django_notify :: "string \<Rightarrow> notification \<Rightarrow> notification list \<Rightarrow> notification list" where
  "django_notify vendor n notes =
     (if vendor \<noteq> ''postgresql'' then notes else notes @ [n])"

definition django_create_task ::
    "string \<Rightarrow> ('h, 'f) policy_state \<Rightarrow> string \<Rightarrow> (nat \<Rightarrow> datetime) \<Rightarrow> task_request \<Rightarrow> transaction
     \<Rightarrow> (task_row \<times> transaction) result" where
  "django_create_task vendor st new_id clk rq t =
     (case require_timezone_aware (rq_scheduled_for rq) ''scheduled_for'' of
        Inl e \<Rightarrow> Inl e
      | Inr _ \<Rightarrow>
          if (case rq_expires_at rq of Some (Naive _) \<Rightarrow> True | _ \<Rightarrow> False)
          then Inl (py_exn ValueErrorC ''expires_at must be a timezone-aware datetime'')
          else
            let policy = resolve_policy st (rq_task_type rq);
                q = or_default (p_queue policy) (rq_queue rq)
            in case encode_args (rq_args rq) of
                 Inl e \<Rightarrow> Inl (ser_exn e)
               | Inr js \<Rightarrow>
                   (case encode_kwargs (rq_kwargs rq) of
                      Inl e \<Rightarrow> Inl (ser_exn e)
                    | Inr kvs \<Rightarrow>
                        let row =
                          \<lparr>row_id = new_id, task_type = rq_task_type rq, status = PENDING,
                           args = js, kwargs = kvs,
                           task_metadata = or_default [] (rq_metadata rq), queue = q,
                           priority = or_default (p_priority policy) (rq_priority rq),
                           attempts = 0,
                           max_attempts = or_default (p_max_attempts policy) (rq_max_attempts rq),
                           error = '''', created_at = clk 0, updated_at = clk 1,
                           scheduled_for = instant (rq_scheduled_for rq),
                           initial_scheduled_for = instant (rq_scheduled_for rq),
                           dispatching_at = None, started_at = None, completed_at = None,
                           expires_at = instant (rq_expires_at rq), expired_at = None,
                           idempotency_key = rq_idempotency_key rq\<rparr>
                        in case insert_row row (working t) of
                             Inl e \<Rightarrow> Inl e
                           | Inr db \<Rightarrow>
                               Inr (row, t\<lparr>working := db,
                                  queued := django_notify vendor
                                    (task_notification (row_id row) q) (queued t)\<rparr>)))"

definition django_create_or_get_task ::
    "string \<Rightarrow> ('h, 'f) policy_state \<Rightarrow> string \<Rightarrow> (nat \<Rightarrow> datetime) \<Rightarrow> (ledger \<Rightarrow> ledger)
     \<Rightarrow> task_request \<Rightarrow> transaction \<Rightarrow> task_row result \<times> transaction" where
  "django_create_or_get_task vendor st new_id clk env rq t =
     (if or_default '''' (rq_idempotency_key rq) = ''''
      then (Inl (py_exn ValueErrorC
              ''create_or_get_task requires a non-empty idempotency_key''), t)
      else
        case check_request rq of
          Inl e \<Rightarrow> (Inl e, t)
        | Inr _ \<Rightarrow>
            let policy = resolve_policy st (rq_task_type rq);
                resolved_queue = or_default (p_queue policy) (rq_queue rq);
                resolved_priority = or_default (p_priority policy) (rq_priority rq);
                resolved_max_attempts = or_default (p_max_attempts policy) (rq_max_attempts rq)
            in case encode_request rq of
                 Inl e \<Rightarrow> (Inl e, t)
               | Inr (js, kvs) \<Rightarrow>
                   (case nested (django_create_task vendor st new_id clk
                           (rq\<lparr>rq_queue := Some resolved_queue,
                               rq_priority := Some resolved_priority,
                               rq_max_attempts := Some resolved_max_attempts\<rparr>)) t of
                      (Inr row, t') \<Rightarrow> (Inr row, t')
                    | (Inl exc, t') \<Rightarrow>
                        if \<not> isinstance exc [IntegrityErrorC] then (Inl exc, t')
                        else
                          let t'' = t'\<lparr>working := env (working t')\<rparr>
                          in case find_key (rq_task_type rq) (rq_idempotency_key rq)
                                    (working t'') of
                               None \<Rightarrow> (Inl exc, t'')
                             | Some existing \<Rightarrow>
                                 let differing = map fst (filter snd
                                   [(''task_type'', task_type existing \<noteq> rq_task_type rq),
                                    (''args'', \<not> py_eq (JList (args existing)) (JList js)),
                                    (''kwargs'', \<not> py_eq (JDict (kwargs existing)) (JDict kvs)),
                                    (''queue'', queue existing \<noteq> resolved_queue),
                                    (''priority'', priority existing \<noteq> resolved_priority),
                                    (''max_attempts'',
                                       max_attempts existing \<noteq> resolved_max_attempts),
                                    (''scheduled_for'',
                                       initial_scheduled_for existing
                                         \<noteq> instant (rq_scheduled_for rq)),
                                    (''expires_at'',
                                       expires_at existing \<noteq> instant (rq_expires_at rq))])
                                 in if differing = [] then (Inr existing, t'')
                                    else case idempotency_conflict differing of
                                           Inl e \<Rightarrow> (Inl e, t'')
                                         | Inr e \<Rightarrow> (Inl e, t'')))"

section \<open>Workers\<close>

definition django_process_claim ::
    "(nat \<Rightarrow> datetime) \<Rightarrow> string \<Rightarrow> ledger \<Rightarrow> task_row option \<times> ledger" where
  "django_process_claim clk task_id db =
     (case find_row task_id db of
        None \<Rightarrow> (None, db)
      | Some task \<Rightarrow>
          let now = clk 0 in
          if is_terminal (status task) then (None, db)
          else if status task \<notin> {PENDING, DISPATCHING} then (None, db)
          else if (case expires_at task of None \<Rightarrow> False | Some e \<Rightarrow> e \<le> now)
          then (None, set_row task_id
                  (\<lambda>r. r\<lparr>status := EXPIRED, expired_at := Some now, dispatching_at := None,
                         updated_at := clk 1\<rparr>) db)
          else if (case scheduled_for task of None \<Rightarrow> False | Some s \<Rightarrow> s > now) then (None, db)
          else if \<not> can_transition_to (status task) PROCESSING then (None, db)
          else
            let started = task\<lparr>status := PROCESSING, started_at := Some now,
                               dispatching_at := None, attempts := attempts task + 1\<rparr>
            in (Some started, set_row task_id
                  (\<lambda>r. r\<lparr>status := status started, started_at := started_at started,
                         dispatching_at := dispatching_at started,
                         attempts := attempts started, updated_at := clk 1\<rparr>) db))"

definition django_process_finish ::
    "('f \<Rightarrow> int \<Rightarrow> backoff_value result) \<Rightarrow> rat \<Rightarrow> (nat \<Rightarrow> datetime)
     \<Rightarrow> (int \<Rightarrow> timedelta result) option \<Rightarrow> string \<Rightarrow> ('h, 'f) task_claim \<Rightarrow> exn option \<Rightarrow> ledger
     \<Rightarrow> bool result \<times> ledger" where
  "django_process_finish fn u clk backoff task_id c raised db =
     (case raised of
        Some exc \<Rightarrow>
          (case find_row task_id db of
             None \<Rightarrow> (Inr False, db)
           | Some task \<Rightarrow>
               if status task \<noteq> PROCESSING then (Inr False, db)
               else
                 case classify_failure exc (c_policy c) (policy_delay_for fn u (c_policy c))
                        (c_attempts c) (c_max_attempts c) (clk 0) backoff of
                   Inl e \<Rightarrow> (Inl e, db)
                 | Inr out \<Rightarrow>
                     (Inr False, set_row task_id
                        (\<lambda>r. r\<lparr>error := exn_text exc, status := out_status out,
                               scheduled_for := (if is_dead out then scheduled_for task
                                                 else out_retry_at out),
                               updated_at := clk 1\<rparr>) db))
      | None \<Rightarrow>
          (case find_row task_id db of
             None \<Rightarrow> (Inr False, db)
           | Some task \<Rightarrow>
               if status task \<noteq> PROCESSING then (Inr False, db)
               else (Inr True, set_row task_id
                       (\<lambda>r. r\<lparr>status := COMPLETED, completed_at := Some (clk 0), error := '''',
                              updated_at := clk 1\<rparr>) db)))"

definition django_process_task ::
    "('h \<Rightarrow> json list \<Rightarrow> dict \<Rightarrow> context_var \<Rightarrow> exn option \<times> context_var)
     \<Rightarrow> ('h, 'f) policy_state \<Rightarrow> ('f \<Rightarrow> int \<Rightarrow> backoff_value result) \<Rightarrow> rat
     \<Rightarrow> (nat \<Rightarrow> nat \<Rightarrow> datetime) \<Rightarrow> (ledger \<Rightarrow> ledger) \<Rightarrow> 'h option
     \<Rightarrow> (int \<Rightarrow> timedelta result) option \<Rightarrow> string \<Rightarrow> ledger \<times> context_var
     \<Rightarrow> bool result \<times> ledger \<times> context_var" where
  "django_process_task call st fn u clk env handler backoff task_id s =
     (case django_process_claim (clk 0) task_id (fst s) of
        (None, db) \<Rightarrow> (Inr False, db, snd s)
      | (Some task, db) \<Rightarrow>
          let policy = resolve_policy st (task_type task);
              c = \<lparr>c_type = task_type task, c_args = args task, c_kwargs = kwargs task,
                   c_attempts = attempts task, c_max_attempts = max_attempts task,
                   c_metadata = task_metadata task, c_policy = policy\<rparr>;
              (token, var) = set_trace_context
                 (Some (extract_trace_context (Some (task_metadata task)))) (snd s);
              (raised, var') =
                 (case resolve_handler (task_type task) handler policy of
                    Inl e \<Rightarrow> (Some e, var)
                  | Inr h \<Rightarrow> call h (args task) (kwargs task) var);
              db' = env db
          in if (case raised of Some exc \<Rightarrow> \<not> isinstance exc [ExceptionC] | None \<Rightarrow> False)
             then (Inl (the raised), db', reset_trace_context token var')
             else let (res, db'') =
                    django_process_finish fn u (clk 1) backoff task_id c raised db'
                  in (res, db'', reset_trace_context token var'))"

section \<open>Agreement with the SQLAlchemy executor\<close>

lemma django_create_task_eq:
  "django_create_task vendor st new_id clk rq t
     = create_task (vendor = ''postgresql'') st new_id clk rq t"
  unfolding django_create_task_def create_task_def check_request_def encode_request_def
    require_timezone_aware_def new_row_def django_notify_def notify_work_available_def Let_def
  by (auto split: option.split py_datetime.split sum.split)

lemma django_process_claim_eq:
  assumes "distinct (map row_id db)"
  shows "snd (django_process_claim clk i db) = snd (process_claim st clk i db)"
    and "fst (process_claim st clk i db) =
      map_option (\<lambda>task. \<lparr>c_type = task_type task, c_args = args task, c_kwargs = kwargs task,
                   c_attempts = attempts task, c_max_attempts = max_attempts task,
                   c_metadata = task_metadata task,
                   c_policy = resolve_policy st (task_type task)\<rparr>)
        (fst (django_process_claim clk i db))"
proof -
  show "fst (process_claim st clk i db) =
      map_option (\<lambda>task. \<lparr>c_type = task_type task, c_args = args task, c_kwargs = kwargs task,
                   c_attempts = attempts task, c_max_attempts = max_attempts task,
                   c_metadata = task_metadata task,
                   c_policy = resolve_policy st (task_type task)\<rparr>)
        (fst (django_process_claim clk i db))"
    by (auto simp: process_claim_def django_process_claim_def Let_def claimable_def
        sql_le_def split: option.split)
  show "snd (django_process_claim clk i db) = snd (process_claim st clk i db)"
  proof (cases "find_row i db")
    case None
    then show ?thesis by (simp add: process_claim_def django_process_claim_def)
  next
    case (Some task)
    have "set_row i (\<lambda>r. r\<lparr>status := PROCESSING, started_at := Some (clk 0),
            dispatching_at := None, attempts := attempts task + 1, updated_at := clk 1\<rparr>) db
        = set_row i (\<lambda>r. r\<lparr>status := PROCESSING, started_at := Some (clk 0),
            dispatching_at := None, attempts := attempts r + 1, updated_at := clk 1\<rparr>) db"
      by (rule update_where_cong) (auto dest: find_row_eq [OF assms Some])
    with Some show ?thesis
      by (auto simp: process_claim_def django_process_claim_def Let_def claimable_def sql_le_def
          split: option.split)
  qed
qed

lemma django_process_finish_eq:
  assumes "distinct (map row_id db)"
  shows "django_process_finish fn u clk b i c raised db = process_finish fn u clk b i c raised db"
proof (cases "find_row i db")
  case None
  then show ?thesis
    by (simp add: process_finish_def django_process_finish_def split: option.split)
next
  case (Some task)
  have "set_row i (\<lambda>r. r\<lparr>error := e, status := s, scheduled_for := (if d then scheduled_for task
            else a), updated_at := t\<rparr>) db
      = set_row i (\<lambda>r. if d then r\<lparr>error := e, status := s, updated_at := t\<rparr>
            else r\<lparr>error := e, status := s, scheduled_for := a, updated_at := t\<rparr>) db"
    for e s d a t
    by (rule update_where_cong) (auto dest: find_row_eq [OF assms Some])
  with Some show ?thesis
    by (auto simp: process_finish_def django_process_finish_def simp del: One_nat_def
        split: option.split sum.split)
qed

lemma django_process_task_eq:
  assumes "distinct (map row_id db)" and "distinct (map row_id (env (snd (process_claim st (clk 0) i db))))"
  shows "django_process_task call st fn u clk env h b i (db, var)
    = process_task call st fn u clk env h b i (db, var)"
proof (cases "django_process_claim (clk 0) i db")
  case (Pair claimed db1)
  then have db1: "db1 = snd (process_claim st (clk 0) i db)"
    using django_process_claim_eq(1) [OF assms(1), of "clk 0" i st] by simp
  show ?thesis
  proof (cases claimed)
    case None
    then have "process_claim st (clk 0) i db = (None, db1)"
      using django_process_claim_eq(2) [OF assms(1), of st "clk 0" i] Pair db1
      by (simp add: prod_eq_iff)
    with Pair None show ?thesis by (simp add: django_process_task_def process_task_def)
  next
    case (Some task)
    let ?c = "\<lparr>c_type = task_type task, c_args = args task, c_kwargs = kwargs task,
               c_attempts = attempts task, c_max_attempts = max_attempts task,
               c_metadata = task_metadata task, c_policy = resolve_policy st (task_type task)\<rparr>"
    have "process_claim st (clk 0) i db = (Some ?c, db1)"
      using django_process_claim_eq(2) [OF assms(1), of st "clk 0" i] Pair Some db1
      by (simp add: prod_eq_iff)
    moreover have "django_process_finish fn u (clk 1) b i c r (env db1)
        = process_finish fn u (clk 1) b i c r (env db1)" for c :: "('a, 'b) task_claim" and r
      using assms(2) db1 by (intro django_process_finish_eq) simp
    ultimately show ?thesis
      using Pair Some
      by (auto simp: django_process_task_def process_task_def run_handler_def Let_def
          simp del: One_nat_def split: prod.split option.split sum.split)
  qed
qed

lemma django_create_or_get_eq:
  "django_create_or_get_task vendor st new_id clk env rq t
     = create_or_get_task (vendor = ''postgresql'') st new_id clk env rq t"
proof -
  have eq: "django_create_task vendor st new_id clk rq'
      = create_task (vendor = ''postgresql'') st new_id clk rq'" for rq' :: task_request
    by (rule ext) (rule django_create_task_eq)
  show ?thesis
    unfolding django_create_or_get_task_def create_or_get_task_def Let_def eq
      differing_fields_def new_row_def
    by (simp del: py_eq.simps split: sum.split prod.split option.split)
qed

end
