(* ===== verification/Dj_Sweep.thy ===== *)
theory Dj_Sweep
  imports Sa_Sweep
begin

text \<open>
  \<open>src/dewey/django/sweep.py\<close>.  Each pass locks its rows with \<open>select_for_update\<close>, sorts them
  into retries and dead letters with two reads, and updates each group by its identifiers.
  \<open>QuerySet.update\<close> leaves \<open>updated_at\<close> alone, and no pass sends a notification.

  \<open>env 0\<close> is what others commit before the locking \<open>SELECT\<close>, \<open>env k\<close> before the \<open>k\<close>-th statement
  after it.
\<close>

definition select_where :: "(task_row \<Rightarrow> bool) \<Rightarrow> ledger \<Rightarrow> string list" where
  "select_where P db = map row_id (filter P db)"

definition django_sweep_failed ::
    "clock \<Rightarrow> others \<Rightarrow> nat \<Rightarrow> ledger \<Rightarrow> string list \<times> ledger" where
  "django_sweep_failed clk env limit db =
     (let now = clk 0;
          db0 = env 0 db;
          task_ids = select_ids
            (\<lambda>r. status r = FAILED \<and> sql_le (scheduled_for r) now)
            (\<lambda>r. nulls_last (scheduled_for r)) limit db0
      in if task_ids = [] then ([], db0)
         else
           let db1 = env 1 db0;
               retry_ids = select_where
                 (\<lambda>r. row_id r \<in> set task_ids \<and> status r = FAILED \<and>
                      attempts r < max_attempts r) db1;
               db2 = env 2 db1;
               dead_ids = select_where
                 (\<lambda>r. row_id r \<in> set task_ids \<and> status r = FAILED \<and>
                      attempts r \<ge> max_attempts r) db2;
               db3 = update_where (\<lambda>r. row_id r \<in> set retry_ids \<and> status r = FAILED)
                 (\<lambda>r. r\<lparr>status := PENDING\<rparr>) (env 3 db2);
               db4 = update_where (\<lambda>r. row_id r \<in> set dead_ids \<and> status r = FAILED)
                 (\<lambda>r. r\<lparr>status := DEAD\<rparr>) (env 4 db3)
           in (retry_ids, db4))"

definition django_sweep_expired ::
    "clock \<Rightarrow> (string \<Rightarrow> bool) \<Rightarrow> others \<Rightarrow> nat \<Rightarrow> ledger \<Rightarrow> string list \<times> ledger" where
  "django_sweep_expired clk locked env limit db =
     (let now = clk 0;
          db0 = env 0 db;
          task_ids = select_ids
            (\<lambda>r. status r \<in> {PENDING, FAILED, DISPATCHING} \<and> expires_at r \<noteq> None \<and>
                 sql_le (expires_at r) now \<and> \<not> locked (row_id r))
            (\<lambda>r. nulls_last (expires_at r)) limit db0
      in if task_ids = [] then ([], db0)
         else (task_ids,
               update_where
                 (\<lambda>r. row_id r \<in> set task_ids \<and> status r \<in> {PENDING, FAILED, DISPATCHING})
                 (\<lambda>r. r\<lparr>status := EXPIRED, expired_at := Some now, dispatching_at := None\<rparr>)
                 (env 1 db0)))"

definition django_sweep_stuck ::
    "clock \<Rightarrow> others \<Rightarrow> int \<Rightarrow> nat \<Rightarrow> ledger \<Rightarrow> string list \<times> ledger" where
  "django_sweep_stuck clk env stuck_threshold_minutes limit db =
     (let threshold = clk 0 - stuck_threshold_minutes * minute;
          db0 = env 0 db;
          task_ids = select_ids
            (\<lambda>r. status r = PROCESSING \<and> sql_lt (started_at r) threshold)
            (\<lambda>r. nulls_last (started_at r)) limit db0
      in if task_ids = [] then ([], db0)
         else
           let db1 = env 1 db0;
               retry_ids = select_where
                 (\<lambda>r. row_id r \<in> set task_ids \<and> status r = PROCESSING \<and>
                      attempts r < max_attempts r) db1;
               db2 = env 2 db1;
               dead_ids = select_where
                 (\<lambda>r. row_id r \<in> set task_ids \<and> status r = PROCESSING \<and>
                      attempts r \<ge> max_attempts r) db2;
               db3 = update_where (\<lambda>r. row_id r \<in> set retry_ids \<and> status r = PROCESSING)
                 (\<lambda>r. r\<lparr>status := PENDING\<rparr>) (env 3 db2);
               db4 = update_where (\<lambda>r. row_id r \<in> set dead_ids \<and> status r = PROCESSING)
                 (\<lambda>r. r\<lparr>status := DEAD\<rparr>) (env 4 db3)
           in (retry_ids, db4))"

definition django_sweep_dispatching ::
    "clock \<Rightarrow> others \<Rightarrow> int \<Rightarrow> nat \<Rightarrow> ledger \<Rightarrow> string list \<times> ledger" where
  "django_sweep_dispatching clk env dispatch_timeout_seconds limit db =
     (let threshold = clk 0 - dispatch_timeout_seconds * second;
          db0 = env 0 db;
          task_ids = select_ids
            (\<lambda>r. status r = DISPATCHING \<and> sql_lt (dispatching_at r) threshold)
            (\<lambda>r. nulls_last (dispatching_at r)) limit db0
      in if task_ids = [] then ([], db0)
         else
           let db1 = env 1 db0;
               retry_ids = select_where
                 (\<lambda>r. row_id r \<in> set task_ids \<and> status r = DISPATCHING \<and>
                      attempts r < max_attempts r) db1;
               db2 = env 2 db1;
               dead_ids = select_where
                 (\<lambda>r. row_id r \<in> set task_ids \<and> status r = DISPATCHING \<and>
                      attempts r \<ge> max_attempts r) db2;
               db3 = update_where (\<lambda>r. row_id r \<in> set retry_ids \<and> status r = DISPATCHING)
                 (\<lambda>r. r\<lparr>status := PENDING, dispatching_at := None\<rparr>) (env 3 db2);
               db4 = update_where (\<lambda>r. row_id r \<in> set dead_ids \<and> status r = DISPATCHING)
                 (\<lambda>r. r\<lparr>status := DEAD, dispatching_at := None\<rparr>) (env 4 db3)
           in (retry_ids, db4))"

definition django_sweep ::
    "(nat \<Rightarrow> clock) \<Rightarrow> (string \<Rightarrow> bool) \<Rightarrow> (nat \<Rightarrow> others) \<Rightarrow> int \<Rightarrow> int \<Rightarrow> nat \<Rightarrow> ledger
     \<Rightarrow> sweep_result \<times> ledger" where
  "django_sweep clk locked env stuck_threshold_minutes dispatch_timeout_seconds limit db =
     (let (expired, db1) = django_sweep_expired (clk 0) locked (env 0) limit db;
          (failed, db2) = django_sweep_failed (clk 1) (env 1) limit db1;
          (dispatching, db3) =
            django_sweep_dispatching (clk 2) (env 2) dispatch_timeout_seconds limit db2;
          (stuck, db4) = django_sweep_stuck (clk 3) (env 3) stuck_threshold_minutes limit db3
      in ([(''expired'', expired), (''failed'', failed), (''dispatching'', dispatching),
           (''stuck'', stuck)], db4))"

section \<open>The passes keep row invariants\<close>

lemma keep_stamp: "row_step r (s\<lparr>updated_at := updated_at s\<rparr>) \<Longrightarrow> row_step r s"
  by simp

lemma silent_steps:
  "status r \<in> {FAILED, PROCESSING} \<Longrightarrow> attempts r < max_attempts r \<Longrightarrow>
    row_step r (r\<lparr>status := PENDING\<rparr>)"
  "status r \<in> {FAILED, PROCESSING} \<Longrightarrow> attempts r \<ge> max_attempts r \<Longrightarrow>
    row_step r (r\<lparr>status := DEAD\<rparr>)"
  "status r = DISPATCHING \<Longrightarrow> row_step r (r\<lparr>status := PENDING, dispatching_at := None\<rparr>)"
  "status r = DISPATCHING \<Longrightarrow> attempts r \<ge> max_attempts r \<Longrightarrow>
    row_step r (r\<lparr>status := DEAD, dispatching_at := None\<rparr>)"
  "status r \<in> {PENDING, DISPATCHING, FAILED} \<Longrightarrow> sql_le (expires_at r) t \<Longrightarrow>
    row_step r (r\<lparr>status := EXPIRED, expired_at := Some t, dispatching_at := None\<rparr>)"
  "status r = PENDING \<or> (status r = FAILED \<and> attempts r < max_attempts r) \<Longrightarrow>
    row_step r (r\<lparr>status := DISPATCHING, dispatching_at := Some t\<rparr>)"
  "can_transition_to (status r) PENDING \<Longrightarrow>
    row_step r (r\<lparr>status := PENDING, scheduled_for := None, error := [], attempts := 0\<rparr>)"
  using row_step.Requeue [of r "updated_at r"] row_step.Exhaust [of r "updated_at r"]
    row_step.Reclaim [of r "updated_at r"] row_step.Abandon [of r "updated_at r"]
    row_step.Expire [of r t "updated_at r"] row_step.Dispatch [where u = "updated_at r" and t = t and r = r]
    row_step.Retry [of r "updated_at r"]
  by simp_all

lemma select_where_row:
  assumes "distinct (map row_id db)" and "r \<in> set db" and "row_id r \<in> set (select_where P db)"
  shows "P r"
proof -
  obtain s where "s \<in> set db" "row_id s = row_id r" "P s"
    using assms(3) by (auto simp: select_where_def)
  then show ?thesis using assms(1,2) by (metis find_row_unique option.inject)
qed

lemma locked_row: "respects_locks ids e db \<Longrightarrow> r \<in> set (e db) \<Longrightarrow> row_id r \<in> set ids \<Longrightarrow> r \<in> set db"
  by (simp add: respects_locks_def list_all_iff)

context row_invariant begin

lemma inv_locked_updates:
  assumes ok: "table_ok I db1" and env: "keeps I e2" "keeps I e3" "keeps I e4"
    and locks: "respects_locks T e2 db1" "respects_locks T e3 (e2 db1)"
      "respects_locks T e4
         (update_where (\<lambda>r. row_id r \<in> set (select_where A db1) \<and> S r) f (e3 (e2 db1)))"
    and A: "\<And>r. A r \<Longrightarrow> row_id r \<in> set T \<and> row_step r (f r)"
    and B: "\<And>r. B r \<Longrightarrow> row_id r \<in> set T \<and> row_step r (g r)" and f: "\<And>r. \<not> S (f r)"
  shows "table_ok I (update_where (\<lambda>r. row_id r \<in> set (select_where B (e2 db1)) \<and> S r) g
    (e4 (update_where (\<lambda>r. row_id r \<in> set (select_where A db1) \<and> S r) f (e3 (e2 db1)))))"
proof -
  let ?db3 = "update_where (\<lambda>r. row_id r \<in> set (select_where A db1) \<and> S r) f (e3 (e2 db1))"
  have d1: "distinct (map row_id db1)" and d2: "distinct (map row_id (e2 db1))"
    using ok keepsD [OF env(1) ok] by (auto intro: table_ok_ids)
  have TA: "row_id r \<in> set T" if "row_id r \<in> set (select_where A db1)" for r
    using that A by (auto simp: select_where_def)
  have TB: "row_id r \<in> set T" if "row_id r \<in> set (select_where B (e2 db1))" for r
    using that B by (auto simp: select_where_def)
  have ok3: "table_ok I ?db3"
  proof (rule inv_update)
    show "table_ok I (e3 (e2 db1))" using keepsD [OF env(2) keepsD [OF env(1) ok]] .
    fix r assume r: "r \<in> set (e3 (e2 db1))" and i: "row_id r \<in> set (select_where A db1) \<and> S r"
    then have "r \<in> set db1" using locked_row locks(1,2) TA by blast
    then show "row_step r (f r)" using select_where_row [OF d1] i A by blast
  qed
  show ?thesis
  proof (rule inv_update)
    show "table_ok I (e4 ?db3)" using keepsD [OF env(3) ok3] .
    fix r assume r: "r \<in> set (e4 ?db3)" and i: "row_id r \<in> set (select_where B (e2 db1)) \<and> S r"
    then have "r \<in> set ?db3" using locked_row locks(3) TB by blast
    then have "r \<in> set (e3 (e2 db1))" using i f by (auto simp: set_update_where)
    then have "r \<in> set (e2 db1)" using locked_row locks(2) TB i by blast
    then show "row_step r (g r)" using select_where_row [OF d2] i B by blast
  qed
qed

end

section \<open>Agreement with the SQLAlchemy sweep\<close>

text \<open>
  Two tables agree when they differ in \<open>updated_at\<close> at most.  Without interference the passes of
  the two integrations return the same identifiers and leave tables that agree.
\<close>

abbreviation unstamp :: "task_row \<Rightarrow> task_row" where
  "unstamp r \<equiv> r\<lparr>updated_at := 0\<rparr>"

definition agree :: "ledger \<Rightarrow> ledger \<Rightarrow> bool" where
  "agree a b = (map unstamp a = map unstamp b)"

lemma agree_refl [simp]: "agree a a"
  by (simp add: agree_def)

lemma agree_select_ids:
  assumes "agree a b" and "\<And>r. P (unstamp r) = P r" and "\<And>r. k (unstamp r) = k r"
  shows "select_ids P k n a = select_ids P k n b"
proof -
  have "select_ids P k n x = select_ids P k n (map unstamp x)" for x
    by (simp add: select_ids_def order_limit_def filter_map comp_def assms(2) take_map
        sort_key_map [of k unstamp, OF assms(3), symmetric])
  then show ?thesis using assms(1) by (metis agree_def)
qed

lemma agree_map:
  assumes "agree a b" and "\<And>r. g (unstamp r) = g r" shows "map g a = map g b"
proof -
  have "map g x = map g (map unstamp x)" for x by (simp add: comp_def assms(2))
  then show ?thesis using assms(1) by (metis agree_def)
qed

lemma agree_ids: "agree a b \<Longrightarrow> map row_id a = map row_id b"
  by (rule agree_map) simp_all

lemma agree_filter_ids:
  assumes "agree a b" and "\<And>r. P (unstamp r) = P r"
  shows "map row_id (filter P a) = map row_id (filter P b)"
proof -
  have "map row_id (filter P x) = map row_id (filter P (map unstamp x))" for x
    by (simp add: filter_map comp_def assms(2))
  then show ?thesis using assms(1) by (metis agree_def)
qed

lemma agree_update:
  assumes "agree a b" and "\<And>r. P (unstamp r) = P r"
    and "\<And>r. unstamp (f r) = unstamp (h (unstamp r))" and "\<And>r. unstamp (g r) = unstamp (h (unstamp r))"
  shows "agree (update_where P f a) (update_where P g b)"
proof -
  have step: "map unstamp (update_where P f' x)
      = map (\<lambda>r. if P r then unstamp (h r) else r) (map unstamp x)"
    if "\<And>r. unstamp (f' r) = unstamp (h (unstamp r))" for f' x
    by (simp add: update_where_def comp_def assms(2) that if_distrib cong: if_cong)
  show ?thesis
    using assms(1) step [OF assms(3), of a] step [OF assms(4), of b]
    unfolding agree_def by (simp only:)
qed

text \<open>Updating the identifiers that were selected is updating the rows that were selected.\<close>

lemma select_where_iff:
  "distinct (map row_id db) \<Longrightarrow> r \<in> set db \<Longrightarrow> row_id r \<in> set (select_where P db) \<longleftrightarrow> P r"
  using select_where_row by (auto simp: select_where_def)

lemma update_selected:
  assumes "distinct (map row_id db)" and "\<And>r. A r \<Longrightarrow> S r"
  shows "update_where (\<lambda>r. row_id r \<in> set (select_where A db) \<and> S r) f db = update_where A f db"
  by (rule update_where_cong) (use assms select_where_iff in blast)+

lemma update_selected_after:
  assumes d: "distinct (map row_id db)" and B: "\<And>r. B r \<Longrightarrow> S r" and f: "\<And>r. \<not> S (f r)"
  shows "update_where (\<lambda>r. row_id r \<in> set (select_where B db) \<and> S r) g (update_where A f db)
    = update_where B g (update_where A f db)"
proof (rule update_where_cong)
  fix r assume "r \<in> set (update_where A f db)"
  then consider "r \<in> set db" | s where "r = f s" by (auto simp: set_update_where)
  then show "(row_id r \<in> set (select_where B db) \<and> S r) = B r"
  proof cases
    case 1
    then show ?thesis using B select_where_row [OF d] by (auto simp: select_where_def)
  next
    case 2
    then show ?thesis using B f by blast
  qed
qed simp

lemma django_pass_agrees:
  fixes T :: "string list" and u1 u2 :: datetime
  assumes "agree a db" and d: "distinct (map row_id db)"
    and S: "\<And>r. S (unstamp r) = S r" and f: "\<And>r. \<not> S (f r)"
    and h: "\<And>r t. f (r\<lparr>updated_at := t\<rparr>) = (f r)\<lparr>updated_at := t\<rparr>"
      "\<And>r t. g (r\<lparr>updated_at := t\<rparr>) = (g r)\<lparr>updated_at := t\<rparr>"
  defines "A \<equiv> \<lambda>r. row_id r \<in> set T \<and> S r \<and> attempts r < max_attempts r"
    and "B \<equiv> \<lambda>r. row_id r \<in> set T \<and> S r \<and> attempts r \<ge> max_attempts r"
  shows "select_where A db = map row_id (filter A a)"
    and "agree (update_where B (\<lambda>r. (g r)\<lparr>updated_at := u2\<rparr>)
          (update_where A (\<lambda>r. (f r)\<lparr>updated_at := u1\<rparr>) a))
        (update_where (\<lambda>r. row_id r \<in> set (select_where B db) \<and> S r) g
          (update_where (\<lambda>r. row_id r \<in> set (select_where A db) \<and> S r) f db))"
proof -
  show "select_where A db = map row_id (filter A a)"
    unfolding select_where_def A_def
    by (rule agree_filter_ids [OF assms(1), symmetric]) (simp add: S)
  have "agree (update_where B (\<lambda>r. (g r)\<lparr>updated_at := u2\<rparr>)
      (update_where A (\<lambda>r. (f r)\<lparr>updated_at := u1\<rparr>) a)) (update_where B g (update_where A f db))"
    by (rule agree_update [where h = g],
        rule agree_update [OF assms(1), where h = f]) (simp_all add: A_def B_def S h)
  moreover have "update_where (\<lambda>r. row_id r \<in> set (select_where A db) \<and> S r) f db
      = update_where A f db"
    by (rule update_selected [OF d]) (simp add: A_def)
  moreover have "update_where (\<lambda>r. row_id r \<in> set (select_where B db) \<and> S r) g (update_where A f db)
      = update_where B g (update_where A f db)"
    by (rule update_selected_after [OF d]) (simp_all add: B_def f)
  ultimately show "agree (update_where B (\<lambda>r. (g r)\<lparr>updated_at := u2\<rparr>)
          (update_where A (\<lambda>r. (f r)\<lparr>updated_at := u1\<rparr>) a))
        (update_where (\<lambda>r. row_id r \<in> set (select_where B db) \<and> S r) g
          (update_where (\<lambda>r. row_id r \<in> set (select_where A db) \<and> S r) f db))"
    by simp
qed

text \<open>A pass of the two integrations, with the same clock reading, on tables that agree.\<close>

definition passes_agree :: "string list \<times> transaction \<Rightarrow> string list \<times> ledger \<Rightarrow> bool" where
  "passes_agree sa dj = (set (fst dj) = set (fst sa) \<and> agree (working (snd sa)) (snd dj))"

lemma django_failed_agrees:
  assumes "agree (working t) db" and "distinct (map row_id db)" and "clk' 0 = clk 0"
  shows "passes_agree (sweep_failed is_pg clk alone limit t) (django_sweep_failed clk' alone limit db)"
proof -
  let ?T = "select_ids (\<lambda>r. status r = FAILED \<and> sql_le (scheduled_for r) (clk 0))
    (\<lambda>r. nulls_last (scheduled_for r)) limit"
  have "?T (working t) = ?T db" by (rule agree_select_ids [OF assms(1)]) simp_all
  then show ?thesis
    using django_pass_agrees(1) [OF assms(1,2), where S = "\<lambda>r. status r = FAILED"
        and f = "\<lambda>r. r\<lparr>status := PENDING\<rparr>"
        and g = "\<lambda>r. r\<lparr>status := DEAD\<rparr>"
        and T = "?T db"]
      django_pass_agrees(2) [OF assms(1,2), where S = "\<lambda>r. status r = FAILED"
        and f = "\<lambda>r. r\<lparr>status := PENDING\<rparr>"
        and g = "\<lambda>r. r\<lparr>status := DEAD\<rparr>"
        and T = "?T db"
        and ?u1.0 = "clk 1" and ?u2.0 = "clk 2"] assms(1,3)
    by (simp add: passes_agree_def django_sweep_failed_def sweep_failed_def Let_def
        update_returning_def comp_def)
qed

lemma django_stuck_agrees:
  assumes "agree (working t) db" and "distinct (map row_id db)" and "clk' 0 = clk 0"
  shows "passes_agree (sweep_stuck is_pg clk alone m limit t) (django_sweep_stuck clk' alone m limit db)"
proof -
  let ?T = "select_ids (\<lambda>r. status r = PROCESSING \<and> sql_lt (started_at r) (clk 0 - m * minute))
    (\<lambda>r. nulls_last (started_at r)) limit"
  have "?T (working t) = ?T db" by (rule agree_select_ids [OF assms(1)]) simp_all
  then show ?thesis
    using django_pass_agrees(1) [OF assms(1,2), where S = "\<lambda>r. status r = PROCESSING"
        and f = "\<lambda>r. r\<lparr>status := PENDING\<rparr>"
        and g = "\<lambda>r. r\<lparr>status := DEAD\<rparr>"
        and T = "?T db"]
      django_pass_agrees(2) [OF assms(1,2), where S = "\<lambda>r. status r = PROCESSING"
        and f = "\<lambda>r. r\<lparr>status := PENDING\<rparr>"
        and g = "\<lambda>r. r\<lparr>status := DEAD\<rparr>"
        and T = "?T db"
        and ?u1.0 = "clk 1" and ?u2.0 = "clk 2"] assms(1,3)
    by (simp add: passes_agree_def django_sweep_stuck_def sweep_stuck_def Let_def
        update_returning_def comp_def)
qed

lemma django_dispatching_agrees:
  assumes "agree (working t) db" and "distinct (map row_id db)" and "clk' 0 = clk 0"
  shows "passes_agree (sweep_dispatching is_pg clk alone d limit t)
    (django_sweep_dispatching clk' alone d limit db)"
proof -
  let ?T = "select_ids (\<lambda>r. status r = DISPATCHING \<and> sql_lt (dispatching_at r) (clk 0 - d * second))
    (\<lambda>r. nulls_last (dispatching_at r)) limit"
  have "?T (working t) = ?T db" by (rule agree_select_ids [OF assms(1)]) simp_all
  then show ?thesis
    using django_pass_agrees(1) [OF assms(1,2), where S = "\<lambda>r. status r = DISPATCHING"
        and f = "\<lambda>r. r\<lparr>status := PENDING, dispatching_at := None\<rparr>"
        and g = "\<lambda>r. r\<lparr>status := DEAD, dispatching_at := None\<rparr>"
        and T = "?T db"]
      django_pass_agrees(2) [OF assms(1,2), where S = "\<lambda>r. status r = DISPATCHING"
        and f = "\<lambda>r. r\<lparr>status := PENDING, dispatching_at := None\<rparr>"
        and g = "\<lambda>r. r\<lparr>status := DEAD, dispatching_at := None\<rparr>"
        and T = "?T db"
        and ?u1.0 = "clk 1" and ?u2.0 = "clk 2"] assms(1,3)
    by (simp add: passes_agree_def django_sweep_dispatching_def sweep_dispatching_def Let_def
        update_returning_def comp_def)
qed

lemma django_expired_agrees:
  assumes "agree (working t) db" and d: "distinct (map row_id db)" and "clk' 0 = clk 0"
  shows "passes_agree (sweep_expired clk locked alone limit t)
    (django_sweep_expired clk' locked alone limit db)"
proof -
  let ?S = "\<lambda>r. status r \<in> {PENDING, FAILED, DISPATCHING}"
  let ?P = "\<lambda>r. ?S r \<and> expires_at r \<noteq> None \<and> sql_le (expires_at r) (clk 0) \<and> \<not> locked (row_id r)"
  let ?T = "select_ids ?P (\<lambda>r. nulls_last (expires_at r)) limit"
  have T: "?T (working t) = ?T db" by (rule agree_select_ids [OF assms(1)]) simp_all
  have "map row_id (filter (\<lambda>r. row_id r \<in> set (?T db) \<and> ?S r) (working t))
      = map row_id (filter (\<lambda>r. row_id r \<in> set (?T db) \<and> ?S r) db)"
    by (rule agree_filter_ids [OF assms(1)]) simp
  moreover have "set (map row_id (filter (\<lambda>r. row_id r \<in> set (?T db) \<and> ?S r) db)) = set (?T db)"
    using select_ids_in [of _ ?P "\<lambda>r. nulls_last (expires_at r)" limit db]
    by (auto simp: image_iff)
  moreover have "agree (update_where (\<lambda>r. row_id r \<in> set (?T db) \<and> ?S r)
        (\<lambda>r. r\<lparr>status := EXPIRED, expired_at := Some (clk 0), dispatching_at := None,
               updated_at := clk 1\<rparr>) (working t))
      (update_where (\<lambda>r. row_id r \<in> set (?T db) \<and> ?S r)
        (\<lambda>r. r\<lparr>status := EXPIRED, expired_at := Some (clk 0), dispatching_at := None\<rparr>) db)"
    by (rule agree_update [OF assms(1),
          where h = "\<lambda>r. r\<lparr>status := EXPIRED, expired_at := Some (clk 0), dispatching_at := None\<rparr>"])
      simp_all
  ultimately show ?thesis
    using T assms(1,3)
    by (simp add: passes_agree_def django_sweep_expired_def sweep_expired_def Let_def
        update_returning_def comp_def) (metis (no_types, lifting) image_set)?
qed

lemma sweep_ids:
  "map row_id (working (snd (sweep_failed is_pg clk alone limit t))) = map row_id (working t)"
  "map row_id (working (snd (sweep_stuck is_pg clk alone m limit t))) = map row_id (working t)"
  "map row_id (working (snd (sweep_dispatching is_pg clk alone m limit t))) = map row_id (working t)"
  "map row_id (working (snd (sweep_expired clk locked alone limit t))) = map row_id (working t)"
  by (simp_all add: sweep_defs Let_def update_returning_def)

definition same_sets :: "sweep_result \<Rightarrow> sweep_result \<Rightarrow> bool" where
  "same_sets a b = (map (\<lambda>(k, ids). (k, set ids)) a = map (\<lambda>(k, ids). (k, set ids)) b)"

lemma django_sweep_agrees:
  assumes ag: "agree (working t) db" and d: "distinct (map row_id db)"
    and c: "\<And>k. clk' k 0 = clk k 0"
  shows "same_sets (fst (django_sweep clk' locked (\<lambda>_. alone) m n limit db))
      (fst (sweep is_pg clk locked (\<lambda>_. alone) m n limit t)) \<and>
    agree (working (snd (sweep is_pg clk locked (\<lambda>_. alone) m n limit t)))
      (snd (django_sweep clk' locked (\<lambda>_. alone) m n limit db))"
proof -
  obtain e t1 where t1: "sweep_expired (clk 0) locked alone limit t = (e, t1)" by (metis surj_pair)
  obtain f t2 where t2: "sweep_failed is_pg (clk 1) alone limit t1 = (f, t2)" by (metis surj_pair)
  obtain p t3 where t3: "sweep_dispatching is_pg (clk 2) alone n limit t2 = (p, t3)"
    by (metis surj_pair)
  obtain s t4 where t4: "sweep_stuck is_pg (clk 3) alone m limit t3 = (s, t4)" by (metis surj_pair)
  obtain e' d1 where d1: "django_sweep_expired (clk' 0) locked alone limit db = (e', d1)"
    by (metis surj_pair)
  obtain f' d2 where d2: "django_sweep_failed (clk' 1) alone limit d1 = (f', d2)"
    by (metis surj_pair)
  obtain p' d3 where d3: "django_sweep_dispatching (clk' 2) alone n limit d2 = (p', d3)"
    by (metis surj_pair)
  obtain s' d4 where d4: "django_sweep_stuck (clk' 3) alone m limit d3 = (s', d4)"
    by (metis surj_pair)
  have a1: "set e' = set e \<and> agree (working t1) d1"
    using t1 d1
      django_expired_agrees [where t = t and db = db and clk = "clk 0" and clk' = "clk' 0"
        and locked = locked and limit = limit] ag d c
    by (simp add: passes_agree_def)
  have k1: "distinct (map row_id d1)"
    using d agree_ids [OF ag] agree_ids [of "working t1" d1] a1 sweep_ids(4) [of "clk 0" locked limit t] t1
    by simp
  have a2: "set f' = set f \<and> agree (working t2) d2"
    using django_failed_agrees [where t = t1 and db = d1 and clk = "clk 1" and clk' = "clk' 1"
        and is_pg = is_pg and limit = limit] a1 k1 c t2 d2
    by (simp add: passes_agree_def)
  have k2: "distinct (map row_id d2)"
    using k1 agree_ids [of "working t1" d1] agree_ids [of "working t2" d2] a1 a2
      sweep_ids(1) [of is_pg "clk 1" limit t1] t2 by simp
  have a3: "set p' = set p \<and> agree (working t3) d3"
    using django_dispatching_agrees [where t = t2 and db = d2 and clk = "clk 2" and clk' = "clk' 2"
        and is_pg = is_pg and limit = limit and d = n] a2 k2 c t3 d3
    by (simp add: passes_agree_def)
  have k3: "distinct (map row_id d3)"
    using k2 agree_ids [of "working t2" d2] agree_ids [of "working t3" d3] a2 a3
      sweep_ids(3) [of is_pg "clk 2" n limit t2] t3 by simp
  have a4: "set s' = set s \<and> agree (working t4) d4"
    using django_stuck_agrees [where t = t3 and db = d3 and clk = "clk 3" and clk' = "clk' 3"
        and is_pg = is_pg and limit = limit and m = m] a3 k3 c t4 d4
    by (simp add: passes_agree_def)
  show ?thesis
    using a1 a2 a3 a4
    by (simp add: sweep_def django_sweep_def t1 t2 t3 t4 d1 d2 d3 d4 same_sets_def
        del: One_nat_def)
qed

section \<open>Row invariants under the locks of a pass\<close>

text \<open>
  \<open>pass_locked\<close>: what others commit during a pass leaves the rows it locked as they are.
\<close>

definition pass_locked ::
    "string list \<Rightarrow> (task_row \<Rightarrow> bool) \<Rightarrow> (task_row \<Rightarrow> bool) \<Rightarrow> (task_row \<Rightarrow> task_row) \<Rightarrow> others
     \<Rightarrow> ledger \<Rightarrow> bool" where
  "pass_locked T A S f env db0 =
     (respects_locks T (env 2) (env 1 db0) \<and> respects_locks T (env 3) (env 2 (env 1 db0)) \<and>
      respects_locks T (env 4) (update_where
        (\<lambda>r. row_id r \<in> set (select_where A (env 1 db0)) \<and> S r) f (env 3 (env 2 (env 1 db0)))))"

lemma pass_locked_alone [simp]: "pass_locked T A S f alone db0"
  by (simp add: pass_locked_def)

abbreviation retry_group :: "string list \<Rightarrow> task_status \<Rightarrow> task_row \<Rightarrow> bool" where
  "retry_group T st \<equiv> \<lambda>r. row_id r \<in> set T \<and> status r = st \<and> attempts r < max_attempts r"

text \<open>The rows the three passes lock.\<close>

abbreviation failed_ids :: "datetime \<Rightarrow> nat \<Rightarrow> ledger \<Rightarrow> string list" where
  "failed_ids now limit db \<equiv> select_ids
     (\<lambda>r. status r = FAILED \<and> sql_le (scheduled_for r) now)
     (\<lambda>r. nulls_last (scheduled_for r)) limit db"

abbreviation stuck_ids :: "datetime \<Rightarrow> nat \<Rightarrow> ledger \<Rightarrow> string list" where
  "stuck_ids threshold limit db \<equiv> select_ids
     (\<lambda>r. status r = PROCESSING \<and> sql_lt (started_at r) threshold)
     (\<lambda>r. nulls_last (started_at r)) limit db"

abbreviation lost_ids :: "datetime \<Rightarrow> nat \<Rightarrow> ledger \<Rightarrow> string list" where
  "lost_ids threshold limit db \<equiv> select_ids
     (\<lambda>r. status r = DISPATCHING \<and> sql_lt (dispatching_at r) threshold)
     (\<lambda>r. nulls_last (dispatching_at r)) limit db"

context row_invariant begin

lemma inv_django_failed:
  assumes "table_ok I db" and "\<And>k. keeps I (env k)"
    and "pass_locked (failed_ids (clk 0) limit (env 0 db))
      (retry_group (failed_ids (clk 0) limit (env 0 db)) FAILED) (\<lambda>r. status r = FAILED)
      (\<lambda>r. r\<lparr>status := PENDING\<rparr>) env (env 0 db)"
  shows "table_ok I (snd (django_sweep_failed clk env limit db))"
  using assms
  by (auto simp: django_sweep_failed_def Let_def keepsD pass_locked_def silent_steps
      intro!: inv_locked_updates [where T = "failed_ids (clk 0) limit (env 0 db)"] keepsD [OF assms(2)])

lemma inv_django_stuck:
  assumes "table_ok I db" and "\<And>k. keeps I (env k)"
    and "pass_locked (stuck_ids (clk 0 - m * minute) limit (env 0 db))
      (retry_group (stuck_ids (clk 0 - m * minute) limit (env 0 db)) PROCESSING) (\<lambda>r. status r = PROCESSING)
      (\<lambda>r. r\<lparr>status := PENDING\<rparr>) env (env 0 db)"
  shows "table_ok I (snd (django_sweep_stuck clk env m limit db))"
  using assms
  by (auto simp: django_sweep_stuck_def Let_def keepsD pass_locked_def silent_steps
      intro!: inv_locked_updates [where T = "stuck_ids (clk 0 - m * minute) limit (env 0 db)"] keepsD [OF assms(2)])

lemma inv_django_dispatching:
  assumes "table_ok I db" and "\<And>k. keeps I (env k)"
    and "pass_locked (lost_ids (clk 0 - m * second) limit (env 0 db))
      (retry_group (lost_ids (clk 0 - m * second) limit (env 0 db)) DISPATCHING) (\<lambda>r. status r = DISPATCHING)
      (\<lambda>r. r\<lparr>status := PENDING, dispatching_at := None\<rparr>) env (env 0 db)"
  shows "table_ok I (snd (django_sweep_dispatching clk env m limit db))"
  using assms
  by (auto simp: django_sweep_dispatching_def Let_def keepsD pass_locked_def silent_steps
      intro!: inv_locked_updates [where T = "lost_ids (clk 0 - m * second) limit (env 0 db)"] keepsD [OF assms(2)])

lemma inv_django_expired:
  assumes ok: "table_ok I db" and env: "\<And>k. keeps I (env k)"
    and locks: "respects_locks (expiry_ids clk locked limit (env 0 db)) (env 1) (env 0 db)"
  shows "table_ok I (snd (django_sweep_expired clk locked env limit db))"
proof -
  have ok0: "table_ok I (env 0 db)" using keepsD [OF env ok] .
  have "row_step r (r\<lparr>status := EXPIRED, expired_at := Some (clk 0), dispatching_at := None\<rparr>)"
    if "r \<in> set (env 1 (env 0 db))" and "row_id r \<in> set (expiry_ids clk locked limit (env 0 db))" for r
    using select_ids_locked [OF table_ok_ids [OF ok0] locks that]
    by (auto intro: silent_steps)
  then show ?thesis
    using ok0 keepsD [OF env ok0]
    by (auto simp: django_sweep_expired_def Let_def intro!: inv_update)
qed

lemma inv_django_sweep:
  assumes "table_ok I db"
  shows "table_ok I (snd (django_sweep clk locked (\<lambda>_. alone) m d limit db))"
proof -
  obtain e db1 where 1: "django_sweep_expired (clk 0) locked alone limit db = (e, db1)"
    by (metis surj_pair)
  obtain f db2 where 2: "django_sweep_failed (clk 1) alone limit db1 = (f, db2)" by (metis surj_pair)
  obtain p db3 where 3: "django_sweep_dispatching (clk 2) alone d limit db2 = (p, db3)"
    by (metis surj_pair)
  obtain s db4 where 4: "django_sweep_stuck (clk 3) alone m limit db3 = (s, db4)" by (metis surj_pair)
  have "table_ok I db1" using inv_django_expired [of db alone "clk 0" locked limit] assms 1 by simp
  then have "table_ok I db2" using inv_django_failed [of db1 alone "clk 1" limit] 2 by simp
  then have "table_ok I db3" using inv_django_dispatching [of db2 alone "clk 2" d limit] 3 by simp
  then have "table_ok I db4" using inv_django_stuck [of db3 alone "clk 3" m limit] 4 by simp
  then show ?thesis by (simp add: django_sweep_def 1 2 3 4 del: One_nat_def)
qed

end

end
