(* ===== verification/Dj_Dispatch.thy ===== *)
theory Dj_Dispatch
  imports Dj_Sweep Sa_Dispatch
begin

text \<open>
  \<open>DjangoDispatchBackend\<close> of \<open>src/dewey/django/dispatch.py\<close>.  The claim runs in one
  \<open>transaction.atomic\<close> block and returns the identifiers it locked, where the SQLAlchemy
  backend returns the ones its \<open>UPDATE\<close> reports; \<open>update()\<close> leaves \<open>updated_at\<close> alone.
  The alias of the database is \<open>b_database_identity\<close>.
\<close>

definition django_backend_init ::
    "string \<Rightarrow> datetime \<Rightarrow> string list option \<Rightarrow> int \<Rightarrow> int \<Rightarrow> nat \<Rightarrow> string \<Rightarrow> backend" where
  "django_backend_init uuid now queues stuck timeout limit using_alias =
     \<lparr>b_queues = (case queues of None \<Rightarrow> None | Some qs \<Rightarrow> if qs = [] then None else Some qs),
      b_stuck_threshold_minutes = stuck, b_dispatch_timeout_seconds = timeout,
      b_sweep_limit = limit, b_postgresql = True, b_instance_id = uuid,
      b_database_identity = using_alias, b_started_at = now\<rparr>"

definition django_claim ::
    "backend \<Rightarrow> clock \<Rightarrow> (nat \<Rightarrow> string \<Rightarrow> bool) \<Rightarrow> others \<Rightarrow> nat \<Rightarrow> ledger
     \<Rightarrow> string list \<times> ledger" where
  "django_claim b clk locked env limit db =
     (let now = clk 0;
          in_scope = (\<lambda>r. case b_queues b of None \<Rightarrow> True | Some qs \<Rightarrow> queue r \<in> set qs);
          due = (\<lambda>r. scheduled_for r = None \<or> sql_le (scheduled_for r) now);
          ready = (\<lambda>r. (status r = PENDING \<and> due r) \<or>
                       (status r = FAILED \<and> sql_le (scheduled_for r) now \<and>
                        attempts r < max_attempts r));
          db0 = env 0 db;
          expired_ids = take limit (map row_id (filter
            (\<lambda>r. status r \<in> {PENDING, FAILED} \<and> expires_at r \<noteq> None \<and>
                 sql_le (expires_at r) now \<and> in_scope r \<and> \<not> locked 0 (row_id r)) db0));
          db1 = (if expired_ids = [] then env 1 db0
                 else update_where (\<lambda>r. row_id r \<in> set expired_ids)
                   (\<lambda>r. r\<lparr>status := EXPIRED, expired_at := Some now, dispatching_at := None\<rparr>)
                   (env 1 db0));
          db2 = env 2 db1;
          task_ids = select_ids
            (\<lambda>r. ready r \<and> (case expires_at r of None \<Rightarrow> True | Some t \<Rightarrow> t > now) \<and>
                 in_scope r \<and> \<not> locked 1 (row_id r))
            (\<lambda>r. (- priority r,
                   (case scheduled_for r of None \<Rightarrow> created_at r | Some t \<Rightarrow> t),
                   created_at r)) limit db2
      in if task_ids = [] then ([], db2)
         else (task_ids,
               update_where (\<lambda>r. row_id r \<in> set task_ids \<and> status r \<in> {PENDING, FAILED})
                 (\<lambda>r. r\<lparr>status := DISPATCHING, dispatching_at := Some now\<rparr>) (env 3 db2)))"

definition django_next_due :: "backend \<Rightarrow> datetime \<Rightarrow> ledger \<Rightarrow> datetime option" where
  "django_next_due b now db =
     (let rows = filter
            (\<lambda>r. (status r = PENDING \<or> (status r = FAILED \<and> attempts r < max_attempts r)) \<and>
                 scheduled_for r \<noteq> None \<and>
                 (case b_queues b of None \<Rightarrow> True | Some qs \<Rightarrow> queue r \<in> set qs)) db;
          wakes = List.map_filter
            (\<lambda>r. if (case (expires_at r, scheduled_for r) of
                       (Some e, Some s) \<Rightarrow> e < s | _ \<Rightarrow> False)
                 then expires_at r else scheduled_for r) rows
      in if wakes = [] then None
         else let due_at = Min (set wakes) in Some (if due_at \<ge> now then due_at else now))"

definition django_release :: "string list \<Rightarrow> ledger \<Rightarrow> ledger" where
  "django_release task_ids db =
     (if task_ids = [] then db
      else update_where (\<lambda>r. row_id r \<in> set task_ids \<and> status r = DISPATCHING)
             (\<lambda>r. r\<lparr>status := PENDING, dispatching_at := None\<rparr>) db)"

definition django_run_sweep ::
    "backend \<Rightarrow> (nat \<Rightarrow> clock) \<Rightarrow> (string \<Rightarrow> bool) \<Rightarrow> (nat \<Rightarrow> others) \<Rightarrow> ledger
     \<Rightarrow> sweep_result \<times> ledger" where
  "django_run_sweep b clk locked env db =
     django_sweep clk locked env (b_stuck_threshold_minutes b) (b_dispatch_timeout_seconds b)
       (b_sweep_limit b) db"

definition django_heartbeat :: "string \<Rightarrow> backend \<Rightarrow> datetime \<Rightarrow> heartbeats \<Rightarrow> heartbeats" where
  "django_heartbeat version b now rows =
     (let row = \<lparr>hb_instance_id = b_instance_id b, hb_version = version, hb_backend = ''django'',
                 hb_database = b_database_identity b, hb_queues = b_queues b,
                 hb_started_at = b_started_at b, hb_last_seen_at = now\<rparr>;
          cutoff = now - default_heartbeat_retention_days * day
      in prune_heartbeats cutoff (upsert_heartbeat (\<lambda>_. row) row rows))"

definition django_close_heartbeat :: "bool \<Rightarrow> backend \<Rightarrow> heartbeats \<Rightarrow> heartbeats" where
  "django_close_heartbeat database_up b rows =
     (if database_up then delete_where (\<lambda>h. hb_instance_id h = b_instance_id b) rows else rows)"

section \<open>Agreement with the SQLAlchemy backend\<close>

lemma stamp_blind [simp]:
  "in_queues qs (r\<lparr>updated_at := t\<rparr>) = in_queues qs r"
  "not_expired now (r\<lparr>updated_at := t\<rparr>) = not_expired now r"
  "claim_due now (r\<lparr>updated_at := t\<rparr>) = claim_due now r"
  "claim_order (r\<lparr>updated_at := t\<rparr>) = claim_order r"
  by (simp_all add: in_queues_def not_expired_def claim_due_def claim_order_def effective_due_def
      cong: option.case_cong)

lemma candidate_blind [simp]:
  "expiry_candidate b now locked (r\<lparr>updated_at := t\<rparr>) = expiry_candidate b now locked r"
  "claim_candidate b now locked (r\<lparr>updated_at := t\<rparr>) = claim_candidate b now locked r"
  by (simp_all add: expiry_candidate_def claim_candidate_def)

lemma django_next_due_eq: "django_next_due b now db = next_due b now db"
proof -
  have w: "(if (case (expires_at r, scheduled_for r) of (Some e, Some s) \<Rightarrow> e < s | _ \<Rightarrow> False)
      then expires_at r else scheduled_for r) = wake_at r" for r
    by (simp add: wake_at_def split: option.split)
  have f: "filter (\<lambda>r. (status r = PENDING \<or> (status r = FAILED \<and> attempts r < max_attempts r)) \<and>
      scheduled_for r \<noteq> None \<and>
      (case b_queues b of None \<Rightarrow> True | Some qs \<Rightarrow> queue r \<in> set qs)) db
    = filter (\<lambda>r. scheduled_for r \<noteq> None \<and> (status r = PENDING \<or>
        (status r = FAILED \<and> attempts r < max_attempts r)) \<and> in_queues (b_queues b) r) db"
    by (rule filter_cong) (auto simp: in_queues_def)
  show ?thesis
    unfolding django_next_due_def next_due_def Let_def w f ..
qed

text \<open>
  On PostgreSQL, alone, and with the same clock reading, the two claims return the same tasks
  in the same order and leave tables that agree.
\<close>

lemma agree_select_expired:
  assumes "agree a db"
  shows "select_expired b now locked limit a = select_expired b now locked limit db"
proof -
  have "map row_id (filter (expiry_candidate b now locked) a)
      = map row_id (filter (expiry_candidate b now locked) db)"
    by (rule agree_filter_ids [OF assms]) simp
  then show ?thesis by (simp add: select_expired_def)
qed

lemma claim_alone:
  assumes "ledger_wf db"
  shows "fst (claim b clk locked alone limit db)
    = candidates b clk locked limit (claim_view b clk locked alone limit db)"
proof -
  let ?v = "claim_view b clk locked alone limit db"
  have "\<exists>r \<in> set ?v. row_id r = i \<and> status r \<in> {PENDING, FAILED}"
    if "i \<in> set (candidates b clk locked limit ?v)" for i
    using select_ids_in [OF that] by (auto simp: claim_candidate_def claim_due_def)
  then show ?thesis
    by (simp add: claim_eq Let_def filter_id_conv)
qed

lemma django_claim_agrees:
  assumes "agree a db" and pg: "b_postgresql b" and c: "clk' 0 = clk 0"
  shows "fst (django_claim b clk' locked alone limit db)
      = candidates b clk locked limit (claim_view b clk locked alone limit a) \<and>
    agree (snd (claim b clk locked alone limit a)) (snd (django_claim b clk' locked alone limit db))"
proof -
  define X where "X = select_expired b (clk 0) (locked 0) limit db"
  define V where "V = (if X = [] then db else update_where (\<lambda>r. row_id r \<in> set X)
    (\<lambda>r. r\<lparr>status := EXPIRED, expired_at := Some (clk 0), dispatching_at := None\<rparr>) db)"
  let ?W = "claim_view b clk locked alone limit a"
  have X: "select_expired b (clk 0) (locked 0) limit a = X"
    using agree_select_expired [OF assms(1)] by (simp add: X_def)
  have VW: "agree ?W V"
    using assms(1) X
    by (auto simp: claim_view_def expire_rows_def V_def intro: agree_update
        [where h = "\<lambda>r. r\<lparr>status := EXPIRED, expired_at := Some (clk 0), dispatching_at := None\<rparr>"])
  define T where "T = candidates b clk locked limit ?W"
  have T: "T = select_ids (claim_candidate b (clk 0) (locked 1)) claim_order limit V"
    unfolding T_def
    by (rule agree_select_ids [OF VW])
      simp_all
  have cand: "(\<lambda>r. ((status r = PENDING \<and> (scheduled_for r = None \<or> sql_le (scheduled_for r) (clk 0))) \<or>
        (status r = FAILED \<and> sql_le (scheduled_for r) (clk 0) \<and> attempts r < max_attempts r)) \<and>
      (case expires_at r of None \<Rightarrow> True | Some t \<Rightarrow> t > clk 0) \<and>
      (case b_queues b of None \<Rightarrow> True | Some qs \<Rightarrow> queue r \<in> set qs) \<and> \<not> locked 1 (row_id r))
    = claim_candidate b (clk 0) (locked 1)"
    by (rule ext) (simp add: claim_candidate_def claim_due_def not_expired_def in_queues_def pg)
  have ord: "(\<lambda>r. (- priority r, (case scheduled_for r of None \<Rightarrow> created_at r | Some t \<Rightarrow> t),
      created_at r)) = claim_order"
    by (rule ext) (simp add: claim_order_def effective_due_def)
  have exp: "take limit (map row_id (filter (\<lambda>r. status r \<in> {PENDING, FAILED} \<and>
      expires_at r \<noteq> None \<and> sql_le (expires_at r) (clk 0) \<and>
      (case b_queues b of None \<Rightarrow> True | Some qs \<Rightarrow> queue r \<in> set qs) \<and> \<not> locked 0 (row_id r)) db)) = X"
    unfolding X_def select_expired_def
    by (rule arg_cong [where f = "\<lambda>P. take limit (map row_id (filter P db))"])
      (rule ext, simp add: expiry_candidate_def in_queues_def pg)
  have dj: "django_claim b clk' locked alone limit db =
      (if T = [] then ([], V)
       else (T, update_where (\<lambda>r. row_id r \<in> set T \<and> status r \<in> {PENDING, FAILED})
              (\<lambda>r. r\<lparr>status := DISPATCHING, dispatching_at := Some (clk 0)\<rparr>) V))"
    unfolding django_claim_def Let_def c cand ord exp V_def [symmetric] T [symmetric] ..
  have "agree (update_where (\<lambda>r. row_id r \<in> set T \<and> status r \<in> {PENDING, FAILED})
        (\<lambda>r. r\<lparr>status := DISPATCHING, dispatching_at := Some (clk 0), updated_at := clk 2\<rparr>) ?W)
      (update_where (\<lambda>r. row_id r \<in> set T \<and> status r \<in> {PENDING, FAILED})
        (\<lambda>r. r\<lparr>status := DISPATCHING, dispatching_at := Some (clk 0)\<rparr>) V)"
    by (rule agree_update [OF VW,
          where h = "\<lambda>r. r\<lparr>status := DISPATCHING, dispatching_at := Some (clk 0)\<rparr>"]) simp_all
  then show ?thesis
    using VW by (simp add: dj claim_eq Let_def T_def [symmetric] del: One_nat_def)
qed

lemma django_release_agrees: "agree a db \<Longrightarrow> agree (release clk ids a) (django_release ids db)"
  by (auto simp: release_def django_release_def
      intro: agree_update [where h = "\<lambda>r. r\<lparr>status := PENDING, dispatching_at := None\<rparr>"])

section \<open>Row invariants\<close>

context row_invariant begin

lemma inv_django_claim:
  assumes ok: "table_ok I db"
  shows "table_ok I (snd (django_claim b clk locked alone limit db))"
proof -
  let ?E = "\<lambda>r. status r \<in> {PENDING, FAILED} \<and> expires_at r \<noteq> None \<and> sql_le (expires_at r) (clk 0) \<and>
    (case b_queues b of None \<Rightarrow> True | Some qs \<Rightarrow> queue r \<in> set qs) \<and> \<not> locked 0 (row_id r)"
  let ?X = "take limit (map row_id (filter ?E db))"
  let ?f = "\<lambda>r. r\<lparr>status := EXPIRED, expired_at := Some (clk 0), dispatching_at := None\<rparr>"
  let ?V = "if ?X = [] then db else update_where (\<lambda>r. row_id r \<in> set ?X) ?f db"
  let ?C = "\<lambda>r. ((status r = PENDING \<and> (scheduled_for r = None \<or> sql_le (scheduled_for r) (clk 0))) \<or>
        (status r = FAILED \<and> sql_le (scheduled_for r) (clk 0) \<and> attempts r < max_attempts r)) \<and>
      (case expires_at r of None \<Rightarrow> True | Some t \<Rightarrow> t > clk 0) \<and>
      (case b_queues b of None \<Rightarrow> True | Some qs \<Rightarrow> queue r \<in> set qs) \<and> \<not> locked 1 (row_id r)"
  let ?k = "\<lambda>r. (- priority r, (case scheduled_for r of None \<Rightarrow> created_at r | Some t \<Rightarrow> t),
      created_at r)"
  have X: "row_step r (?f r)" if "r \<in> set db" "row_id r \<in> set ?X" for r
  proof -
    have "row_id r \<in> set (select_where ?E db)"
      using that(2) by (auto simp: select_where_def dest!: in_set_takeD)
    then have "?E r" using select_where_row [OF table_ok_ids [OF ok] that(1)] by blast
    then show ?thesis by (auto intro: silent_steps)
  qed
  have V: "table_ok I ?V" using ok X by (auto intro!: inv_update)
  have "row_step r (r\<lparr>status := DISPATCHING, dispatching_at := Some (clk 0)\<rparr>)"
    if "r \<in> set ?V" "row_id r \<in> set (select_ids ?C ?k limit ?V)" for r
    using select_ids_row [OF table_ok_ids [OF V] that] by (auto intro: silent_steps)
  then have "table_ok I (update_where
      (\<lambda>r. row_id r \<in> set (select_ids ?C ?k limit ?V) \<and> status r \<in> {PENDING, FAILED})
      (\<lambda>r. r\<lparr>status := DISPATCHING, dispatching_at := Some (clk 0)\<rparr>) ?V)"
    using V by (intro inv_update) auto
  then show ?thesis
    using V unfolding django_claim_def Let_def by simp
qed

lemma inv_django_release: "table_ok I db \<Longrightarrow> table_ok I (django_release ids db)"
  by (auto simp: django_release_def silent_steps intro!: inv_update)

end

end
