(* ===== verification/Dj_Queries.thy ===== *)
theory Dj_Queries
  imports Sa_Queries Dj_Sweep
begin

text \<open>
  \<open>src/dewey/django/queries.py\<close>: the operator actions and the read queries.  The actions send no notification;
  \<open>bulk_retry\<close> leaves \<open>updated_at\<close> alone, where the single-row actions stamp it.
\<close>

definition django_retry_task :: "clock \<Rightarrow> string \<Rightarrow> ledger \<Rightarrow> task_entry option \<times> ledger" where
  "django_retry_task clk task_id db =
     (case find_row task_id db of
        None \<Rightarrow> (None, db)
      | Some task \<Rightarrow>
          if status task = EXPIRED then (None, db)
          else if \<not> can_transition_to (status task) PENDING then (Some (to_dataclass task), db)
          else
            let task' = task\<lparr>status := PENDING, scheduled_for := None, error := '''',
                             attempts := 0, updated_at := clk 0\<rparr>
            in (Some (to_dataclass task'),
                set_row task_id
                  (\<lambda>r. r\<lparr>status := status task', scheduled_for := scheduled_for task',
                         error := error task', attempts := attempts task',
                         updated_at := updated_at task'\<rparr>) db))"

definition django_bulk_retry ::
    "string option \<Rightarrow> task_status \<Rightarrow> ledger \<Rightarrow> (nat \<times> ledger) result" where
  "django_bulk_retry ty st db =
     (if \<not> can_transition_to st PENDING
      then Inl (py_exn ValueErrorC (''Cannot retry tasks in '' @ status_value st @ '' state''))
      else
        let (updated, db') = update_returning (\<lambda>r. status r = st \<and> of_type ty r)
              (\<lambda>r. r\<lparr>status := PENDING, scheduled_for := None, error := '''', attempts := 0\<rparr>) db
        in Inr (length updated, db'))"

definition django_kill_task :: "clock \<Rightarrow> string \<Rightarrow> ledger \<Rightarrow> task_entry option \<times> ledger" where
  "django_kill_task clk task_id db =
     (case find_row task_id db of
        None \<Rightarrow> (None, db)
      | Some task \<Rightarrow>
          if \<not> can_transition_to (status task) DEAD then (Some (to_dataclass task), db)
          else
            let task' = task\<lparr>status := DEAD, updated_at := clk 0\<rparr>
            in (Some (to_dataclass task'),
                set_row task_id
                  (\<lambda>r. r\<lparr>status := status task', updated_at := updated_at task'\<rparr>) db))"

definition django_purge_completed ::
    "datetime \<Rightarrow> int \<Rightarrow> string option \<Rightarrow> ledger \<Rightarrow> nat \<times> ledger" where
  "django_purge_completed now older_than_days ty db =
     (let threshold = now - older_than_days * day;
          old = (\<lambda>r. status r = COMPLETED \<and> sql_lt (completed_at r) threshold \<and> of_type ty r)
      in (length (filter old db), delete_where old db))"

definition django_get_stats :: "ledger \<Rightarrow> (string \<times> nat) list" where
  "django_get_stats db =
     map (\<lambda>s. (status_value s, length (filter (\<lambda>r. status r = s) db))) all_statuses"

section \<open>Queries\<close>

text \<open>
  A query set is narrowed by each \<open>filter\<close>, ordered, and sliced.  \<open>str(self.id)\<close> is the identifier,
  which is text.
\<close>

definition django_to_dataclass :: "task_row \<Rightarrow> task_entry" where
  "django_to_dataclass r =
     \<lparr>e_id = row_id r, e_task_type = task_type r, e_status = status r, e_args = args r,
      e_kwargs = kwargs r, e_queue = queue r, e_priority = priority r, e_attempts = attempts r,
      e_max_attempts = max_attempts r, e_error = error r, e_created_at = created_at r,
      e_updated_at = updated_at r, e_scheduled_for = scheduled_for r,
      e_dispatching_at = dispatching_at r, e_started_at = started_at r,
      e_completed_at = completed_at r, e_idempotency_key = idempotency_key r,
      e_metadata = task_metadata r, e_expires_at = expires_at r,
      e_initial_scheduled_for = initial_scheduled_for r, e_expired_at = expired_at r\<rparr>"

definition django_to_list :: "task_row list \<Rightarrow> task_entry list" where
  "django_to_list qs = map django_to_dataclass qs"

text \<open>\<open>if task_type: qs = qs.filter(task_type=task_type)\<close>\<close>

definition filter_type :: "string option \<Rightarrow> task_row list \<Rightarrow> task_row list" where
  "filter_type ty qs =
     (case ty of None \<Rightarrow> qs | Some s \<Rightarrow> if s = [] then qs else filter (\<lambda>r. task_type r = s) qs)"

definition django_get_dispatchers ::
    "string option \<Rightarrow> string list option \<Rightarrow> pyfloat \<Rightarrow> datetime \<Rightarrow> heartbeats
     \<Rightarrow> heartbeat_row list result" where
  "django_get_dispatchers database queues fresh_within_seconds observed_at rows =
     (case seconds_before observed_at fresh_within_seconds of
        Inl e \<Rightarrow> Inl e
      | Inr cutoff \<Rightarrow>
          let qs = filter (\<lambda>h. cutoff \<le> hb_last_seen_at h) rows;
              qs' = (case database of None \<Rightarrow> qs | Some d \<Rightarrow> filter (\<lambda>h. hb_database h = d) qs);
              requested = (case queues of None \<Rightarrow> None | Some [] \<Rightarrow> None | Some q \<Rightarrow> Some q)
          in Inr [h \<leftarrow> sort_key (\<lambda>h. - hb_last_seen_at h) qs'. serves h requested])"

definition django_get_pending :: "nat \<Rightarrow> string option \<Rightarrow> ledger \<Rightarrow> task_entry list" where
  "django_get_pending limit ty db =
     (let qs = filter_type ty (filter (\<lambda>r. status r = PENDING) db)
      in django_to_list (take limit (sort_key created_at qs)))"

definition django_get_processing :: "nat \<Rightarrow> ledger \<Rightarrow> task_entry list" where
  "django_get_processing limit db =
     (let qs = sort_key (\<lambda>r. nulls_last (started_at r)) (filter (\<lambda>r. status r = PROCESSING) db)
      in django_to_list (take limit qs))"

definition django_get_dispatching :: "nat \<Rightarrow> ledger \<Rightarrow> task_entry list" where
  "django_get_dispatching limit db =
     (let qs = sort_key (\<lambda>r. nulls_last (dispatching_at r)) (filter (\<lambda>r. status r = DISPATCHING) db)
      in django_to_list (take limit qs))"

definition django_get_stuck :: "datetime \<Rightarrow> int \<Rightarrow> ledger \<Rightarrow> task_entry list" where
  "django_get_stuck now older_than_minutes db =
     (let threshold = now - older_than_minutes * minute;
          qs = sort_key (\<lambda>r. nulls_last (started_at r))
                 (filter (\<lambda>r. status r = PROCESSING \<and> sql_lt (started_at r) threshold) db)
      in django_to_list qs)"

definition django_get_failed :: "nat \<Rightarrow> string option \<Rightarrow> ledger \<Rightarrow> task_entry list" where
  "django_get_failed limit ty db =
     (let qs = filter_type ty (filter (\<lambda>r. status r = FAILED) db)
      in django_to_list (take limit (sort_key (\<lambda>r. - created_at r) qs)))"

definition django_get_dead :: "nat \<Rightarrow> string option \<Rightarrow> ledger \<Rightarrow> task_entry list" where
  "django_get_dead limit ty db =
     (let qs = filter_type ty (filter (\<lambda>r. status r = DEAD) db)
      in django_to_list (take limit (sort_key (\<lambda>r. - created_at r) qs)))"

definition django_get_expired :: "nat \<Rightarrow> string option \<Rightarrow> ledger \<Rightarrow> task_entry list" where
  "django_get_expired limit ty db =
     (let qs = filter_type ty (filter (\<lambda>r. status r = EXPIRED) db)
      in django_to_list (take limit (sort_key (\<lambda>r. desc_nulls_first (expired_at r)) qs)))"

definition django_get_task :: "string \<Rightarrow> ledger \<Rightarrow> task_entry option" where
  "django_get_task task_id db =
     (case filter (\<lambda>r. row_id r = task_id) db of
        [] \<Rightarrow> None
      | r # _ \<Rightarrow> Some (django_to_dataclass r))"

definition django_get_recent ::
    "nat \<Rightarrow> string option \<Rightarrow> task_status option \<Rightarrow> datetime option \<Rightarrow> ledger
     \<Rightarrow> task_entry list" where
  "django_get_recent limit ty st since db =
     (let qs = filter_type ty db;
          qs1 = (case st of None \<Rightarrow> qs | Some s \<Rightarrow> filter (\<lambda>r. status r = s) qs);
          qs2 = (case since of None \<Rightarrow> qs1 | Some t \<Rightarrow> filter (\<lambda>r. created_at r \<ge> t) qs1)
      in django_to_list (take limit (sort_key (\<lambda>r. - created_at r) qs2)))"

section \<open>Facts\<close>

lemma django_to_list_eq: "django_to_list = map to_dataclass"
  by (intro ext) (simp add: django_to_list_def django_to_dataclass_def to_dataclass_def)

lemma filter_type_eq: "filter_type ty qs = filter (of_type ty) qs"
  by (auto simp: filter_type_def of_type_def [abs_def] split: option.split)

lemma django_get_task_eq: "django_get_task i db = get_task i db"
proof -
  have "find_row i db = (case filter (\<lambda>r. row_id r = i) db of [] \<Rightarrow> None | r # _ \<Rightarrow> Some r)"
    by (induction db) (auto simp: find_row_def)
  then show ?thesis
    by (auto simp: django_get_task_def get_task_def django_to_dataclass_def to_dataclass_def
        split: list.splits)
qed

lemmas django_lists = django_get_pending_def django_get_processing_def django_get_dispatching_def
  django_get_stuck_def django_get_failed_def django_get_dead_def django_get_expired_def
  django_get_recent_def

lemmas sqlalchemy_lists = get_pending_def get_processing_def get_dispatching_def get_stuck_def
  get_failed_def get_dead_def get_expired_def get_recent_def select_entries_def order_limit_def

lemma django_lists_eq:
  "django_get_pending n ty db = get_pending n ty db"
  "django_get_processing n db = get_processing n db"
  "django_get_dispatching n db = get_dispatching n db"
  "django_get_stuck now m db = get_stuck now m db"
  "django_get_failed n ty db = get_failed n ty db"
  "django_get_dead n ty db = get_dead n ty db"
  "django_get_expired n ty db = get_expired n ty db"
  by (simp_all add: django_lists sqlalchemy_lists Let_def django_to_list_eq filter_type_eq conj_commute)

lemma django_get_recent_eq: "django_get_recent n ty st since db = get_recent n ty st since db"
  by (auto simp: django_lists sqlalchemy_lists Let_def django_to_list_eq filter_type_eq conj_ac
      split: option.split intro!: arg_cong [where f = "map to_dataclass"] arg_cong [where f = "take n"]
        arg_cong [where f = "sort_key (\<lambda>r. - created_at r)"] filter_cong)

lemma django_get_dispatchers_eq:
  "django_get_dispatchers d q w now rows = get_dispatchers d q w now rows"
  by (auto simp: django_get_dispatchers_def get_dispatchers_def Let_def
      split: sum.split option.split list.split)

lemma django_retry_eq:
  "fst (django_retry_task clk i (working t)) = fst (retry_task is_pg clk i t)"
  "snd (django_retry_task clk i (working t)) = working (snd (retry_task is_pg clk i t))"
  by (simp_all add: django_retry_task_def retry_task_def Let_def split: option.split)

lemma django_kill_eq:
  "fst (django_kill_task clk i (working t)) = fst (kill_task clk i t)"
  "snd (django_kill_task clk i (working t)) = working (snd (kill_task clk i t))"
  by (simp_all add: django_kill_task_def kill_task_def Let_def split: option.split)

lemma django_bulk_retry_changed:
  "django_bulk_retry ty st db = Inr (n, db') \<Longrightarrow> rows_changed row_step db db'"
  by (auto simp: django_bulk_retry_def update_returning_def silent_steps split: if_splits)

end
