(* ===== verification/Parity_Properties.thy ===== *)
theory Parity_Properties
  imports Dj_Executor Dj_Dispatch Dj_Queries Claim_Properties
begin

text \<open>
  The Django integration does what the SQLAlchemy integration does: the executors are equal as
  functions, and the bulk statements agree up to \<open>updated_at\<close>, which Django's \<open>update()\<close> leaves
  alone.
\<close>

text \<open>
  C37. The two executors are one program: for any transaction, request, handler, policy and interfering
  commit, the Django functions that create a task, create or get one, and process one return the same
  value and leave the same table, notifications and trace context as the SQLAlchemy ones.
\<close>

theorem executors_equivalent:
  assumes "ledger_wf db" and "\<And>a. ledger_wf a \<Longrightarrow> ledger_wf (env a)"
  shows "django_process_task call st fn u clk env h b i (db, var)
      = process_task call st fn u clk env h b i (db, var) \<and>
    django_create_task vendor st new_id clk' rq t
      = create_task (vendor = ''postgresql'') st new_id clk' rq t \<and>
    django_create_or_get_task vendor st new_id clk' env' rq t
      = create_or_get_task (vendor = ''postgresql'') st new_id clk' env' rq t"
proof -
  let ?db1 = "snd (process_claim st (clk 0) i db)"
  have "ledger_wf ?db1"
    using row_changed_wf [OF process_claim_changed] ledger_wf_distinct [OF assms(1)] assms(1) by blast
  then have "distinct (map row_id (env ?db1))" using assms(2) ledger_wf_distinct by blast
  then show ?thesis
    by (intro conjI django_process_task_eq ledger_wf_distinct [OF assms(1)] django_create_task_eq
        django_create_or_get_eq)
qed

theorem executors_equivalent_witness:
  "django_process_task (\<lambda>(h :: nat) xs kvs var. (None, var)) no_policy no_backoff_fn 0 (\<lambda>_. sample_clock)
     (\<lambda>a. a) (Some 0) None ''b'' (sample_backlog, None)
   = process_task (\<lambda>(h :: nat) xs kvs var. (None, var)) no_policy no_backoff_fn 0 (\<lambda>_. sample_clock)
     (\<lambda>a. a) (Some 0) None ''b'' (sample_backlog, None)"
  by (rule executors_equivalent [OF sample_backlog_wf, THEN conjunct1])

text \<open>
  C40. The two dispatch backends agree on PostgreSQL: on the same table, with the same clock reading, they
  claim the same tasks in the same order, wake at the same moment, and their claims, releases and
  sweeps leave tables that differ in modification times only; their sweeps report the same tasks under
  each heading.
\<close>

theorem backends_agree:
  assumes "ledger_wf db" and "b_postgresql b" and "clk' 0 = clk 0" and "\<And>k. clks' k 0 = clks k 0"
  shows "fst (django_claim b clk' locked alone n db) = fst (claim b clk locked alone n db) \<and>
    agree (snd (claim b clk locked alone n db)) (snd (django_claim b clk' locked alone n db)) \<and>
    django_next_due b now db = next_due b now db \<and>
    agree (release clk ids db) (django_release ids db) \<and>
    same_sets (fst (django_run_sweep b clks' lk (\<lambda>_. alone) db))
      (fst (run_sweep b clks lk (\<lambda>_. alone) db sent)) \<and>
    agree (fst (snd (run_sweep b clks lk (\<lambda>_. alone) db sent)))
      (snd (django_run_sweep b clks' lk (\<lambda>_. alone) db))"
proof -
  have c: "fst (django_claim b clk' locked alone n db) = fst (claim b clk locked alone n db) \<and>
      agree (snd (claim b clk locked alone n db)) (snd (django_claim b clk' locked alone n db))"
    using django_claim_agrees [where a = db and db = db and b = b and clk = clk and clk' = clk',
        OF agree_refl assms(2,3), of locked n] claim_alone [OF assms(1)] by simp
  have ag: "agree (working (begin_transaction db sent)) db" by simp
  obtain res t where sw: "sweep (b_postgresql b) clks lk (\<lambda>_. alone) (b_stuck_threshold_minutes b)
      (b_dispatch_timeout_seconds b) (b_sweep_limit b) (begin_transaction db sent) = (res, t)"
    by (metis surj_pair)
  have "run_sweep b clks lk (\<lambda>_. alone) db sent = (res, working t, delivered t @ queued t)"
    using sw by (simp add: run_sweep_def commit_simps)
  then have s: "same_sets (fst (django_run_sweep b clks' lk (\<lambda>_. alone) db))
        (fst (run_sweep b clks lk (\<lambda>_. alone) db sent)) \<and>
      agree (fst (snd (run_sweep b clks lk (\<lambda>_. alone) db sent)))
        (snd (django_run_sweep b clks' lk (\<lambda>_. alone) db))"
    using django_sweep_agrees [where t = "begin_transaction db sent" and clk = clks and clk' = clks'
        and locked = lk and m = "b_stuck_threshold_minutes b" and n = "b_dispatch_timeout_seconds b"
        and limit = "b_sweep_limit b" and is_pg = "b_postgresql b",
        OF ag ledger_wf_distinct [OF assms(1)] assms(4)] sw
    by (simp add: django_run_sweep_def)
  show ?thesis
    using c s django_next_due_eq [of b now db] django_release_agrees [OF agree_refl, of clk ids db] by blast
qed

theorem backends_agree_witness:
  "fst (django_claim sample_backend sample_clock (\<lambda>_ _. False) alone 2 sample_backlog) = [''b'', ''c''] \<and>
   agree (release sample_clock [''b''] sample_backlog) (django_release [''b''] sample_backlog)"
proof -
  have "fst (claim sample_backend sample_clock (\<lambda>_ _. False) alone 2 sample_backlog) = [''b'', ''c'']"
    by code_simp
  moreover have "b_postgresql sample_backend" by (simp add: sample_backend_def)
  ultimately show ?thesis
    using backends_agree [where b = sample_backend and clk = sample_clock and clk' = sample_clock
        and clks = "\<lambda>_. sample_clock" and clks' = "\<lambda>_. sample_clock" and n = 2
        and locked = "\<lambda>_ _. False" and ids = "[''b'']", OF sample_backlog_wf]
    by simp
qed


text \<open>
  C29. The operator's view is one view: every query of the Django integration returns what the
  SQLAlchemy one returns on the same table, and every action reports the same and, where it acts on
  one task or deletes, leaves the same table.
\<close>

theorem django_queries_agree:
  "django_get_pending n ty db = get_pending n ty db \<and>
   django_get_processing n db = get_processing n db \<and>
   django_get_dispatching n db = get_dispatching n db \<and>
   django_get_stuck now m db = get_stuck now m db \<and>
   django_get_failed n ty db = get_failed n ty db \<and>
   django_get_dead n ty db = get_dead n ty db \<and>
   django_get_expired n ty db = get_expired n ty db \<and>
   django_get_recent n ty st since db = get_recent n ty st since db \<and>
   django_get_task i db = get_task i db \<and>
   django_get_stats db = get_stats db \<and>
   django_get_dispatchers d qs w now rows = get_dispatchers d qs w now rows \<and>
   django_retry_task clk i (working t) = apsnd working (retry_task is_pg clk i t) \<and>
   django_kill_task clk i (working t) = apsnd working (kill_task clk i t) \<and>
   django_purge_completed now m ty (working t) = apsnd working (purge_completed now m ty t) \<and>
   map_sum id fst (django_bulk_retry ty status' (working t)) =
      map_sum id fst (bulk_retry is_pg clk (\<lambda>_ db. db) ty status' t)"
  by (simp_all add: django_lists_eq django_get_recent_eq django_get_task_eq django_get_dispatchers_eq
      django_get_stats_def get_stats_def prod_eq_iff django_retry_eq [of clk i t is_pg] django_kill_eq
      django_purge_completed_def purge_completed_def django_bulk_retry_def bulk_retry_def
      update_returning_def Let_def)

end
