(* ===== verification/Task_System.thy ===== *)
theory Task_System
  imports Sa_Backend Dj_Executor Dj_Dispatch Dj_Queries
begin

text \<open>
  The whole system as a transition system on the committed ledger: producers, dispatchers,
  workers, sweeps and operators of both integrations, in any order and with any clock
  readings.  A worker is two steps, its claim and its finish, and any number of other steps may
  come between, a second delivery of the same task or the recovery of a worker taken for
  dead included; a worker that dies never takes its second step.

  \<open>flights\<close> are the claims of workers that have not finished.
\<close>

record ('h, 'f) system =
  ledger :: ledger
  flights :: "(string \<times> ('h, 'f) task_claim) list"

inductive system_step ::
    "('h, 'f) policy_state \<Rightarrow> ('f \<Rightarrow> int \<Rightarrow> backoff_value result) \<Rightarrow> ('h, 'f) system
     \<Rightarrow> ('h, 'f) system \<Rightarrow> bool"
  for st :: "('h, 'f) policy_state" and fn :: "'f \<Rightarrow> int \<Rightarrow> backoff_value result" where
  Create: "create_task is_pg st new_id clk rq (begin_transaction (ledger s) sent) = Inr (row, t) \<Longrightarrow>
    system_step st fn s (s\<lparr>ledger := committed (commit t)\<rparr>)"
| Claim: "system_step st fn s (s\<lparr>ledger := snd (claim b clk locked alone n (ledger s))\<rparr>)"
| Release: "system_step st fn s (s\<lparr>ledger := release clk ids (ledger s)\<rparr>)"
| Sweep: "run_sweep b clks unlocked (\<lambda>_. alone) (ledger s) sent = (res, db, sent') \<Longrightarrow>
    system_step st fn s (s\<lparr>ledger := db\<rparr>)"
| Skip: "process_claim st clk i (ledger s) = (None, db) \<Longrightarrow>
    system_step st fn s (s\<lparr>ledger := db\<rparr>)"
| Start: "process_claim st clk i (ledger s) = (Some c, db) \<Longrightarrow>
    system_step st fn s (s\<lparr>ledger := db, flights := (i, c) # flights s\<rparr>)"
| Finish: "(i, c) \<in> set (flights s) \<Longrightarrow>
    process_finish fn u clk backoff i c raised (ledger s) = (res, db) \<Longrightarrow>
    system_step st fn s (s\<lparr>ledger := db, flights := remove1 (i, c) (flights s)\<rparr>)"
| Retry: "retry_task is_pg clk i (begin_transaction (ledger s) sent) = (e, t) \<Longrightarrow>
    system_step st fn s (s\<lparr>ledger := committed (commit t)\<rparr>)"
| Bulk_Retry: "bulk_retry is_pg clk alone ty stat (begin_transaction (ledger s) sent) = Inr (n, t) \<Longrightarrow>
    system_step st fn s (s\<lparr>ledger := committed (commit t)\<rparr>)"
| Kill: "kill_task clk i (begin_transaction (ledger s) sent) = (e, t) \<Longrightarrow>
    system_step st fn s (s\<lparr>ledger := committed (commit t)\<rparr>)"
| Purge: "purge_completed now days ty (begin_transaction (ledger s) sent) = (n, t) \<Longrightarrow>
    system_step st fn s (s\<lparr>ledger := committed (commit t)\<rparr>)"
| Dj_Claim: "system_step st fn s (s\<lparr>ledger := snd (django_claim b clk locked alone n (ledger s))\<rparr>)"
| Dj_Release: "system_step st fn s (s\<lparr>ledger := django_release ids (ledger s)\<rparr>)"
| Dj_Sweep: "system_step st fn s
    (s\<lparr>ledger := snd (django_sweep clks unlocked (\<lambda>_. alone) m d n (ledger s))\<rparr>)"
| Dj_Bulk_Retry: "django_bulk_retry ty stat (ledger s) = Inr (n, db) \<Longrightarrow>
    system_step st fn s (s\<lparr>ledger := db\<rparr>)"

inductive_cases system_stepE: "system_step st fn s s'"

definition system_start :: "('h, 'f) system" where
  "system_start = \<lparr>ledger = [], flights = []\<rparr>"

inductive reachable ::
    "('h, 'f) policy_state \<Rightarrow> ('f \<Rightarrow> int \<Rightarrow> backoff_value result) \<Rightarrow> ('h, 'f) system \<Rightarrow> bool"
  for st :: "('h, 'f) policy_state" and fn :: "'f \<Rightarrow> int \<Rightarrow> backoff_value result" where
  Start: "reachable st fn system_start"
| Step: "reachable st fn s \<Longrightarrow> system_step st fn s s' \<Longrightarrow> reachable st fn s'"

section \<open>Facts\<close>

declare commit_simps [simp]

text \<open>A step other than a creation keeps every row invariant.\<close>

lemma created_row:
  assumes "create_task is_pg st new_id clk rq t = Inr (row, t')"
  shows "\<exists>js kvs. row = new_row new_id clk (resolve_policy st (rq_task_type rq)) rq js kvs \<and>
    insert_row row (working t) = Inr (working t')"
  using assms by (elim create_task_cases) blast

context row_invariant begin

lemma inv_system_step:
  fixes st :: "('h, 'f) policy_state"
  assumes s: "system_step st fn s s'" and ok: "table_ok I (ledger s)"
    and new: "\<And>id clk (p :: ('h, 'f) task_policy) rq js kvs. I (new_row id clk p rq js kvs) \<or>
      (\<forall>db. insert_row (new_row id clk p rq js kvs) (ledger s) \<noteq> Inr db)"
  shows "table_ok I (ledger s')"
  using s
proof cases
  case (Create is_pg new_id clk rq sent row t)
  then show ?thesis
    using created_row [OF Create(2)] inv_insert [OF ok] new by fastforce
next
  case (Claim b clk locked n)
  then show ?thesis using inv_claim [of "ledger s" alone b clk locked n] ok by simp
next
  case (Release clk ids)
  then show ?thesis using inv_release ok by simp
next
  case (Sweep b clks unlocked sent res db sent')
  then show ?thesis
    using inv_run_sweep [of "ledger s" "\<lambda>_. alone" clks unlocked b sent] ok by simp
next
  case (Skip clk i db)
  then show ?thesis using inv_process_claim [OF ok, of st clk i] by simp
next
  case (Start clk i c db)
  then show ?thesis using inv_process_claim [OF ok, of st clk i] by simp
next
  case (Finish i c u clk backoff raised res db)
  then show ?thesis using inv_process_finish [OF ok, of fn u clk backoff i c raised] by simp
next
  case (Retry is_pg clk i sent e t)
  then show ?thesis using inv_retry_task [of "begin_transaction (ledger s) sent" is_pg clk i] ok by simp
next
  case (Bulk_Retry is_pg clk ty stat sent n t)
  then show ?thesis using inv_bulk_retry [OF Bulk_Retry(2)] ok by simp
next
  case (Kill clk i sent e t)
  then show ?thesis using inv_kill_task [of "begin_transaction (ledger s) sent" clk i] ok by simp
next
  case (Purge now days ty sent n t)
  then show ?thesis
    using inv_purge_completed [of "begin_transaction (ledger s) sent" now days ty] ok by simp
next
  case (Dj_Claim b clk locked n)
  then show ?thesis using inv_django_claim ok by simp
next
  case (Dj_Release ids)
  then show ?thesis using inv_django_release ok by simp
next
  case (Dj_Sweep clks unlocked m d n)
  then show ?thesis using inv_django_sweep ok by simp
next
  case (Dj_Bulk_Retry ty stat n db)
  then show ?thesis using inv_changed [OF ok django_bulk_retry_changed] by simp
qed

end

lemma reachable_ok: "reachable st fn s \<Longrightarrow> table_ok row_ok (ledger s)"
proof (induction rule: reachable.induct)
  case Start
  then show ?case by (simp add: system_start_def table_ok_def ledger_wf_def)
next
  case (Step s s')
  then show ?case
    using ok.inv_system_step [OF Step.hyps(2) Step.IH] new_row_ok by blast
qed

text \<open>
  The history of one row, from any moment on: it changes by steps of the specification as
  long as its identifier is in use.
\<close>

inductive steps_with ::
    "('h, 'f) policy_state \<Rightarrow> ('f \<Rightarrow> int \<Rightarrow> backoff_value result) \<Rightarrow> string
     \<Rightarrow> ('h, 'f) system \<Rightarrow> ('h, 'f) system \<Rightarrow> bool"
  for st :: "('h, 'f) policy_state" and fn :: "'f \<Rightarrow> int \<Rightarrow> backoff_value result" and i :: string where
  Stay: "steps_with st fn i s s"
| Step: "steps_with st fn i s s1 \<Longrightarrow> find_row i (ledger s1) \<noteq> None \<Longrightarrow> system_step st fn s1 s2 \<Longrightarrow>
    steps_with st fn i s s2"

lemma descends_all:
  "ledger_wf db \<Longrightarrow> find_row i db = Some r0 \<Longrightarrow> table_ok (descends r0) db"
  by (auto simp: table_ok_def list_all_iff descends_def
      dest: find_row_eq [OF ledger_wf_distinct] find_row_Some)

lemma steps_history:
  fixes st :: "('h, 'f) policy_state"
  assumes "steps_with st fn i s s'" and "ledger_wf (ledger s)" and "find_row i (ledger s) = Some r0"
  shows "table_ok (descends r0) (ledger s')"
  using assms
proof (induction rule: steps_with.induct)
  case (Stay s)
  then show ?case by (rule descends_all)
next
  case (Step s s1 s2)
  have here: "table_ok (descends r0) (ledger s1)" using Step by blast
  have i: "row_id r0 = i" using Step.prems(2) by (auto dest: find_row_Some)
  obtain r1 where r1: "r1 \<in> set (ledger s1)" "row_id r1 = i"
    using Step.hyps(2) by (auto dest: find_row_Some)
  have "descends r0 (new_row id clk p rq js kvs) \<or>
      (\<forall>db. insert_row (new_row id clk p rq js kvs) (ledger s1) \<noteq> Inr db)"
    for id clk rq js kvs and p :: "('h, 'f) task_policy"
  proof (cases "id = i")
    case True
    then have "key_clash (new_row id clk p rq js kvs) r1" using r1 by (simp add: key_clash_def)
    then show ?thesis using r1 by (auto simp: insert_row_def list_ex_iff)
  next
    case False
    then show ?thesis using i by (simp add: descends_def)
  qed
  then show ?case using history.inv_system_step [OF Step.hyps(3) here] by blast
qed

end
