(* ===== verification/System_Properties.thy ===== *)
theory System_Properties
  imports Task_System Recovery_Properties
begin

text \<open>
  Properties of the whole system: every interleaving of producers, dispatchers, workers, sweeps and
  operators of both integrations, as the transition system of \<open>Task_System\<close>.
\<close>

section \<open>A sample history\<close>

definition sample_system :: "(nat, unit) system" where
  "sample_system = \<lparr>ledger = [sample_created_row], flights = []\<rparr>"

definition sample_claimed :: "(nat, unit) system" where
  "sample_claimed = sample_system\<lparr>ledger :=
     snd (claim sample_backend sample_clock (\<lambda>_ _. False) alone 1 (ledger sample_system))\<rparr>"

lemma sample_system_reachable: "reachable no_policy no_backoff_fn sample_system"
proof -
  have "create_task True no_policy ''a'' sample_clock sample_request
      (begin_transaction (ledger system_start) []) = Inr (sample_created_row, sample_created)"
    using sample_create by (simp add: system_start_def)
  from system_step.Create [OF this, of no_backoff_fn]
  have "system_step no_policy no_backoff_fn system_start sample_system"
    by (simp add: sample_system_def system_start_def sample_created_def)
  with reachable.Start show ?thesis by (rule reachable.Step)
qed

lemma sample_claimed_step: "system_step st fn sample_system sample_claimed"
  unfolding sample_claimed_def by (rule system_step.Claim)

lemma sample_claimed_ledger:
  "ledger sample_claimed = [sample_created_row\<lparr>status := DISPATCHING, dispatching_at := Some 1000,
     updated_at := 1002\<rparr>]"
  by code_simp

section \<open>Invariants\<close>

text \<open>
  C6. In every reachable state of the system, whatever the interleaving: a task with a valid attempt
  limit never overdraws it and always has an attempt left when it is waiting or claimed; and every
  status comes with the timestamp its recovery needs (a failed task its retry time, a running one its
  start, a claimed one its claim time), a completed or expired one with its time of ending.
\<close>

theorem reachable_rows_sound:
  assumes "reachable st fn s" and "r \<in> set (ledger s)"
  shows "(1 \<le> max_attempts r \<longrightarrow> attempts r \<le> max_attempts r \<and>
      (status r \<in> {PENDING, DISPATCHING} \<longrightarrow> attempts r < max_attempts r)) \<and>
    (status r = FAILED \<longrightarrow> scheduled_for r \<noteq> None) \<and>
    (status r = PROCESSING \<longrightarrow> started_at r \<noteq> None) \<and>
    (status r = DISPATCHING \<longrightarrow> dispatching_at r \<noteq> None) \<and>
    (status r = COMPLETED \<longrightarrow> completed_at r \<noteq> None) \<and>
    (status r = EXPIRED \<longrightarrow> expired_at r \<noteq> None \<and> expires_at r \<noteq> None)"
  using reachable_ok [OF assms(1)] assms(2)
  by (simp add: table_ok_def list_all_iff row_ok_def)

theorem reachable_rows_sound_witness:
  "\<exists>r \<in> set (ledger sample_claimed). status r = DISPATCHING \<and> dispatching_at r \<noteq> None \<and>
     attempts r < max_attempts r"
proof -
  let ?r = "sample_created_row\<lparr>status := DISPATCHING, dispatching_at := Some 1000, updated_at := 1002\<rparr>"
  have "reachable no_policy no_backoff_fn sample_claimed"
    using sample_system_reachable sample_claimed_step by (rule reachable.Step)
  moreover have r: "?r \<in> set (ledger sample_claimed)" by (simp add: sample_claimed_ledger)
  ultimately have "attempts ?r < max_attempts ?r \<and> dispatching_at ?r \<noteq> None"
    using reachable_rows_sound [of no_policy no_backoff_fn sample_claimed ?r]
    by (simp add: sample_created_row_def sample_row_def)
  then show ?thesis using r by (intro bexI [of _ ?r]) simp_all
qed

text \<open>
  Idempotency holds for good: in every reachable state no two tasks share an identifier, and no two
  tasks of one type share an idempotency key.
\<close>

lemma reachable_keys_unique:
  assumes "reachable st fn s" and "i < length (ledger s)" and "j < length (ledger s)" and "i \<noteq> j"
  shows "row_id (ledger s ! i) \<noteq> row_id (ledger s ! j) \<and>
    \<not> (task_type (ledger s ! i) = task_type (ledger s ! j) \<and>
       idempotency_key (ledger s ! i) \<noteq> None \<and>
       idempotency_key (ledger s ! i) = idempotency_key (ledger s ! j))"
proof -
  have wf: "sorted_wrt (\<lambda>r s. \<not> key_clash r s) (ledger s)"
    using reachable_ok [OF assms(1)] by (simp add: table_ok_def ledger_wf_def)
  have "\<not> key_clash (ledger s ! i) (ledger s ! j) \<or> \<not> key_clash (ledger s ! j) (ledger s ! i)"
    using wf assms(2-4) by (metis nat_neq_iff sorted_wrt_nth_less)
  then show ?thesis unfolding key_clash_def by metis
qed

definition second_request :: task_request where
  "second_request = sample_request\<lparr>rq_idempotency_key := Some ''k2''\<rparr>"

lemma second_create:
  "\<exists>row t. create_task True no_policy ''b'' sample_clock second_request
     (begin_transaction [sample_created_row] []) = Inr (row, t) \<and>
     working t = [sample_created_row, row]"
  by (simp add: sample_evaluation second_request_def key_clash_def)

text \<open>
  C4. The life of a task follows the specification: as long as its identifier is in use, everything that
  happens to it in any interleaving is a sequence of steps of \<open>row_step\<close>, so its creation contract
  (type, arguments, queue, budget, deadline, key) never changes.
\<close>

theorem task_history:
  assumes "steps_with st fn i s s'" and "ledger_wf (ledger s)"
    and "find_row i (ledger s) = Some r0" and "find_row i (ledger s') = Some r"
  shows "row_step\<^sup>*\<^sup>* r0 r \<and> same_contract r0 r"
proof -
  have "table_ok (descends r0) (ledger s')" using steps_history [OF assms(1-3)] .
  moreover have "r \<in> set (ledger s')" "row_id r = i" using find_row_Some [OF assms(4)] by auto
  moreover have "row_id r0 = i" using find_row_Some [OF assms(3)] by auto
  ultimately have "row_step\<^sup>*\<^sup>* r0 r" by (auto simp: table_ok_def list_all_iff descends_def)
  then show ?thesis using row_steps_contract by blast
qed

lemma sample_steps: "steps_with no_policy no_backoff_fn ''a'' sample_system sample_claimed"
proof (rule steps_with.Step [OF steps_with.Stay _ sample_claimed_step])
  show "find_row ''a'' (ledger sample_system) \<noteq> None" by code_simp
qed

theorem task_history_witness:
  "row_step\<^sup>*\<^sup>* sample_created_row (sample_created_row\<lparr>status := DISPATCHING,
     dispatching_at := Some 1000, updated_at := 1002\<rparr>)"
proof -
  have "ledger_wf (ledger sample_system)" by code_simp
  moreover have "find_row ''a'' (ledger sample_system) = Some sample_created_row" by code_simp
  moreover have "find_row ''a'' (ledger sample_claimed) = Some (sample_created_row\<lparr>status := DISPATCHING,
     dispatching_at := Some 1000, updated_at := 1002\<rparr>)" by code_simp
  ultimately show ?thesis using task_history [OF sample_steps] by blast
qed

text \<open>
  C5. Completed and expired are final: whatever any worker, stale or duplicate, any sweep or any operator
  does afterwards, the row is unchanged to the last column, until it is purged.
\<close>

theorem ended_tasks_stay:
  assumes "steps_with st fn i s s'" and "ledger_wf (ledger s)"
    and "find_row i (ledger s) = Some r" and "status r \<in> {COMPLETED, EXPIRED}"
  shows "find_row i (ledger s') \<in> {Some r, None}"
proof (cases "find_row i (ledger s')")
  case (Some r')
  have "table_ok (descends r) (ledger s')" using steps_history [OF assms(1-3)] .
  moreover have "r' \<in> set (ledger s')" "row_id r' = row_id r"
    using find_row_Some [OF Some] find_row_Some [OF assms(3)] by auto
  ultimately have "row_step\<^sup>*\<^sup>* r r'" by (auto simp: table_ok_def list_all_iff descends_def)
  then have "r' = r" using assms(4) by (rule row_steps_final)
  then show ?thesis using Some by simp
qed simp

definition sample_done :: "(nat, unit) system" where
  "sample_done = \<lparr>ledger = (sample_row ''z'' COMPLETED) # sample_backlog, flights = []\<rparr>"

theorem ended_tasks_stay_witness:
  "find_row ''z'' (snd (claim sample_backend sample_clock (\<lambda>_ _. False) alone 9 (ledger sample_done)))
     \<in> {Some (sample_row ''z'' COMPLETED), None}"
proof -
  have wf: "ledger_wf (ledger sample_done)" and f: "find_row ''z'' (ledger sample_done) = Some (sample_row ''z'' COMPLETED)"
    and c: "status (sample_row ''z'' COMPLETED) \<in> {COMPLETED, EXPIRED}"
    by code_simp+
  have "steps_with no_policy no_backoff_fn ''z'' sample_done (sample_done\<lparr>ledger :=
      snd (claim sample_backend sample_clock (\<lambda>_ _. False) alone 9 (ledger sample_done))\<rparr>)"
    by (rule steps_with.Step [OF steps_with.Stay _ system_step.Claim]) (simp add: f)
  from ended_tasks_stay [OF this wf f c] show ?thesis by simp
qed

section \<open>Nothing is beyond recovery\<close>





end
