(* ===== verification/Async_Runtime.thy ===== *)
theory Async_Runtime
  imports Sa_Sweep
begin

text \<open>
  Coroutines, for the asyncio half of the SQLAlchemy integration.

  A coroutine runs on an event loop.  Only an \<open>await\<close> gives up control: the \<open>k\<close>-th one of a run
  first lets the others act (\<open>lp_others k\<close>, an arbitrary function), and may be interrupted by an
  exception (\<open>lp_interrupt k\<close>): a \<open>CancelledError\<close>, or an error of the driver.  An interrupt comes
  before the awaited operation took effect, or after it, when its result is lost.  The state \<open>'s\<close>
  is what the coroutine acts on; the counter numbers the awaits.
\<close>

section \<open>Coroutines\<close>

record 's event_loop =
  lp_others :: "nat \<Rightarrow> 's \<Rightarrow> 's"
  lp_interrupt :: "nat \<Rightarrow> (bool \<times> exn) option"

type_synonym ('s, 'a) coro = "'s event_loop \<Rightarrow> nat \<times> 's \<Rightarrow> 'a result \<times> nat \<times> 's"

definition co_return :: "'a \<Rightarrow> ('s, 'a) coro" where
  "co_return x lp \<sigma> = (Inr x, \<sigma>)"

definition co_raise :: "exn \<Rightarrow> ('s, 'a) coro" where
  "co_raise e lp \<sigma> = (Inl e, \<sigma>)"

definition co_bind :: "('s, 'a) coro \<Rightarrow> ('a \<Rightarrow> ('s, 'b) coro) \<Rightarrow> ('s, 'b) coro" where
  "co_bind c f lp \<sigma> = (case c lp \<sigma> of (Inl e, \<sigma>') \<Rightarrow> (Inl e, \<sigma>') | (Inr x, \<sigma>') \<Rightarrow> f x lp \<sigma>')"

text \<open>Code between two awaits runs without interruption.\<close>

definition co_local :: "('s \<Rightarrow> 'a result \<times> 's) \<Rightarrow> ('s, 'a) coro" where
  "co_local f lp \<sigma> = (let (r, s) = f (snd \<sigma>) in (r, fst \<sigma>, s))"

definition co_await :: "('s \<Rightarrow> 'a result \<times> 's) \<Rightarrow> ('s, 'a) coro" where
  "co_await f lp \<sigma> =
     (let k = fst \<sigma>; s = lp_others lp k (snd \<sigma>)
      in case lp_interrupt lp k of
           None \<Rightarrow> let (r, s') = f s in (r, Suc k, s')
         | Some (after, e) \<Rightarrow> (Inl e, Suc k, if after then snd (f s) else s))"

text \<open>\<open>try: c except E: h\<close>, and \<open>try: c finally: f\<close> with a clean-up that awaits nothing.\<close>

definition co_except :: "(exn \<Rightarrow> bool) \<Rightarrow> ('s, 'a) coro \<Rightarrow> (exn \<Rightarrow> ('s, 'a) coro) \<Rightarrow> ('s, 'a) coro" where
  "co_except catches c h lp \<sigma> =
     (case c lp \<sigma> of
        (Inl e, \<sigma>') \<Rightarrow> if catches e then h e lp \<sigma>' else (Inl e, \<sigma>')
      | (Inr x, \<sigma>') \<Rightarrow> (Inr x, \<sigma>'))"

definition co_finally :: "('s, 'a) coro \<Rightarrow> ('s \<Rightarrow> 's) \<Rightarrow> ('s, 'a) coro" where
  "co_finally c f lp \<sigma> = (let (r, k, s) = c lp \<sigma> in (r, k, f s))"

lemmas co_defs = co_return_def co_raise_def co_bind_def co_local_def co_await_def co_except_def
  co_finally_def

lemma co_return_bind [simp]: "co_bind (co_return x) f = f x"
  by (intro ext) (simp add: co_defs)

lemma co_bind_return [simp]: "co_bind c co_return = c"
  by (intro ext) (simp add: co_defs split: prod.split sum.split)

lemma co_bind_assoc: "co_bind (co_bind c f) g = co_bind c (\<lambda>x. co_bind (f x) g)"
  by (intro ext) (simp add: co_defs split: prod.split sum.split)

lemma co_bind_if: "co_bind (if b then c else d) f = (if b then co_bind c f else co_bind d f)"
  by simp

text \<open>The loop that interrupts nothing.\<close>

abbreviation calm :: "'s event_loop \<Rightarrow> 's event_loop" where
  "calm lp \<equiv> lp\<lparr>lp_interrupt := \<lambda>_. None\<rparr>"

text \<open>
  A coroutine is strict when it swallows no interrupt: if it returns, it returns what it does on
  the calm loop.
\<close>

named_theorems strict_intros \<open>introduction rules for strict\<close>

definition strict :: "('s, 'a) coro \<Rightarrow> bool" where
  "strict c \<longleftrightarrow> (\<forall>lp \<sigma> x \<sigma>'. c lp \<sigma> = (Inr x, \<sigma>') \<longrightarrow> c (calm lp) \<sigma> = (Inr x, \<sigma>'))"

lemma strictD: "strict c \<Longrightarrow> c lp \<sigma> = (Inr x, \<sigma>') \<Longrightarrow> c (calm lp) \<sigma> = (Inr x, \<sigma>')"
  unfolding strict_def by blast

lemma strict_return [strict_intros]: "strict (co_return x)"
  by (simp add: strict_def co_return_def)

lemma strict_raise [strict_intros]: "strict (co_raise e)"
  by (simp add: strict_def co_raise_def)

lemma strict_local [strict_intros]: "strict (co_local f)"
  by (simp add: strict_def co_local_def)

lemma strict_await [strict_intros]: "strict (co_await f)"
  by (auto simp: strict_def co_await_def Let_def split: option.splits prod.splits)

lemma strict_bind [strict_intros]:
  assumes "strict c" and "\<And>x. strict (f x)" shows "strict (co_bind c f)"
  unfolding strict_def
proof (intro allI impI)
  fix lp \<sigma> y \<tau>
  assume run: "co_bind c f lp \<sigma> = (Inr y, \<tau>)"
  obtain r \<sigma>' where c: "c lp \<sigma> = (r, \<sigma>')" by (cases "c lp \<sigma>")
  with run obtain x where x: "r = Inr x" "f x lp \<sigma>' = (Inr y, \<tau>)"
    by (cases r) (auto simp: co_bind_def)
  show "co_bind c f (calm lp) \<sigma> = (Inr y, \<tau>)"
    using strictD [OF assms(1)] strictD [OF assms(2)] c x by (simp add: co_bind_def)
qed

lemma strict_if [strict_intros]: "strict c \<Longrightarrow> strict d \<Longrightarrow> strict (if b then c else d)"
  by simp

text \<open>\<open>asyncio.CancelledError\<close>: a \<open>BaseException\<close> that is no \<open>Exception\<close>.\<close>

definition cancelled_error :: exn where
  "cancelled_error = py_exn (UserC ''CancelledError'' [BaseExceptionC]) ''''"

lemma cancelled_uncaught [simp]: "isinstance cancelled_error [ExceptionC] = False"
  by (simp add: cancelled_error_def isinstance_def)

section \<open>Sessions\<close>

text \<open>
  An \<open>AsyncSession\<close> holds one transaction.  What others commit, at an await, changes the committed
  table and what this transaction reads.
\<close>

definition sees :: "(ledger \<Rightarrow> ledger) \<Rightarrow> transaction \<Rightarrow> transaction" where
  "sees e t = t\<lparr>committed := e (committed t), working := e (working t)\<rparr>"

definition session_loop :: "others \<Rightarrow> (nat \<Rightarrow> (bool \<times> exn) option) \<Rightarrow> transaction event_loop" where
  "session_loop env intr = \<lparr>lp_others = \<lambda>k. sees (env k), lp_interrupt = intr\<rparr>"

text \<open>The statements of a session: a \<open>SELECT\<close>, an \<open>UPDATE ... RETURNING\<close>, flush and commit.\<close>

definition select_async :: "(ledger \<Rightarrow> 'a) \<Rightarrow> (transaction, 'a) coro" where
  "select_async q = co_await (\<lambda>t. (Inr (q (working t)), t))"

definition update_async ::
    "(task_row \<Rightarrow> bool) \<Rightarrow> (task_row \<Rightarrow> task_row) \<Rightarrow> (transaction, task_row list) coro" where
  "update_async P f =
     co_await (\<lambda>t. let (rows, db) = update_returning P f (working t) in (Inr rows, t\<lparr>working := db\<rparr>))"

definition flush_async :: "(transaction, unit) coro" where
  "flush_async = co_await (\<lambda>t. (Inr (), t))"

definition commit_async :: "(transaction, unit) coro" where
  "commit_async = co_await (\<lambda>t. (Inr (), commit t))"

text \<open>\<open>async with session_factory() as session\<close>: what is not committed when the block ends is gone.\<close>

definition session_scope :: "(transaction, 'a) coro \<Rightarrow> (transaction, 'a) coro" where
  "session_scope c = co_finally c rollback"

text \<open>\<open>notify_work_available_async\<close>: a statement on PostgreSQL only.\<close>

definition notify_work_available_async :: "bool \<Rightarrow> notification \<Rightarrow> (transaction, bool) coro" where
  "notify_work_available_async is_postgresql n =
     (if \<not> is_postgresql then co_return False
      else co_bind (co_await (\<lambda>t. (Inr (), t\<lparr>queued := queued t @ [n]\<rparr>))) (\<lambda>_. co_return True))"

text \<open>\<open>for task_id, queue in rows: await notify_work_available_async(...)\<close>\<close>

fun notify_rows_async :: "bool \<Rightarrow> task_row list \<Rightarrow> (transaction, unit) coro" where
  "notify_rows_async is_pg [] = co_return ()"
| "notify_rows_async is_pg (r # rs) =
     co_bind (notify_work_available_async is_pg (task_notification (row_id r) (queue r)))
       (\<lambda>_. notify_rows_async is_pg rs)"

lemmas statement_defs = select_async_def update_async_def flush_async_def commit_async_def
  session_scope_def notify_work_available_async_def

lemma strict_statements [strict_intros]:
  "strict (select_async q)" "strict (update_async P f)" "strict flush_async" "strict commit_async"
  "strict (notify_work_available_async is_pg n)" "strict (notify_rows_async is_pg rows)"
proof -
  show "strict (notify_rows_async is_pg rows)"
    by (induction is_pg rows rule: notify_rows_async.induct)
      (auto simp: statement_defs intro!: strict_intros)
qed (auto simp: statement_defs intro!: strict_intros)

section \<open>What a session publishes\<close>

text \<open>What the others commit at the awaits \<open>i, ..., j - 1\<close>.\<close>

definition others_in :: "others \<Rightarrow> nat \<Rightarrow> nat \<Rightarrow> ledger \<Rightarrow> ledger" where
  "others_in env i j = fold env [i..<j]"

lemma others_in_refl [simp]: "others_in env i i db = db"
  by (simp add: others_in_def)

lemma others_in_alone [simp]: "others_in alone i j db = db"
proof -
  have "fold alone ks db = db" for ks by (induction ks) simp_all
  then show ?thesis by (simp add: others_in_def)
qed

lemma others_in_Suc: "i \<le> j \<Longrightarrow> others_in env i (Suc j) db = env j (others_in env i j db)"
  by (simp add: others_in_def)

lemma others_in_trans:
  assumes "i \<le> j" and "j \<le> k"
  shows "others_in env j k (others_in env i j db) = others_in env i k db"
  using assms upt_add_eq_append [of i j "k - j"] by (simp add: others_in_def)

text \<open>
  A coroutine is unpublished when it publishes nothing: the committed table changes by the others'
  commits only, and no notification is delivered.
\<close>

named_theorems unpublished_intros \<open>introduction rules for unpublished\<close>

definition unpublished :: "(transaction, 'a) coro \<Rightarrow> bool" where
  "unpublished c \<longleftrightarrow> (\<forall>env intr k t r k' t'. c (session_loop env intr) (k, t) = (r, k', t') \<longrightarrow>
     k \<le> k' \<and> committed t' = others_in env k k' (committed t) \<and> delivered t' = delivered t)"

lemma unpublishedD:
  assumes "unpublished c" and "c (session_loop env intr) (k, t) = (r, k', t')"
  shows "k \<le> k'" and "committed t' = others_in env k k' (committed t)"
    and "delivered t' = delivered t"
  using assms unfolding unpublished_def by blast+

lemma unpublished_return [unpublished_intros]: "unpublished (co_return x)"
  by (simp add: unpublished_def co_return_def)

lemma unpublished_raise [unpublished_intros]: "unpublished (co_raise e)"
  by (simp add: unpublished_def co_raise_def)

lemma unpublished_await:
  assumes "\<And>t. committed (snd (f t)) = committed t \<and> delivered (snd (f t)) = delivered t"
  shows "unpublished (co_await f)"
  unfolding unpublished_def
proof (intro allI impI)
  fix env intr k t r k' t'
  assume run: "co_await f (session_loop env intr) (k, t) = (r, k', t')"
  have k': "k' = Suc k" and t': "t' = sees (env k) t \<or> t' = snd (f (sees (env k) t))"
    using run
    by (auto simp: co_await_def session_loop_def Let_def split: option.splits prod.splits if_splits)
  have "committed (sees (env k) t) = env k (committed t)" "delivered (sees (env k) t) = delivered t"
    by (simp_all add: sees_def)
  with t' assms [of "sees (env k) t"] k'
  show "k \<le> k' \<and> committed t' = others_in env k k' (committed t) \<and> delivered t' = delivered t"
    by (auto simp: others_in_Suc)
qed

lemma unpublished_bind [unpublished_intros]:
  assumes "unpublished c" and "\<And>x. unpublished (f x)" shows "unpublished (co_bind c f)"
  unfolding unpublished_def
proof (intro allI impI)
  fix env intr k t r k' t'
  assume run: "co_bind c f (session_loop env intr) (k, t) = (r, k', t')"
  obtain r1 k1 t1 where c: "c (session_loop env intr) (k, t) = (r1, k1, t1)" by (metis surj_pair)
  note p1 = unpublishedD [OF assms(1) c]
  show "k \<le> k' \<and> committed t' = others_in env k k' (committed t) \<and> delivered t' = delivered t"
  proof (cases r1)
    case (Inl e)
    then show ?thesis using run c p1 by (auto simp: co_bind_def)
  next
    case (Inr x)
    then have "f x (session_loop env intr) (k1, t1) = (r, k', t')"
      using run c by (simp add: co_bind_def)
    note p2 = unpublishedD [OF assms(2) this]
    show ?thesis using p1 p2 by (auto simp: others_in_trans)
  qed
qed

lemma unpublished_if [unpublished_intros]: "unpublished c \<Longrightarrow> unpublished d \<Longrightarrow> unpublished (if b then c else d)"
  by simp

lemma unpublished_statements [unpublished_intros]:
  "unpublished (select_async q)" "unpublished (update_async P f)" "unpublished flush_async"
  "unpublished (notify_work_available_async is_pg n)" "unpublished (notify_rows_async is_pg rows)"
proof -
  have n: "unpublished (notify_work_available_async is_pg n)" for n
    by (auto simp: statement_defs intro!: unpublished_intros unpublished_await)
  then show "unpublished (notify_work_available_async is_pg n)" .
  show "unpublished (notify_rows_async is_pg rows)"
    by (induction is_pg rows rule: notify_rows_async.induct)
      (auto intro!: unpublished_intros unpublished_await simp: notify_work_available_async_def)
qed (auto simp: statement_defs update_returning_def intro!: unpublished_await)


section \<open>Units of work\<close>

text \<open>
  \<open>async with session_factory() as session: body; await session.commit()\<close>, and the return of
  \<open>g x\<close> after it.  Whatever interrupts it, and wherever, the body is published whole or not at
  all; and a value is returned only when it was published.
\<close>

definition unit_of_work :: "(transaction, 'a) coro \<Rightarrow> (transaction, 'a) coro" where
  "unit_of_work body =
     session_scope (co_bind body (\<lambda>x. co_bind commit_async (\<lambda>_. co_return x)))"

lemma loop_others [simp]: "lp_others (session_loop env intr) k = sees (env k)"
  and loop_interrupt [simp]: "lp_interrupt (session_loop env intr) = intr"
  and calm_loop [simp]: "calm (session_loop env intr) = session_loop env (\<lambda>_. None)"
  by (simp_all add: session_loop_def)

lemma sees_simps [simp]:
  "committed (sees e t) = e (committed t)" "working (sees e t) = e (working t)"
  "queued (sees e t) = queued t" "delivered (sees e t) = delivered t"
  by (simp_all add: sees_def)

lemma rollback_simps [simp]:
  "committed (rollback t) = committed t" "delivered (rollback t) = delivered t"
  by (simp_all add: rollback_def)

lemma unit_of_work_atomic:
  assumes "unpublished body" and "strict body"
    and run: "unit_of_work body (session_loop env intr) (k, t) = (r, k', t')"
  shows "(\<exists>e. r = Inl e \<and> committed t' = others_in env k k' (committed t) \<and> delivered t' = delivered t) \<or>
    (\<exists>x m t1. body (session_loop env (\<lambda>_. None)) (k, t) = (Inr x, m, t1) \<and> k' = Suc m \<and>
       committed t' = env m (working t1) \<and> delivered t' = delivered t @ queued t1 \<and>
       (r = Inr x \<or> (\<exists>e. r = Inl e)))"
proof -
  obtain r1 m t1 where c: "body (session_loop env intr) (k, t) = (r1, m, t1)" by (metis surj_pair)
  note p = unpublishedD [OF assms(1) c]
  show ?thesis
  proof (cases r1)
    case (Inl e)
    then have "r = Inl e" "k' = m" "t' = rollback t1"
      using run c by (auto simp: unit_of_work_def session_scope_def co_finally_def co_bind_def)
    then show ?thesis using p by simp
  next
    case (Inr x)
    have calm: "body (session_loop env (\<lambda>_. None)) (k, t) = (Inr x, m, t1)"
      using strictD [OF assms(2)] c Inr by fastforce
    show ?thesis
    proof (cases "intr m")
      case None
      then show ?thesis
        using run c Inr calm p(3)
        by (auto simp: unit_of_work_def session_scope_def co_defs commit_async_def Let_def commit_def
            intro!: exI [of _ x] exI [of _ m])
    next
      case (Some i)
      obtain after e where i: "i = (after, e)" by (cases i)
      show ?thesis
      proof (cases after)
        case True
        then show ?thesis
          using run c Inr calm Some i p(3)
          by (auto simp: unit_of_work_def session_scope_def co_defs commit_async_def Let_def commit_def
              intro!: exI [of _ x] exI [of _ m])
      next
        case False
        then show ?thesis
          using run c Inr calm Some i p
          by (auto simp: unit_of_work_def session_scope_def co_defs commit_async_def Let_def
              others_in_Suc)
      qed
    qed
  qed
qed

text \<open>Without an interrupt a unit of work returns what its body does, and publishes it.\<close>

lemma unit_of_work_calm:
  assumes "body (session_loop env (\<lambda>_. None)) (k, t) = (Inr x, m, t1)"
  shows "unit_of_work body (session_loop env (\<lambda>_. None)) (k, t) =
    (Inr x, Suc m, rollback (commit (sees (env m) t1)))"
  using assms by (simp add: unit_of_work_def session_scope_def co_defs commit_async_def Let_def)

text \<open>The two together, for a body whose run on the calm loop is known.\<close>

lemma unit_of_work_outcome:
  assumes "unpublished body" and "strict body"
    and calm: "body (session_loop env (\<lambda>_. None)) (k, t) = (Inr x, m, t1)"
    and run: "unit_of_work body (session_loop env intr) (k, t) = (r, k', t')"
  shows "(\<exists>e. r = Inl e \<and> intr \<noteq> (\<lambda>_. None) \<and> committed t' = others_in env k k' (committed t) \<and>
      delivered t' = delivered t) \<or>
    (committed t' = env m (working t1) \<and> delivered t' = delivered t1 @ queued t1 \<and>
      (r = Inr x \<or> (\<exists>e. r = Inl e \<and> intr \<noteq> (\<lambda>_. None))))"
proof (cases "intr = (\<lambda>_. None)")
  case True
  then show ?thesis
    using run unit_of_work_calm [of body env k t, OF calm] by (auto simp: commit_def rollback_def)
next
  case False
  have "delivered t1 = delivered t" using unpublishedD(3) [OF assms(1) calm] .
  with unit_of_work_atomic [OF assms(1,2) run] calm False show ?thesis by auto
qed

text \<open>Statements on the calm loop.\<close>

lemma calm_statements [simp]:
  "select_async q (session_loop env (\<lambda>_. None)) (k, t) =
     (Inr (q (env k (working t))), Suc k, sees (env k) t)"
  "update_async P f (session_loop env (\<lambda>_. None)) (k, t) =
     (Inr (map f (filter P (env k (working t)))), Suc k,
      (sees (env k) t)\<lparr>working := update_where P f (env k (working t))\<rparr>)"
  "flush_async (session_loop env (\<lambda>_. None)) (k, t) = (Inr (), Suc k, sees (env k) t)"
  "commit_async (session_loop env (\<lambda>_. None)) (k, t) = (Inr (), Suc k, commit (sees (env k) t))"
  by (simp_all add: statement_defs co_await_def Let_def update_returning_def)

lemma notify_rows_calm:
  "\<exists>n. notify_rows_async is_pg rows (session_loop env (\<lambda>_. None)) (k, t) =
     (Inr (), k + n, t\<lparr>committed := others_in env k (k + n) (committed t),
        working := others_in env k (k + n) (working t),
        queued := notify_rows is_pg rows (queued t)\<rparr>)"
proof (induction rows arbitrary: k t)
  case Nil
  then show ?case by (simp add: co_return_def exI [of _ 0])
next
  case (Cons r rows)
  let ?q = "queued t @ [task_notification (row_id r) (queue r)]"
  show ?case
  proof (cases is_pg)
    case True
    then obtain n where n: "notify_rows_async is_pg rows (session_loop env (\<lambda>_. None))
          (Suc k, (sees (env k) t)\<lparr>queued := ?q\<rparr>) =
        (Inr (), Suc k + n, ((sees (env k) t)\<lparr>queued := ?q\<rparr>)
           \<lparr>committed := others_in env (Suc k) (Suc k + n) (env k (committed t)),
            working := others_in env (Suc k) (Suc k + n) (env k (working t)),
            queued := notify_rows is_pg rows ?q\<rparr>)"
      using Cons.IH [of "Suc k" "(sees (env k) t)\<lparr>queued := ?q\<rparr>"] by auto
    have tr: "others_in env (Suc k) (Suc k + n) (env k db) = others_in env k (k + Suc n) db" for db
      using others_in_trans [of k "Suc k" "Suc k + n" env db] by (simp add: others_in_Suc)
    show ?thesis
      using True n tr
      by (intro exI [of _ "Suc n"])
        (simp add: notify_work_available_async_def co_bind_def co_await_def co_return_def Let_def
          notify_work_available_def sees_def)
  next
    case False
    then show ?thesis
      using Cons.IH [of k t]
      by (simp add: notify_work_available_async_def notify_work_available_def)
  qed
qed

end
