(* ===== verification/Async_Sweep.thy ===== *)
theory Async_Sweep
  imports Async_Runtime
begin

text \<open>
  \<open>src/dewey/sqlalchemy/async_sweep.py\<close>: the four recovery passes as coroutines, one await per
  statement.  \<open>clk\<close> and \<open>locked\<close> are as in the synchronous sweep.  Each pass is shown to be the
  synchronous one, for what the others do at its awaits.
\<close>

definition sweep_failed_async ::
    "bool \<Rightarrow> clock \<Rightarrow> nat \<Rightarrow> (transaction, string list) coro" where
  "sweep_failed_async is_pg clk limit =
     (let now = clk 0 in
      co_bind (select_async (select_ids
          (\<lambda>r. status r = FAILED \<and> sql_le (scheduled_for r) now)
          (\<lambda>r. nulls_last (scheduled_for r)) limit)) (\<lambda>task_ids.
      if task_ids = [] then co_return []
      else
        co_bind (update_async
            (\<lambda>r. row_id r \<in> set task_ids \<and> status r = FAILED \<and> attempts r < max_attempts r)
            (\<lambda>r. r\<lparr>status := PENDING, updated_at := clk 1\<rparr>)) (\<lambda>retry_rows.
        co_bind (update_async
            (\<lambda>r. row_id r \<in> set task_ids \<and> status r = FAILED \<and> attempts r \<ge> max_attempts r)
            (\<lambda>r. r\<lparr>status := DEAD, updated_at := clk 2\<rparr>)) (\<lambda>dead_rows.
        co_bind flush_async (\<lambda>_.
        co_bind (notify_rows_async is_pg retry_rows) (\<lambda>_.
        co_return (map row_id retry_rows)))))))"

definition sweep_expired_async ::
    "clock \<Rightarrow> (string \<Rightarrow> bool) \<Rightarrow> nat \<Rightarrow> (transaction, string list) coro" where
  "sweep_expired_async clk locked limit =
     (let now = clk 0 in
      co_bind (select_async (select_ids
          (\<lambda>r. status r \<in> {PENDING, FAILED, DISPATCHING} \<and> expires_at r \<noteq> None \<and>
               sql_le (expires_at r) now \<and> \<not> locked (row_id r))
          (\<lambda>r. nulls_last (expires_at r)) limit)) (\<lambda>task_ids.
      if task_ids = [] then co_return []
      else
        co_bind (update_async
            (\<lambda>r. row_id r \<in> set task_ids \<and> status r \<in> {PENDING, FAILED, DISPATCHING})
            (\<lambda>r. r\<lparr>status := EXPIRED, expired_at := Some now, dispatching_at := None,
                   updated_at := clk 1\<rparr>)) (\<lambda>expired_rows.
        co_bind flush_async (\<lambda>_. co_return (map row_id expired_rows)))))"

definition sweep_stuck_async ::
    "bool \<Rightarrow> clock \<Rightarrow> int \<Rightarrow> nat \<Rightarrow> (transaction, string list) coro" where
  "sweep_stuck_async is_pg clk stuck_threshold_minutes limit =
     (let threshold = clk 0 - stuck_threshold_minutes * minute in
      co_bind (select_async (select_ids
          (\<lambda>r. status r = PROCESSING \<and> sql_lt (started_at r) threshold)
          (\<lambda>r. nulls_last (started_at r)) limit)) (\<lambda>task_ids.
      if task_ids = [] then co_return []
      else
        co_bind (update_async
            (\<lambda>r. row_id r \<in> set task_ids \<and> status r = PROCESSING \<and> attempts r < max_attempts r)
            (\<lambda>r. r\<lparr>status := PENDING, updated_at := clk 1\<rparr>)) (\<lambda>retry_rows.
        co_bind (update_async
            (\<lambda>r. row_id r \<in> set task_ids \<and> status r = PROCESSING \<and> attempts r \<ge> max_attempts r)
            (\<lambda>r. r\<lparr>status := DEAD, updated_at := clk 2\<rparr>)) (\<lambda>dead_rows.
        co_bind flush_async (\<lambda>_.
        co_bind (notify_rows_async is_pg retry_rows) (\<lambda>_.
        co_return (map row_id retry_rows)))))))"

definition sweep_dispatching_async ::
    "bool \<Rightarrow> clock \<Rightarrow> int \<Rightarrow> nat \<Rightarrow> (transaction, string list) coro" where
  "sweep_dispatching_async is_pg clk dispatch_timeout_seconds limit =
     (let threshold = clk 0 - dispatch_timeout_seconds * second in
      co_bind (select_async (select_ids
          (\<lambda>r. status r = DISPATCHING \<and> sql_lt (dispatching_at r) threshold)
          (\<lambda>r. nulls_last (dispatching_at r)) limit)) (\<lambda>task_ids.
      if task_ids = [] then co_return []
      else
        co_bind (update_async
            (\<lambda>r. row_id r \<in> set task_ids \<and> status r = DISPATCHING \<and> attempts r < max_attempts r)
            (\<lambda>r. r\<lparr>status := PENDING, dispatching_at := None, updated_at := clk 1\<rparr>))
          (\<lambda>retry_rows.
        co_bind (update_async
            (\<lambda>r. row_id r \<in> set task_ids \<and> status r = DISPATCHING \<and> attempts r \<ge> max_attempts r)
            (\<lambda>r. r\<lparr>status := DEAD, dispatching_at := None, updated_at := clk 2\<rparr>))
          (\<lambda>dead_rows.
        co_bind flush_async (\<lambda>_.
        co_bind (notify_rows_async is_pg retry_rows) (\<lambda>_.
        co_return (map row_id retry_rows)))))))"

definition sweep_async ::
    "bool \<Rightarrow> (nat \<Rightarrow> clock) \<Rightarrow> (string \<Rightarrow> bool) \<Rightarrow> int \<Rightarrow> int \<Rightarrow> nat
     \<Rightarrow> (transaction, sweep_result) coro" where
  "sweep_async is_pg clk locked stuck_threshold_minutes dispatch_timeout_seconds limit =
     co_bind (sweep_expired_async (clk 0) locked limit) (\<lambda>expired.
     co_bind (sweep_failed_async is_pg (clk 1) limit) (\<lambda>failed.
     co_bind (sweep_dispatching_async is_pg (clk 2) dispatch_timeout_seconds limit) (\<lambda>dispatching.
     co_bind (sweep_stuck_async is_pg (clk 3) stuck_threshold_minutes limit) (\<lambda>stuck.
     co_return [(''expired'', expired), (''failed'', failed), (''dispatching'', dispatching),
                (''stuck'', stuck)]))))"

section \<open>A pass and its synchronous counterpart\<close>

lemmas sweep_async_defs = sweep_failed_async_def sweep_expired_async_def sweep_stuck_async_def
  sweep_dispatching_async_def

lemma unpublished_sweeps [unpublished_intros]:
  "unpublished (sweep_failed_async is_pg clk limit)"
  "unpublished (sweep_expired_async clk locked limit)"
  "unpublished (sweep_stuck_async is_pg clk m limit)"
  "unpublished (sweep_dispatching_async is_pg clk d limit)"
  by (auto simp: sweep_async_defs Let_def intro!: unpublished_intros)

lemma strict_sweeps [strict_intros]:
  "strict (sweep_failed_async is_pg clk limit)"
  "strict (sweep_expired_async clk locked limit)"
  "strict (sweep_stuck_async is_pg clk m limit)"
  "strict (sweep_dispatching_async is_pg clk d limit)"
  by (auto simp: sweep_async_defs Let_def intro!: strict_intros)

lemma unpublished_sweep_async [unpublished_intros]: "unpublished (sweep_async is_pg clk locked m d limit)"
  by (auto simp: sweep_async_def intro!: unpublished_intros)

lemma strict_sweep_async [strict_intros]: "strict (sweep_async is_pg clk locked m d limit)"
  by (auto simp: sweep_async_def intro!: strict_intros)

text \<open>
  \<open>mirrors c p\<close>: on the calm loop \<open>c\<close> returns what the pass \<open>p\<close> does when the others act at
  its statements as they do at the awaits of \<open>c\<close>; what they do at the remaining awaits of \<open>c\<close>
  comes on top.
\<close>

definition mirrors ::
    "(transaction, 'a) coro \<Rightarrow> (others \<Rightarrow> transaction \<Rightarrow> 'a \<times> transaction) \<Rightarrow> bool" where
  "mirrors c p \<longleftrightarrow>
     (\<forall>env k t. \<exists>n i. i \<le> n \<and>
        (let (x, t1) = p (\<lambda>j. env (k + j)) t
         in c (session_loop env (\<lambda>_. None)) (k, t) =
              (Inr x, k + n, t1\<lparr>committed := others_in env k (k + n) (committed t),
                                 working := others_in env (k + i) (k + n) (working t1)\<rparr>)))"

lemma others_in_1: "others_in env k (Suc k) db = env k db"
  by (simp add: others_in_def)

lemma three_statements:
  fixes q :: "ledger \<Rightarrow> string list"
  assumes "c = co_bind (select_async q) (\<lambda>task_ids. if task_ids = [] then co_return []
      else co_bind (update_async (P task_ids) f) (\<lambda>retry_rows.
           co_bind (update_async (P' task_ids) f') (\<lambda>dead_rows.
           co_bind flush_async (\<lambda>_. co_bind (notify_rows_async is_pg retry_rows) (\<lambda>_.
           co_return (map row_id retry_rows))))))"
    and "p = (\<lambda>env t. let db0 = env 0 (working t); task_ids = q db0
      in if task_ids = [] then ([], t\<lparr>working := db0\<rparr>)
         else let (retry_rows, db1) = update_returning (P task_ids) f (env 1 db0);
                  (dead_rows, db2) = update_returning (P' task_ids) f' (env 2 db1)
              in (map row_id retry_rows,
                  t\<lparr>working := db2, queued := notify_rows is_pg retry_rows (queued t)\<rparr>))"
  shows "mirrors c p"
  unfolding mirrors_def
proof (intro allI)
  fix env :: others and k :: nat and t :: transaction
  let ?db0 = "env k (working t)"
  let ?lp = "session_loop env (\<lambda>_. None)"
  show "\<exists>n i. i \<le> n \<and> (let (x, t1) = p (\<lambda>j. env (k + j)) t in c ?lp (k, t) =
      (Inr x, k + n, t1\<lparr>committed := others_in env k (k + n) (committed t),
                         working := others_in env (k + i) (k + n) (working t1)\<rparr>))"
  proof (cases "q ?db0 = []")
    case True
    then show ?thesis
      by (intro exI [of _ 1])
        (simp add: assms co_bind_def co_return_def others_in_1 sees_def)
  next
    case False
    let ?rows = "map f (filter (P (q ?db0)) (env (k + 1) ?db0))"
    let ?db2 = "update_where (P' (q ?db0)) f'
      (env (k + 2) (update_where (P (q ?db0)) f (env (k + 1) ?db0)))"
    let ?c3 = "others_in env k (k + 4) (committed t)"
    let ?t3 = "t\<lparr>committed := ?c3, working := env (k + 3) ?db2\<rparr>"
    obtain n where n: "notify_rows_async is_pg ?rows ?lp (k + 4, ?t3) =
        (Inr (), k + 4 + n, ?t3\<lparr>committed := others_in env (k + 4) (k + 4 + n) (committed ?t3),
          working := others_in env (k + 4) (k + 4 + n) (working ?t3),
          queued := notify_rows is_pg ?rows (queued ?t3)\<rparr>)"
      using notify_rows_calm [of is_pg ?rows env "k + 4" ?t3] by blast
    have c4: "?c3 = env (k + 3) (env (k + 2) (env (k + 1) (env k (committed t))))"
      by (simp add: others_in_def eval_nat_numeral)
    have "c ?lp (k, t) = (Inr (map row_id ?rows), k + (4 + n),
        t\<lparr>committed := others_in env (k + 4) (k + 4 + n) ?c3,
          working := others_in env (k + 4) (k + 4 + n) (env (k + 3) ?db2),
          queued := notify_rows is_pg ?rows (queued t)\<rparr>)"
      using False n unfolding c4
      by (simp add: assms(1) co_bind_def co_return_def sees_def eval_nat_numeral)
    moreover have "others_in env (k + 4) (k + 4 + n) ?c3 = others_in env k (k + (4 + n)) (committed t)"
      using others_in_trans [of k "k + 4" "k + 4 + n"] by (simp add: add.assoc)
    moreover have "others_in env (k + 4) (k + 4 + n) (env (k + 3) ?db2) =
        others_in env (k + 3) (k + (4 + n)) ?db2"
    proof -
      have "env (k + 3) ?db2 = others_in env (k + 3) (k + 4) ?db2"
        using others_in_1 [of env "k + 3"] by (simp add: eval_nat_numeral)
      then show ?thesis
        using others_in_trans [of "k + 3" "k + 4" "k + 4 + n"] by (simp add: add.assoc)
    qed
    ultimately show ?thesis
      using False
      by (intro exI [of _ "4 + n"] exI [of _ 3])
        (simp add: assms(2) update_returning_def Let_def)
  qed
qed

lemma mirrors_sweep_failed:
  "mirrors (sweep_failed_async is_pg clk limit) (\<lambda>env. sweep_failed is_pg clk env limit)"
  by (rule three_statements, unfold sweep_failed_def sweep_failed_async_def Let_def) (rule refl)+

lemma mirrors_sweep_stuck:
  "mirrors (sweep_stuck_async is_pg clk m limit) (\<lambda>env. sweep_stuck is_pg clk env m limit)"
  by (rule three_statements, unfold sweep_stuck_def sweep_stuck_async_def Let_def) (rule refl)+

lemma mirrors_sweep_dispatching:
  "mirrors (sweep_dispatching_async is_pg clk d limit) (\<lambda>env. sweep_dispatching is_pg clk env d limit)"
  by (rule three_statements, unfold sweep_dispatching_def sweep_dispatching_async_def Let_def) (rule refl)+


lemma mirrors_sweep_expired:
  "mirrors (sweep_expired_async clk locked limit) (\<lambda>env. sweep_expired clk locked env limit)"
  unfolding mirrors_def
proof (intro allI)
  fix env :: others and k :: nat and t :: transaction
  let ?ids = "expiry_ids clk locked limit (env k (working t))"
  show "\<exists>n i. i \<le> n \<and> (let (x, t1) = sweep_expired clk locked (\<lambda>j. env (k + j)) limit t
      in sweep_expired_async clk locked limit (session_loop env (\<lambda>_. None)) (k, t) =
        (Inr x, k + n, t1\<lparr>committed := others_in env k (k + n) (committed t),
                           working := others_in env (k + i) (k + n) (working t1)\<rparr>))"
  proof (cases "?ids = []")
    case True
    then show ?thesis
      by (intro exI [of _ 1])
        (simp add: sweep_expired_def sweep_expired_async_def Let_def co_bind_def co_return_def
          others_in_1 sees_def)
  next
    case False
    then show ?thesis
      by (intro exI [of _ 3] exI [of _ 2])
        (simp add: sweep_expired_def sweep_expired_async_def Let_def co_bind_def co_return_def
          others_in_def sees_def update_returning_def eval_nat_numeral)
  qed
qed

section \<open>The composition\<close>

text \<open>\<open>woven env g\<close>: \<open>g\<close> is what the others do at some awaits, one after the other.\<close>

definition woven :: "others \<Rightarrow> (ledger \<Rightarrow> ledger) \<Rightarrow> bool" where
  "woven env g \<longleftrightarrow> (\<exists>ks. g = fold env ks)"

lemma woven_id [simp]: "woven env (\<lambda>db. db)"
  unfolding woven_def by (rule exI [of _ "[]"]) (simp add: fun_eq_iff)

lemma woven_one [simp]: "woven env (env k)"
  unfolding woven_def by (rule exI [of _ "[k]"]) simp

lemma woven_others_in [simp]: "woven env (others_in env i j)"
  unfolding woven_def by (rule exI [of _ "[i..<j]"]) (simp add: fun_eq_iff others_in_def)

lemma woven_comp: "woven env g \<Longrightarrow> woven env h \<Longrightarrow> woven env (\<lambda>db. g (h db))"
  unfolding woven_def
proof (elim exE)
  fix ks js assume "g = fold env ks" and "h = fold env js"
  then have "(\<lambda>db. g (h db)) = fold env (js @ ks)" by (simp add: fun_eq_iff)
  then show "\<exists>ls. (\<lambda>db. g (h db)) = fold env ls" by blast
qed

lemma woven_alone: "woven alone g \<longleftrightarrow> g = (\<lambda>db. db)"
proof -
  have "fold alone ks = (\<lambda>db. db)" for ks
    by (induction ks) (simp_all add: fun_eq_iff)
  then show ?thesis by (auto simp: woven_def)
qed

lemma woven_keeps: "woven env g \<Longrightarrow> (\<And>k. keeps I (env k)) \<Longrightarrow> keeps I g"
  unfolding woven_def
proof (elim exE)
  fix ks assume "g = fold env ks" and env: "\<And>k. keeps I (env k)"
  have "keeps I (fold env ks)"
    by (induction ks) (use env in \<open>auto simp: keeps_def\<close>)
  then show "keeps I g" using \<open>g = fold env ks\<close> by simp
qed

text \<open>
  A pass looks at the table only after the others' first commits, and leaves the rest of the
  transaction alone.
\<close>

definition regular :: "(others \<Rightarrow> transaction \<Rightarrow> 'a \<times> transaction) \<Rightarrow> bool" where
  "regular p \<longleftrightarrow>
     (\<forall>env t g C. p env (t\<lparr>committed := C, working := g (working t)\<rparr>) =
        (let (x, t1) = p (env(0 := \<lambda>db. env 0 (g db))) t in (x, t1\<lparr>committed := C\<rparr>)))"

lemma regular_passes:
  "regular (\<lambda>env. sweep_expired clk locked env limit)"
  "regular (\<lambda>env. sweep_failed is_pg clk env limit)"
  "regular (\<lambda>env. sweep_dispatching is_pg clk env d limit)"
  "regular (\<lambda>env. sweep_stuck is_pg clk env m limit)"
  by (simp_all only: regular_def sweep_defs Let_def update_returning_def split fun_upd_apply if_True
      zero_neq_one zero_neq_numeral if_False task_row.simps transaction.simps) simp_all

lemma mirrors_after:
  assumes "mirrors c p" and "regular p" and "woven env g" and "j \<le> k"
  shows "\<exists>n env' g'. (\<forall>j. woven env (env' j)) \<and> woven env g' \<and>
    c (session_loop env (\<lambda>_. None)) (k, t\<lparr>committed := others_in env j k C, working := g (working t)\<rparr>) =
      (Inr (fst (p env' t)), k + n, (snd (p env' t))\<lparr>committed := others_in env j (k + n) C,
         working := g' (working (snd (p env' t)))\<rparr>)"
proof -
  let ?C = "others_in env j k C"
  let ?t = "t\<lparr>committed := ?C, working := g (working t)\<rparr>"
  let ?env' = "(\<lambda>j. env (k + j))(0 := \<lambda>db. env (k + 0) (g db))"
  obtain n i where run: "let (x, t1) = p (\<lambda>j. env (k + j)) ?t
      in c (session_loop env (\<lambda>_. None)) (k, ?t) =
         (Inr x, k + n, t1\<lparr>committed := others_in env k (k + n) (committed ?t),
                            working := others_in env (k + i) (k + n) (working t1)\<rparr>)"
    using assms(1) unfolding mirrors_def by blast
  obtain x t1 where p': "p ?env' t = (x, t1)" by (metis surj_pair)
  have "p (\<lambda>j. env (k + j)) ?t = (let (x, t1) = p ?env' t in (x, t1\<lparr>committed := ?C\<rparr>))"
    using assms(2) unfolding regular_def by blast
  then have "p (\<lambda>j. env (k + j)) ?t = (x, t1\<lparr>committed := ?C\<rparr>)" by (simp only: p' Let_def split)
  with run others_in_trans [OF assms(4), of "k + n" env C]
  have "c (session_loop env (\<lambda>_. None)) (k, ?t) =
      (Inr x, k + n, t1\<lparr>committed := others_in env j (k + n) C,
                         working := others_in env (k + i) (k + n) (working t1)\<rparr>)"
    by simp
  moreover have "\<forall>j. woven env (?env' j)" using assms(3) by (auto intro: woven_comp)
  moreover have "woven env (others_in env (k + i) (k + n))" by simp
  ultimately show ?thesis using p' by (metis fst_conv snd_conv)
qed

lemma sweep_async_mirrors:
  "\<exists>n env' g. (\<forall>i j. woven env (env' i j)) \<and> woven env g \<and>
    (let (x, t1) = sweep is_pg clk locked env' m d limit t
     in sweep_async is_pg clk locked m d limit (session_loop env (\<lambda>_. None)) (k, t) =
       (Inr x, k + n, t1\<lparr>committed := others_in env k (k + n) (committed t),
                          working := g (working t1)\<rparr>))"
proof -
  let ?lp = "session_loop env (\<lambda>_. None)"
  note step = mirrors_after [where j = k and C = "committed t" and env = env]
  obtain n1 e1 g1 where 1: "\<forall>j. woven env (e1 j)" "woven env g1"
    "sweep_expired_async (clk 0) locked limit ?lp (k, t) =
       (Inr (fst (sweep_expired (clk 0) locked e1 limit t)), k + n1,
        (snd (sweep_expired (clk 0) locked e1 limit t))\<lparr>committed := others_in env k (k + n1) (committed t),
          working := g1 (working (snd (sweep_expired (clk 0) locked e1 limit t)))\<rparr>)"
    using step [OF mirrors_sweep_expired regular_passes(1) woven_id le_refl, where t = t]
    unfolding others_in_refl by simp blast
  define t1 where "t1 = snd (sweep_expired (clk 0) locked e1 limit t)"
  have le1: "k \<le> k + n1" by simp
  obtain n2 e2 g2 where 2: "\<forall>j. woven env (e2 j)" "woven env g2"
    "sweep_failed_async is_pg (clk 1) limit ?lp (k + n1, t1\<lparr>committed := others_in env k (k + n1) (committed t), working := g1 (working t1)\<rparr>) =
       (Inr (fst (sweep_failed is_pg (clk 1) e2 limit t1)), k + n1 + n2,
        (snd (sweep_failed is_pg (clk 1) e2 limit t1))\<lparr>committed := others_in env k (k + n1 + n2) (committed t),
          working := g2 (working (snd (sweep_failed is_pg (clk 1) e2 limit t1)))\<rparr>)"
    using step [OF mirrors_sweep_failed [where is_pg = is_pg and clk = "clk 1" and limit = limit]
        regular_passes(2) 1(2) le1, where t = t1]
    by blast
  define t2 where "t2 = snd (sweep_failed is_pg (clk 1) e2 limit t1)"
  have le2: "k \<le> k + n1 + n2" by simp
  obtain n3 e3 g3 where 3: "\<forall>j. woven env (e3 j)" "woven env g3"
    "sweep_dispatching_async is_pg (clk 2) d limit ?lp (k + n1 + n2, t2\<lparr>committed := others_in env k (k + n1 + n2) (committed t), working := g2 (working t2)\<rparr>) =
       (Inr (fst (sweep_dispatching is_pg (clk 2) e3 d limit t2)), k + n1 + n2 + n3,
        (snd (sweep_dispatching is_pg (clk 2) e3 d limit t2))\<lparr>committed := others_in env k (k + n1 + n2 + n3) (committed t),
          working := g3 (working (snd (sweep_dispatching is_pg (clk 2) e3 d limit t2)))\<rparr>)"
    using step [OF mirrors_sweep_dispatching [where is_pg = is_pg and clk = "clk 2" and d = d and limit = limit]
        regular_passes(3) 2(2) le2, where t = t2]
    by blast
  define t3 where "t3 = snd (sweep_dispatching is_pg (clk 2) e3 d limit t2)"
  have le3: "k \<le> k + n1 + n2 + n3" by simp
  obtain n4 e4 g4 where 4: "\<forall>j. woven env (e4 j)" "woven env g4"
    "sweep_stuck_async is_pg (clk 3) m limit ?lp (k + n1 + n2 + n3, t3\<lparr>committed := others_in env k (k + n1 + n2 + n3) (committed t), working := g3 (working t3)\<rparr>) =
       (Inr (fst (sweep_stuck is_pg (clk 3) e4 m limit t3)), k + n1 + n2 + n3 + n4,
        (snd (sweep_stuck is_pg (clk 3) e4 m limit t3))\<lparr>committed := others_in env k (k + n1 + n2 + n3 + n4) (committed t),
          working := g4 (working (snd (sweep_stuck is_pg (clk 3) e4 m limit t3)))\<rparr>)"
    using step [OF mirrors_sweep_stuck [where is_pg = is_pg and clk = "clk 3" and m = m and limit = limit]
        regular_passes(4) 3(2) le3, where t = t3]
    by blast
  define e where "e = (\<lambda>i::nat. if i = 0 then e1 else if i = 1 then e2 else if i = 2 then e3 else e4)"
  have "\<forall>i j. woven env (e i j)" using 1(1) 2(1) 3(1) 4(1) by (simp add: e_def)
  moreover have "let (x, t4) = sweep is_pg clk locked e m d limit t
     in sweep_async is_pg clk locked m d limit ?lp (k, t) =
       (Inr x, k + (n1 + n2 + n3 + n4),
        t4\<lparr>committed := others_in env k (k + (n1 + n2 + n3 + n4)) (committed t),
          working := g4 (working t4)\<rparr>)"
    using 1(3) 2(3) 3(3) 4(3)
    by (simp add: sweep_def sweep_async_def co_bind_def co_return_def e_def split_def Let_def
        add.assoc del: One_nat_def flip: t1_def t2_def t3_def)
  ultimately show ?thesis using 4(2) by blast
qed

end
