(* ===== verification/Async_Executor.thy ===== *)
theory Async_Executor
  imports Async_Sweep Sa_Executor
begin

text \<open>
  \<open>src/dewey/sqlalchemy/async_executor.py\<close>: producers and the two-phase worker as coroutines.

  The worker acts on its session and on the context variable.  It reads the row under
  \<open>SELECT ... FOR UPDATE\<close> at one await and writes it at the commit, a later one: the values written
  are computed from the row as it was read.
\<close>

section \<open>Producers\<close>

definition create_task_async ::
    "bool \<Rightarrow> ('h, 'f) policy_state \<Rightarrow> string \<Rightarrow> clock \<Rightarrow> task_request \<Rightarrow> (transaction, task_row) coro" where
  "create_task_async is_pg st new_id clk rq =
     (case check_request rq of
        Inl e \<Rightarrow> co_raise e
      | Inr _ \<Rightarrow>
          (let policy = resolve_policy st (rq_task_type rq) in
           case encode_request rq of
             Inl e \<Rightarrow> co_raise e
           | Inr (js, kvs) \<Rightarrow>
               (let task = new_row new_id clk policy rq js kvs in
                co_bind (co_await (\<lambda>t. case insert_row task (working t) of
                                         Inl e \<Rightarrow> (Inl e, t)
                                       | Inr db \<Rightarrow> (Inr (), t\<lparr>working := db\<rparr>))) (\<lambda>_.
                co_bind (notify_work_available_async is_pg
                           (task_notification (row_id task) (queue task))) (\<lambda>_.
                co_return task)))))"

text \<open>
  \<open>async with session.begin_nested()\<close>: the savepoint and its release are statements; an
  exception takes the transaction back to the savepoint, the others' commits apart.
\<close>

definition nested_async :: "(transaction, 'a) coro \<Rightarrow> (transaction, 'a) coro" where
  "nested_async c =
     co_bind (co_await (\<lambda>t. (Inr (), t))) (\<lambda>_ lp (k0, t0).
       case co_bind c (\<lambda>x. co_bind (co_await (\<lambda>t. (Inr (), t))) (\<lambda>_. co_return x)) lp (k0, t0) of
         (Inr x, \<sigma>) \<Rightarrow> (Inr x, \<sigma>)
       | (Inl e, k1, t1) \<Rightarrow> (Inl e, k1, fold (lp_others lp) [k0..<k1] t0))"

definition create_or_get_task_async ::
    "bool \<Rightarrow> ('h, 'f) policy_state \<Rightarrow> string \<Rightarrow> clock \<Rightarrow> task_request \<Rightarrow> (transaction, task_row) coro" where
  "create_or_get_task_async is_pg st new_id clk rq =
     (if or_default '''' (rq_idempotency_key rq) = ''''
      then co_raise (py_exn ValueErrorC
             ''create_or_get_task_async requires a non-empty idempotency_key'')
      else
        case check_request rq of
          Inl e \<Rightarrow> co_raise e
        | Inr _ \<Rightarrow>
            let policy = resolve_policy st (rq_task_type rq);
                rq' = rq\<lparr>rq_queue := Some (or_default (p_queue policy) (rq_queue rq)),
                         rq_priority := Some (or_default (p_priority policy) (rq_priority rq)),
                         rq_max_attempts :=
                           Some (or_default (p_max_attempts policy) (rq_max_attempts rq))\<rparr>
            in case encode_request rq of
                 Inl e \<Rightarrow> co_raise e
               | Inr (js, kvs) \<Rightarrow>
                   let expected = new_row new_id clk policy rq js kvs
                   in co_except (\<lambda>exc. isinstance exc [IntegrityErrorC])
                        (nested_async (create_task_async is_pg st new_id clk rq'))
                        (\<lambda>exc.
                          co_bind (select_async
                              (find_key (rq_task_type rq) (rq_idempotency_key rq))) (\<lambda>found.
                          case found of
                            None \<Rightarrow> co_raise exc
                          | Some existing \<Rightarrow>
                              let differing = differing_fields expected existing
                              in if differing = [] then co_return existing
                                 else case idempotency_conflict differing of
                                        Inl e \<Rightarrow> co_raise e
                                      | Inr e \<Rightarrow> co_raise e)))"

section \<open>Workers\<close>

type_synonym worker_state = "transaction \<times> context_var"

definition worker_loop :: "others \<Rightarrow> (nat \<Rightarrow> (bool \<times> exn) option) \<Rightarrow> worker_state event_loop" where
  "worker_loop env intr =
     \<lparr>lp_others = \<lambda>k s. (sees (env k) (fst s), snd s), lp_interrupt = intr\<rparr>"

definition select_for_update :: "string \<Rightarrow> (worker_state, task_row option) coro" where
  "select_for_update task_id = co_await (\<lambda>s. (Inr (find_row task_id (working (fst s))), s))"

text \<open>\<open>session.commit()\<close>, which first writes the columns changed on the row's object.\<close>

definition commit_changes :: "string \<Rightarrow> (task_row \<Rightarrow> task_row) \<Rightarrow> (worker_state, unit) coro" where
  "commit_changes task_id f =
     co_await (\<lambda>s. (Inr (), (commit ((fst s)\<lparr>working := set_row task_id f (working (fst s))\<rparr>), snd s)))"

definition commit_nothing :: "(worker_state, unit) coro" where
  "commit_nothing = co_await (\<lambda>s. (Inr (), (commit (fst s), snd s)))"

text \<open>Phase 2: resolving the handler awaits nothing, running it does.\<close>

definition run_handler_async ::
    "('h \<Rightarrow> json list \<Rightarrow> dict \<Rightarrow> context_var \<Rightarrow> exn option \<times> context_var) \<Rightarrow> 'h option
     \<Rightarrow> ('h, 'f) task_claim \<Rightarrow> (worker_state, unit) coro" where
  "run_handler_async call handler c =
     (case resolve_handler (c_type c) handler (c_policy c) of
        Inl e \<Rightarrow> co_raise e
      | Inr h \<Rightarrow> co_await (\<lambda>s.
          let (raised, var) = call h (c_args c) (c_kwargs c) (snd s)
          in (case raised of None \<Rightarrow> Inr () | Some e \<Rightarrow> Inl e, (fst s, var))))"

text \<open>Phase 1: \<open>None\<close> is a return of \<open>False\<close> before the handler.\<close>

definition process_claim_async ::
    "('h, 'f) policy_state \<Rightarrow> clock \<Rightarrow> string \<Rightarrow> (worker_state, ('h, 'f) task_claim option) coro" where
  "process_claim_async st clk task_id =
     co_bind (select_for_update task_id) (\<lambda>found.
     case found of
       None \<Rightarrow> co_return None
     | Some task \<Rightarrow>
         let now = clk 0 in
         if is_terminal (status task) then co_return None
         else if status task \<notin> set claimable then co_return None
         else if sql_le (expires_at task) now
         then co_bind (commit_changes task_id
                  (\<lambda>r. r\<lparr>status := EXPIRED, expired_at := Some now, dispatching_at := None,
                         updated_at := clk 1\<rparr>)) (\<lambda>_. co_return None)
         else if (case scheduled_for task of None \<Rightarrow> False | Some s \<Rightarrow> s > now) then co_return None
         else if \<not> can_transition_to (status task) PROCESSING then co_return None
         else
           let c = \<lparr>c_type = task_type task, c_args = args task, c_kwargs = kwargs task,
                    c_attempts = attempts task + 1, c_max_attempts = max_attempts task,
                    c_metadata = task_metadata task,
                    c_policy = resolve_policy st (task_type task)\<rparr>
           in co_bind (commit_changes task_id
                  (\<lambda>r. r\<lparr>status := PROCESSING, started_at := Some now, dispatching_at := None,
                         attempts := attempts task + 1, updated_at := clk 1\<rparr>))
                (\<lambda>_. co_return (Some c)))"

definition process_finish_async ::
    "('f \<Rightarrow> int \<Rightarrow> backoff_value result) \<Rightarrow> rat \<Rightarrow> clock \<Rightarrow> (int \<Rightarrow> timedelta result) option
     \<Rightarrow> string \<Rightarrow> ('h, 'f) task_claim \<Rightarrow> exn option \<Rightarrow> (worker_state, bool) coro" where
  "process_finish_async fn u clk backoff task_id c raised =
     (case raised of
        Some exc \<Rightarrow>
          co_bind (select_for_update task_id) (\<lambda>found.
          case found of
            None \<Rightarrow> co_return False
          | Some task \<Rightarrow>
              if status task \<noteq> PROCESSING then co_bind commit_nothing (\<lambda>_. co_return False)
              else
                case classify_failure exc (c_policy c) (policy_delay_for fn u (c_policy c))
                       (c_attempts c) (c_max_attempts c) (clk 0) backoff of
                  Inl e \<Rightarrow> co_raise e
                | Inr out \<Rightarrow>
                    co_bind (commit_changes task_id
                       (\<lambda>r. if is_dead out
                            then r\<lparr>error := exn_text exc, status := out_status out,
                                   updated_at := clk 1\<rparr>
                            else r\<lparr>error := exn_text exc, status := out_status out,
                                   scheduled_for := out_retry_at out, updated_at := clk 1\<rparr>))
                      (\<lambda>_. co_return False))
      | None \<Rightarrow>
          co_bind (select_for_update task_id) (\<lambda>found.
          case found of
            None \<Rightarrow> co_return False
          | Some task \<Rightarrow>
              if status task \<noteq> PROCESSING then co_bind commit_nothing (\<lambda>_. co_return False)
              else co_bind (commit_changes task_id
                       (\<lambda>r. r\<lparr>status := COMPLETED, completed_at := Some (clk 0), error := '''',
                              updated_at := clk 1\<rparr>)) (\<lambda>_. co_return True)))"

definition process_task_async ::
    "('h \<Rightarrow> json list \<Rightarrow> dict \<Rightarrow> context_var \<Rightarrow> exn option \<times> context_var)
     \<Rightarrow> ('h, 'f) policy_state \<Rightarrow> ('f \<Rightarrow> int \<Rightarrow> backoff_value result) \<Rightarrow> rat \<Rightarrow> (nat \<Rightarrow> clock)
     \<Rightarrow> 'h option \<Rightarrow> (int \<Rightarrow> timedelta result) option \<Rightarrow> string \<Rightarrow> (worker_state, bool) coro" where
  "process_task_async call st fn u clk handler backoff task_id =
     co_bind (process_claim_async st (clk 0) task_id) (\<lambda>claimed.
     case claimed of
       None \<Rightarrow> co_return False
     | Some c \<Rightarrow>
         co_bind (co_local (\<lambda>s.
             let (token, var) = set_trace_context
                   (Some (extract_trace_context (Some (c_metadata c)))) (snd s)
             in (Inr token, (fst s, var)))) (\<lambda>token.
         co_finally
           (co_bind (co_except (\<lambda>e. isinstance e [ExceptionC])
                (co_bind (run_handler_async call handler c) (\<lambda>_. co_return None))
                (\<lambda>exc. co_return (Some exc)))
              (process_finish_async fn u (clk 1) backoff task_id c))
           (\<lambda>s. (fst s, reset_trace_context token (snd s)))))"


section \<open>What the worker publishes\<close>

text \<open>
  The worker's row is locked between its two statements of a phase: what the others commit there
  leaves the row alone.
\<close>

definition spares :: "string \<Rightarrow> (ledger \<Rightarrow> ledger) \<Rightarrow> bool" where
  "spares i e = (\<forall>db. find_row i (e db) = find_row i db)"

lemma spares_id [simp]: "spares i (\<lambda>db. db)"
  by (simp add: spares_def)

text \<open>Between two commits the session has written nothing.\<close>

abbreviation clean :: "transaction \<Rightarrow> bool" where
  "clean t \<equiv> working t = committed t \<and> queued t = []"

lemma worker_loop_simps [simp]:
  "lp_others (worker_loop env intr) k s = (sees (env k) (fst s), snd s)"
  "lp_interrupt (worker_loop env intr) = intr"
  by (simp_all add: worker_loop_def)

lemma run_select:
  "select_for_update i (worker_loop env intr) (k, t, v) =
     (case intr k of None \<Rightarrow> Inr (find_row i (env k (working t))) | Some (after, e) \<Rightarrow> Inl e,
      Suc k, sees (env k) t, v)"
  by (auto simp: select_for_update_def co_await_def Let_def split: option.split)

lemma run_commit:
  "commit_changes i f (worker_loop env intr) (k, t, v) =
     (case intr k of None \<Rightarrow> Inr () | Some (after, e) \<Rightarrow> Inl e, Suc k,
      case intr k of
        Some (False, e) \<Rightarrow> sees (env k) t
      | _ \<Rightarrow> commit ((sees (env k) t)\<lparr>working := set_row i f (env k (working t))\<rparr>), v)"
  by (auto simp: commit_changes_def co_await_def Let_def split: option.split bool.split)

lemma run_commit_nothing:
  "commit_nothing (worker_loop env intr) (k, t, v) =
     (case intr k of None \<Rightarrow> Inr () | Some (after, e) \<Rightarrow> Inl e, Suc k,
      case intr k of Some (False, e) \<Rightarrow> sees (env k) t | _ \<Rightarrow> commit (sees (env k) t), v)"
  by (auto simp: commit_nothing_def co_await_def Let_def split: option.split bool.split)

lemmas worker_runs = run_select run_commit run_commit_nothing

text \<open>
  A phase run on the table \<open>db\<close> with the pure step \<open>p\<close>: for some commits \<open>g\<close> of the others the
  table is \<open>g db\<close>, or \<open>g db\<close> after the whole step; a value is returned only in the second case,
  which is the only one when nothing is interrupted (\<open>\<not> disturbed\<close>).
\<close>

definition publishes ::
    "others \<Rightarrow> bool \<Rightarrow> (ledger \<Rightarrow> 'a result \<times> ledger) \<Rightarrow> transaction \<Rightarrow> 'a result \<Rightarrow> transaction \<Rightarrow> bool" where
  "publishes env disturbed p t r t' \<longleftrightarrow>
     clean t' \<and>
     (\<exists>g. woven env g \<and>
        ((r, committed t') = p (g (committed t)) \<or>
         disturbed \<and> (\<exists>e. r = Inl e) \<and> committed t' \<in> {g (committed t), snd (p (g (committed t)))}))"

lemma publishesI:
  "clean t' \<Longrightarrow> woven env g \<Longrightarrow> (r, committed t') = p (g (committed t)) \<Longrightarrow> publishes env disturbed p t r t'"
  unfolding publishes_def by blast

lemma publishes_Inl:
  "clean t' \<Longrightarrow> woven env g \<Longrightarrow> committed t' \<in> {g (committed t), snd (p (g (committed t)))} \<Longrightarrow>
   publishes env True p t (Inl e) t'"
  unfolding publishes_def by blast

lemma clean_sees [simp]: "clean t \<Longrightarrow> clean (sees e t)"
  by simp

text \<open>A phase is a read of the row and a write computed from it.\<close>

lemma read_then_write:
  assumes c: "clean t" and sp: "spares i (env (Suc k))"
    and run: "co_bind (select_for_update i) f (worker_loop env intr) (k, t, v) = (r, k', t', v')"
    and cont: "\<And>found. found = find_row i (env k (committed t)) \<Longrightarrow>
      (\<exists>x. f found = co_return x \<and> (\<forall>db. find_row i db = found \<longrightarrow> p db = (Inr x, db))) \<or>
      (\<exists>e. f found = co_raise e \<and> (\<forall>db. find_row i db = found \<longrightarrow> p db = (Inl e, db))) \<or>
      (\<exists>x. f found = co_bind commit_nothing (\<lambda>_. co_return x) \<and>
         (\<forall>db. find_row i db = found \<longrightarrow> p db = (Inr x, db))) \<or>
      (\<exists>x h. f found = co_bind (commit_changes i h) (\<lambda>_. co_return x) \<and>
         p (env (Suc k) (env k (committed t))) =
           (Inr x, set_row i h (env (Suc k) (env k (committed t)))))"
  shows "publishes env (intr \<noteq> (\<lambda>_. None)) p t r t' \<and> v' = v"
proof (cases "intr k")
  case (Some ae)
  then have disturbed: "(intr \<noteq> (\<lambda>_. None)) = True" by auto
  from Some have "r = Inl (snd ae)" "t' = sees (env k) t" "v' = v"
    using run by (auto simp: co_bind_def run_select split: prod.splits)
  then show ?thesis
    unfolding disturbed using c by (auto intro!: publishes_Inl [of _ _ "env k"])
next
  case None
  let ?db = "env k (committed t)"
  let ?db1 = "env (Suc k) ?db"
  have w: "working t = committed t" using c by simp
  have run': "f (find_row i ?db) (worker_loop env intr) (Suc k, sees (env k) t, v) = (r, k', t', v')"
    using run None w by (simp add: co_bind_def run_select)
  have same: "find_row i ?db1 = find_row i ?db" using sp by (simp add: spares_def)
  have g1: "woven env (\<lambda>db. env (Suc k) (env k db))"
    using woven_comp [of env "env (Suc k)" "env k"] by simp
  consider (ret) x where "f (find_row i ?db) = co_return x"
      "\<forall>db. find_row i db = find_row i ?db \<longrightarrow> p db = (Inr x, db)"
    | (err) e where "f (find_row i ?db) = co_raise e"
      "\<forall>db. find_row i db = find_row i ?db \<longrightarrow> p db = (Inl e, db)"
    | (nothing) x where "f (find_row i ?db) = co_bind commit_nothing (\<lambda>_. co_return x)"
      "\<forall>db. find_row i db = find_row i ?db \<longrightarrow> p db = (Inr x, db)"
    | (writes) x h where "f (find_row i ?db) = co_bind (commit_changes i h) (\<lambda>_. co_return x)"
      "p ?db1 = (Inr x, set_row i h ?db1)"
    using cont [OF refl] by blast
  then show ?thesis
  proof cases
    case ret
    then show ?thesis
      using run' c by (auto simp: co_return_def intro!: publishesI [of _ _ "env k"])
  next
    case err
    then show ?thesis
      using run' c by (auto simp: co_raise_def intro!: publishesI [of _ _ "env k"])
  next
    case nothing
    note fp = this
    show ?thesis
    proof (cases "intr (Suc k)")
      case None
      then show ?thesis
        using run' c same fp
        by (auto simp: co_bind_def co_return_def run_commit_nothing commit_def intro!: publishesI [OF _ g1])
    next
      case (Some ae)
      then have disturbed: "(intr \<noteq> (\<lambda>_. None)) = True" by auto
      show ?thesis
        unfolding disturbed using Some run' c same fp
        by (cases ae) (auto simp: co_bind_def co_return_def run_commit_nothing commit_def split: bool.splits
            intro!: publishes_Inl [OF _ g1])
    qed
  next
    case writes
    note fp = this
    show ?thesis
    proof (cases "intr (Suc k)")
      case None
      then show ?thesis
        using run' c same fp
        by (auto simp: co_bind_def co_return_def run_commit commit_def intro!: publishesI [OF _ g1])
    next
      case (Some ae)
      then have disturbed: "(intr \<noteq> (\<lambda>_. None)) = True" by auto
      show ?thesis
        unfolding disturbed using Some run' c same fp
        by (cases ae) (auto simp: co_bind_def co_return_def run_commit commit_def split: bool.splits
            intro!: publishes_Inl [OF _ g1])
    qed
  qed
qed


lemma set_row_cong:
  assumes "distinct (map row_id db)" and "find_row i db = Some task" and "f task = g task"
  shows "set_row i f db = set_row i g db"
  using assms by (intro update_where_cong) (auto dest: find_row_eq)

lemma process_claim_async_publishes:
  assumes "clean t" and "spares i (env (Suc k))"
    and "ledger_wf (env (Suc k) (env k (committed t)))"
    and "process_claim_async st clk i (worker_loop env intr) (k, t, v) = (r, k', t', v')"
  shows "publishes env (intr \<noteq> (\<lambda>_. None)) (\<lambda>db. map_prod Inr id (process_claim st clk i db)) t r t' \<and> v' = v"
proof (rule read_then_write [OF assms(1,2) assms(4) [unfolded process_claim_async_def]], goal_cases)
  case (1 found)
  let ?db1 = "env (Suc k) (env k (committed t))"
  have found: "find_row i ?db1 = found" using 1 assms(2) by (simp add: spares_def)
  show ?case
  proof (cases found)
    case None
    then show ?thesis by (auto simp: process_claim_def)
  next
    case (Some task)
    have ids: "distinct (map row_id ?db1)" using ledger_wf_distinct [OF assms(3)] .
    have "set_row i (\<lambda>r. r\<lparr>status := PROCESSING, started_at := Some (clk 0), dispatching_at := None,
          attempts := attempts r + 1, updated_at := clk 1\<rparr>) ?db1 =
        set_row i (\<lambda>r. r\<lparr>status := PROCESSING, started_at := Some (clk 0), dispatching_at := None,
          attempts := attempts task + 1, updated_at := clk 1\<rparr>) ?db1"
      using ids found Some by (intro set_row_cong [of _ _ task]) auto
    then show ?thesis
      using found Some by (auto simp: process_claim_def Let_def map_prod_def)
  qed
qed

lemma process_finish_async_publishes:
  assumes "clean t" and "spares i (env (Suc k))"
    and "process_finish_async fn u clk backoff i c raised (worker_loop env intr) (k, t, v) =
      (r, k', t', v')"
  shows "publishes env (intr \<noteq> (\<lambda>_. None)) (process_finish fn u clk backoff i c raised) t r t' \<and> v' = v"
proof (cases raised)
  case None
  show ?thesis
  proof (rule read_then_write [OF assms(1,2) assms(3) [unfolded process_finish_async_def None option.case]],
      goal_cases)
    case (1 found)
    then have "find_row i (env (Suc k) (env k (committed t))) = found"
      using assms(2) by (simp add: spares_def)
    then show ?case
      by (cases found) (auto simp: process_finish_def None)
  qed
next
  case (Some exc)
  show ?thesis
  proof (rule read_then_write [OF assms(1,2) assms(3) [unfolded process_finish_async_def Some option.case]],
      goal_cases)
    case (1 found)
    then have same: "find_row i (env (Suc k) (env k (committed t))) = found"
      using assms(2) by (simp add: spares_def)
    show ?case
    proof (cases found)
      case None
      then show ?thesis by (auto simp: process_finish_def Some)
    next
      case (Some task)
      then show ?thesis
        using same
        by (cases "classify_failure exc (c_policy c) (policy_delay_for fn u (c_policy c))
              (c_attempts c) (c_max_attempts c) (clk 0) backoff")
          (auto simp: process_finish_def \<open>raised = Some exc\<close>)
    qed
  qed
qed

text \<open>
  The whole worker: the claim on a table \<open>g db\<close>, the handler while the others do \<open>e\<close>, the finish.
  An interrupt leaves the row as it was, claimed, or finished.
\<close>

lemma run_handler_async_cases:
  assumes "run_handler_async call handler c (worker_loop env intr) (k, t, v) = (r, k', t', v')"
    and "clean t"
  shows "clean t' \<and> (\<exists>e. woven env e \<and> committed t' = e (committed t)) \<and>
    ((\<exists>ex. r = Inl ex) \<or> run_handler call handler c v = (None, v')) \<and>
    (intr = (\<lambda>_. None) \<longrightarrow> run_handler call handler c v = (case r of Inl e \<Rightarrow> Some e | Inr _ \<Rightarrow> None, v'))"
proof (cases "resolve_handler (c_type c) handler (c_policy c)")
  case (Inl e)
  then show ?thesis
    using assms by (auto simp: run_handler_async_def run_handler_def co_raise_def)
      (metis woven_id)
next
  case (Inr h)
  obtain raised var where "call h (c_args c) (c_kwargs c) v = (raised, var)" by fastforce
  then show ?thesis
    using assms Inr
    by (auto simp: run_handler_async_def run_handler_def co_await_def Let_def
        split: option.splits prod.splits if_splits intro!: exI [of _ "env k"])
qed

lemma process_claim_async_awaits:
  assumes "process_claim_async st clk i (worker_loop env intr) (k, t, v) = (Inr (Some c), k', t', v')"
  shows "k' = Suc (Suc k)"
  using assms
  by (auto simp: process_claim_async_def co_bind_def run_select run_commit co_return_def Let_def
      split: option.splits if_splits prod.splits)

text \<open>The three ways a run of the worker ends.\<close>

lemma process_task_async_cases:
  assumes run: "process_task_async call st fn u clk handler backoff i (worker_loop env intr)
      (k, t, v) = (r, k', t', v')"
  obtains (no_claim) rc where
      "process_claim_async st (clk 0) i (worker_loop env intr) (k, t, v) = (rc, k', t', v')"
      "(\<exists>e. rc = Inl e \<and> r = Inl e) \<or> (rc = Inr None \<and> r = Inr False)"
    | (escaped) c k1 t1 v1 var e v2 where
      "process_claim_async st (clk 0) i (worker_loop env intr) (k, t, v) = (Inr (Some c), k1, t1, v1)"
      "(v1, var) = set_trace_context (Some (extract_trace_context (Some (c_metadata c)))) v1"
      "run_handler_async call handler c (worker_loop env intr) (k1, t1, var) = (Inl e, k', t', v2)"
      "\<not> isinstance e [ExceptionC]" "r = Inl e" "v' = v1"
    | (finished) c k1 t1 v1 var rh k2 t2 v2 v3 where
      "process_claim_async st (clk 0) i (worker_loop env intr) (k, t, v) = (Inr (Some c), k1, t1, v1)"
      "(v1, var) = set_trace_context (Some (extract_trace_context (Some (c_metadata c)))) v1"
      "run_handler_async call handler c (worker_loop env intr) (k1, t1, var) = (rh, k2, t2, v2)"
      "\<forall>e. rh = Inl e \<longrightarrow> isinstance e [ExceptionC]"
      "process_finish_async fn u (clk 1) backoff i c (case rh of Inl e \<Rightarrow> Some e | Inr _ \<Rightarrow> None)
         (worker_loop env intr) (k2, t2, v2) = (r, k', t', v3)" "v' = v1"
proof -
  obtain rc k1 t1 v1 where claim:
    "process_claim_async st (clk 0) i (worker_loop env intr) (k, t, v) = (rc, k1, t1, v1)"
    by (metis surj_pair)
  consider (stop) "(\<exists>e. rc = Inl e) \<or> rc = Inr None" | (go) c where "rc = Inr (Some c)"
    by (metis option.exhaust sumE)
  then show thesis
  proof cases
    case stop
    then show thesis
      using run claim
      by (intro no_claim [of rc]) (auto simp: process_task_async_def co_bind_def co_return_def)
  next
    case go
    define var where "var = snd (set_trace_context (Some (extract_trace_context (Some (c_metadata c)))) v1)"
    have var: "(v1, var) = set_trace_context (Some (extract_trace_context (Some (c_metadata c)))) v1"
      by (simp add: var_def set_trace_context_def)
    obtain rh k2 t2 v2 where rh:
      "run_handler_async call handler c (worker_loop env intr) (k1, t1, var) = (rh, k2, t2, v2)"
      by (metis surj_pair)
    have rest: "(let (x, m, s) = co_bind (co_except (\<lambda>e. isinstance e [ExceptionC])
          (co_bind (run_handler_async call handler c) (\<lambda>_. co_return None))
          (\<lambda>exc. co_return (Some exc)))
          (process_finish_async fn u (clk 1) backoff i c) (worker_loop env intr) (k1, t1, var)
        in (x, m, fst s, v1)) = (r, k', t', v')"
      using run claim go
      by (simp add: process_task_async_def co_bind_def [of "process_claim_async _ _ _"]
          co_bind_def [of "co_local _"] co_local_def co_finally_def var_def set_trace_context_def
          reset_trace_context_def)
    show thesis
    proof (cases "\<exists>e. rh = Inl e \<and> \<not> isinstance e [ExceptionC]")
      case True
      then obtain e where e: "rh = Inl e" "\<not> isinstance e [ExceptionC]" by blast
      then have "r = Inl e" "k2 = k'" "t2 = t'" "v' = v1"
        using rest rh by (auto simp: co_bind_def co_except_def)
      then show thesis
        using rh claim go var e by (intro escaped [of c k1 t1 v1 var e v2]) auto
    next
      case False
      obtain x m s where fin: "process_finish_async fn u (clk 1) backoff i c
          (case rh of Inl e \<Rightarrow> Some e | Inr _ \<Rightarrow> None) (worker_loop env intr) (k2, t2, v2) = (x, m, s)"
        by (metis surj_pair)
      have "co_except (\<lambda>e. isinstance e [ExceptionC])
          (co_bind (run_handler_async call handler c) (\<lambda>_. co_return None))
          (\<lambda>exc. co_return (Some exc)) (worker_loop env intr) (k1, t1, var) =
          (Inr (case rh of Inl e \<Rightarrow> Some e | Inr _ \<Rightarrow> None), k2, t2, v2)"
        using rh False by (cases rh) (auto simp: co_bind_def co_except_def co_return_def)
      then have "x = r" "m = k'" "fst s = t'" "v' = v1"
        using rest fin by (auto simp: co_bind_def)
      then show thesis
        using claim go var rh False fin by (intro finished [of c k1 t1 v1 var rh k2 t2 v2 "snd s"]) auto
    qed
  qed
qed


section \<open>What a producer does\<close>

lemma fold_sees:
  "committed (fold (\<lambda>k. sees (env k)) ks t) = fold env ks (committed t)"
  "delivered (fold (\<lambda>k. sees (env k)) ks t) = delivered t"
  by (induction ks arbitrary: t) simp_all

lemma unpublished_nested [unpublished_intros]:
  assumes "unpublished c" shows "unpublished (nested_async c)"
proof -
  let ?c = "co_bind c (\<lambda>x. co_bind (co_await (\<lambda>t. (Inr (), t))) (\<lambda>_. co_return x))"
  have c: "unpublished ?c" by (intro unpublished_intros unpublished_await assms) simp
  have "unpublished (\<lambda>lp (k0, t0). case ?c lp (k0, t0) of
        (Inr x, \<sigma>) \<Rightarrow> (Inr x, \<sigma>)
      | (Inl e, k1, t1) \<Rightarrow> (Inl e, k1, fold (lp_others lp) [k0..<k1] t0))"
    unfolding unpublished_def
  proof (intro allI impI)
    fix env intr k t r k' t'
    assume run: "(case (k, t) of (k0, t0) \<Rightarrow> case ?c (session_loop env intr) (k0, t0) of
        (Inr x, \<sigma>) \<Rightarrow> (Inr x, \<sigma>)
      | (Inl e, k1, t1) \<Rightarrow> (Inl e, k1, fold (lp_others (session_loop env intr)) [k0..<k1] t0)) =
      (r, k', t')"
    obtain r1 k1 t1 where c1: "?c (session_loop env intr) (k, t) = (r1, k1, t1)" by (metis surj_pair)
    note p = unpublishedD [OF c c1]
    show "k \<le> k' \<and> committed t' = others_in env k k' (committed t) \<and> delivered t' = delivered t"
      using run c1 p
      by (cases r1) (auto simp: session_loop_def fold_sees others_in_def)
  qed
  then show ?thesis
    unfolding nested_async_def by (intro unpublished_bind unpublished_await) auto
qed

lemma unpublished_except [unpublished_intros]:
  assumes "unpublished c" and "\<And>e. unpublished (h e)" shows "unpublished (co_except p c h)"
  unfolding unpublished_def
proof (intro allI impI)
  fix env intr k t r k' t'
  assume run: "co_except p c h (session_loop env intr) (k, t) = (r, k', t')"
  obtain r1 k1 t1 where c: "c (session_loop env intr) (k, t) = (r1, k1, t1)" by (metis surj_pair)
  note p1 = unpublishedD [OF assms(1) c]
  show "k \<le> k' \<and> committed t' = others_in env k k' (committed t) \<and> delivered t' = delivered t"
  proof (cases "\<exists>e. r1 = Inl e \<and> p e")
    case True
    then obtain e where "h e (session_loop env intr) (k1, t1) = (r, k', t')"
      using run c by (auto simp: co_except_def)
    note p2 = unpublishedD [OF assms(2) this]
    show ?thesis using p1 p2 by (auto simp: others_in_trans)
  next
    case False
    then show ?thesis using run c p1 by (cases r1) (auto simp: co_except_def)
  qed
qed

lemma unpublished_create [unpublished_intros]: "unpublished (create_task_async is_pg st new_id clk rq)"
  unfolding create_task_async_def Let_def
  by (auto intro!: unpublished_intros unpublished_await split: sum.split prod.split)

lemma unpublished_create_or_get [unpublished_intros]:
  "unpublished (create_or_get_task_async is_pg st new_id clk rq)"
  unfolding create_or_get_task_async_def Let_def
  by (auto intro!: unpublished_intros split: sum.split prod.split option.split)

lemma sees_alone [simp]: "sees (\<lambda>db. db) t = t"
  by (simp add: sees_def)

lemma create_task_async_alone:
  "\<exists>n. create_task_async is_pg st new_id clk rq (session_loop alone (\<lambda>_. None)) (k, t) =
     (case create_task is_pg st new_id clk rq t of
        Inl e \<Rightarrow> (Inl e, k + n, t) | Inr (row, t') \<Rightarrow> (Inr row, k + n, t'))"
proof (cases "check_request rq")
  case (Inl e)
  then show ?thesis by (intro exI [of _ 0]) (simp add: create_task_async_def create_task_def co_raise_def)
next
  case check: (Inr c)
  show ?thesis
  proof (cases "encode_request rq")
    case (Inl e)
    then show ?thesis
      using check by (intro exI [of _ 0]) (simp add: create_task_async_def create_task_def co_raise_def Let_def)
  next
    case (Inr js)
    then obtain xs kvs where enc: "encode_request rq = Inr (xs, kvs)" by (cases js) auto
    let ?row = "new_row new_id clk (resolve_policy st (rq_task_type rq)) rq xs kvs"
    show ?thesis
    proof (cases "insert_row ?row (working t)")
      case (Inl e)
      then show ?thesis
        using check enc
        by (intro exI [of _ 1])
          (simp add: create_task_async_def create_task_def co_bind_def co_await_def Let_def)
    next
      case (Inr db)
      then show ?thesis
        using check enc
        by (intro exI [of _ "if is_pg then 2 else 1"])
          (simp add: create_task_async_def create_task_def co_bind_def co_await_def co_return_def
            Let_def notify_work_available_async_def notify_work_available_def)
    qed
  qed
qed

lemma fold_sees_alone: "fold (lp_others (session_loop alone intr)) ks t = t"
  by (induction ks) simp_all

lemma create_or_get_task_async_alone:
  assumes "or_default '''' (rq_idempotency_key rq) \<noteq> ''''"
  shows "\<exists>n. create_or_get_task_async is_pg st new_id clk rq (session_loop alone (\<lambda>_. None)) (k, t) =
     (fst (create_or_get_task is_pg st new_id clk (\<lambda>db. db) rq t), k + n,
      snd (create_or_get_task is_pg st new_id clk (\<lambda>db. db) rq t))"
proof (cases "check_request rq")
  case (Inl e)
  then show ?thesis
    using assms by (intro exI [of _ 0])
      (simp add: create_or_get_task_async_def create_or_get_task_def co_raise_def)
next
  case check: (Inr c)
  show ?thesis
  proof (cases "encode_request rq")
    case (Inl e)
    then show ?thesis
      using check assms by (intro exI [of _ 0])
        (simp add: create_or_get_task_async_def create_or_get_task_def co_raise_def Let_def)
  next
    case (Inr js)
    then obtain xs kvs where enc: "encode_request rq = Inr (xs, kvs)" by (cases js) auto
    let ?policy = "resolve_policy st (rq_task_type rq)"
    let ?rq = "rq\<lparr>rq_queue := Some (or_default (p_queue ?policy) (rq_queue rq)),
       rq_priority := Some (or_default (p_priority ?policy) (rq_priority rq)),
       rq_max_attempts := Some (or_default (p_max_attempts ?policy) (rq_max_attempts rq))\<rparr>"
    let ?lp = "session_loop alone (\<lambda>_. None)"
    obtain n where n: "create_task_async is_pg st new_id clk ?rq ?lp (Suc k, t) =
       (case create_task is_pg st new_id clk ?rq t of
          Inl e \<Rightarrow> (Inl e, Suc k + n, t) | Inr (row, t') \<Rightarrow> (Inr row, Suc k + n, t'))"
      using create_task_async_alone by blast
    show ?thesis
    proof (cases "create_task is_pg st new_id clk ?rq t")
      case (Inr rt)
      then show ?thesis
        using check enc assms n
        by (intro exI [of _ "n + 2"])
          (auto simp: create_or_get_task_async_def create_or_get_task_def co_except_def Let_def
            nested_async_def nested_def co_bind_def co_await_def co_return_def split: prod.splits)
    next
      case exc: (Inl exc)
      have nested: "nested_async (create_task_async is_pg st new_id clk ?rq) ?lp (k, t) =
          (Inl exc, Suc k + n, t)"
        using n exc
        by (simp add: nested_async_def co_bind_def co_await_def Let_def fold_sees_alone)
      show ?thesis
      proof (cases "isinstance exc [IntegrityErrorC]")
        case False
        then show ?thesis
          using check enc assms exc nested
          by (intro exI [of _ "Suc n"])
            (simp add: create_or_get_task_async_def create_or_get_task_def co_except_def Let_def nested_def)
      next
        case True
        then show ?thesis
          using check enc assms exc nested
          by (intro exI [of _ "n + 2"])
            (simp add: create_or_get_task_async_def create_or_get_task_def co_except_def Let_def
              nested_def co_bind_def co_return_def co_raise_def split: option.split sum.split)
      qed
    qed
  qed
qed

end
