(* ===== verification/Async_Dispatch.thy ===== *)
theory Async_Dispatch
  imports Async_Sweep Sa_Dispatch
begin

text \<open>
  \<open>AsyncSQLAlchemyDispatchBackend\<close> of \<open>src/dewey/sqlalchemy/dispatch.py\<close>: every operation opens
  a session, awaits its statements one by one, and commits.  Each is shown to be a unit of work
  whose body is the synchronous operation.
\<close>

definition async_backend_init ::
    "string \<Rightarrow> string \<Rightarrow> datetime \<Rightarrow> string list option \<Rightarrow> int \<Rightarrow> int \<Rightarrow> nat \<Rightarrow> string option
     \<Rightarrow> backend" where
  "async_backend_init dialect uuid now queues stuck timeout limit identity =
     \<lparr>b_queues = (case queues of None \<Rightarrow> None | Some qs \<Rightarrow> if qs = [] then None else Some qs),
      b_stuck_threshold_minutes = stuck, b_dispatch_timeout_seconds = timeout,
      b_sweep_limit = limit, b_postgresql = (dialect = ''postgresql''), b_instance_id = uuid,
      b_database_identity =
        (case identity of
           None \<Rightarrow> ''sqlalchemy:'' @ dialect
         | Some s \<Rightarrow> if s = [] then ''sqlalchemy:'' @ dialect else s),
      b_started_at = now\<rparr>"

definition claim_async ::
    "backend \<Rightarrow> clock \<Rightarrow> (nat \<Rightarrow> string \<Rightarrow> bool) \<Rightarrow> nat \<Rightarrow> (transaction, string list) coro" where
  "claim_async b clk locked limit =
     (let now = clk 0 in
      session_scope (
        co_bind (select_async (\<lambda>db. take limit (map row_id
            (filter (expiry_candidate b now (locked 0)) db)))) (\<lambda>expired_ids.
        co_bind (if expired_ids = [] then co_return []
                 else update_async (\<lambda>r. row_id r \<in> set expired_ids)
                   (\<lambda>r. r\<lparr>status := EXPIRED, expired_at := Some now, dispatching_at := None,
                          updated_at := clk 1\<rparr>)) (\<lambda>_.
        co_bind (select_async (select_ids (claim_candidate b now (locked 1)) claim_order limit))
          (\<lambda>task_ids.
        if task_ids = [] then co_bind commit_async (\<lambda>_. co_return [])
        else
          co_bind (update_async
              (\<lambda>r. row_id r \<in> set task_ids \<and> status r \<in> {PENDING, FAILED})
              (\<lambda>r. r\<lparr>status := DISPATCHING, dispatching_at := Some now, updated_at := clk 2\<rparr>))
            (\<lambda>claimed.
          co_bind commit_async (\<lambda>_.
          co_return (filter (\<lambda>i. i \<in> row_id ` set claimed) task_ids))))))))"

definition next_due_async :: "backend \<Rightarrow> datetime \<Rightarrow> (transaction, datetime option) coro" where
  "next_due_async b now =
     session_scope (
       co_bind (select_async (\<lambda>db.
         let wakes = List.map_filter wake_at
            (filter (\<lambda>r. scheduled_for r \<noteq> None \<and>
                         (status r = PENDING \<or>
                          (status r = FAILED \<and> attempts r < max_attempts r)) \<and>
                         in_queues (b_queues b) r) db)
         in if wakes = [] then None else Some (Min (set wakes)))) (\<lambda>due_at.
       co_bind (co_await (\<lambda>t. (Inr (), rollback t))) (\<lambda>_.
       co_return (case due_at of None \<Rightarrow> None | Some t \<Rightarrow> Some (if t \<ge> now then t else now)))))"

definition release_async :: "clock \<Rightarrow> string list \<Rightarrow> (transaction, unit) coro" where
  "release_async clk task_ids =
     (if task_ids = [] then co_return ()
      else session_scope (
        co_bind (update_async (\<lambda>r. row_id r \<in> set task_ids \<and> status r = DISPATCHING)
            (\<lambda>r. r\<lparr>status := PENDING, dispatching_at := None, updated_at := clk 0\<rparr>)) (\<lambda>_.
        co_bind commit_async (\<lambda>_. co_return ()))))"

definition run_sweep_async ::
    "backend \<Rightarrow> (nat \<Rightarrow> clock) \<Rightarrow> (string \<Rightarrow> bool) \<Rightarrow> (transaction, sweep_result) coro" where
  "run_sweep_async b clk locked =
     session_scope (
       co_bind (sweep_async (b_postgresql b) clk locked (b_stuck_threshold_minutes b)
                  (b_dispatch_timeout_seconds b) (b_sweep_limit b)) (\<lambda>result.
       co_bind commit_async (\<lambda>_. co_return result)))"

text \<open>
  The heartbeat works on the other table: the state is what is committed of it and what the
  session sees.  \<open>session.get\<close>, the \<open>DELETE\<close> (which flushes the pending row first) and the commit
  are the awaits.
\<close>

definition heartbeat_async :: "string \<Rightarrow> backend \<Rightarrow> datetime \<Rightarrow> (heartbeats \<times> heartbeats, unit) coro" where
  "heartbeat_async version b now =
     (let cutoff = now - default_heartbeat_retention_days * day in
      co_finally (
        co_bind (co_await (\<lambda>s. (Inr (find (\<lambda>h. hb_instance_id h = b_instance_id b) (snd s)), s)))
          (\<lambda>row.
        co_bind (co_await (\<lambda>s.
          let rows = (case row of
                None \<Rightarrow> snd s @
                  [\<lparr>hb_instance_id = b_instance_id b, hb_version = version,
                    hb_backend = ''sqlalchemy-async'', hb_database = b_database_identity b,
                    hb_queues = b_queues b, hb_started_at = b_started_at b,
                    hb_last_seen_at = now\<rparr>]
              | Some h \<Rightarrow> update_where (\<lambda>h'. hb_instance_id h' = hb_instance_id h)
                           (\<lambda>h'. h'\<lparr>hb_last_seen_at := now\<rparr>) (snd s))
          in (Inr (), (fst s, prune_heartbeats cutoff rows)))) (\<lambda>_.
        co_await (\<lambda>s. (Inr (), (snd s, snd s))))))
      (\<lambda>s. (fst s, fst s)))"

section \<open>The operations as units of work\<close>

definition claim_body ::
    "backend \<Rightarrow> clock \<Rightarrow> (nat \<Rightarrow> string \<Rightarrow> bool) \<Rightarrow> nat \<Rightarrow> (transaction, string list) coro" where
  "claim_body b clk locked limit =
     co_bind (select_async (select_expired b (clk 0) (locked 0) limit)) (\<lambda>expired_ids.
     co_bind (if expired_ids = [] then co_return []
              else update_async (\<lambda>r. row_id r \<in> set expired_ids)
                (\<lambda>r. r\<lparr>status := EXPIRED, expired_at := Some (clk 0), dispatching_at := None,
                       updated_at := clk 1\<rparr>)) (\<lambda>_.
     co_bind (select_async (select_ids (claim_candidate b (clk 0) (locked 1)) claim_order limit))
       (\<lambda>task_ids.
     if task_ids = [] then co_return []
     else
       co_bind (update_async
           (\<lambda>r. row_id r \<in> set task_ids \<and> status r \<in> {PENDING, FAILED})
           (\<lambda>r. r\<lparr>status := DISPATCHING, dispatching_at := Some (clk 0), updated_at := clk 2\<rparr>))
         (\<lambda>claimed. co_return (filter (\<lambda>i. i \<in> row_id ` set claimed) task_ids)))))"

lemma claim_async_unit: "claim_async b clk locked limit = unit_of_work (claim_body b clk locked limit)"
proof -
  have "select_expired b now l limit = (\<lambda>db. take limit (map row_id (filter (expiry_candidate b now l) db)))"
    for now l by (simp add: select_expired_def fun_eq_iff)
  then show ?thesis
    by (simp add: claim_async_def unit_of_work_def claim_body_def Let_def co_bind_assoc co_bind_if
        cong: if_cong)
qed

lemma release_async_unit:
  "task_ids \<noteq> [] \<Longrightarrow> release_async clk task_ids =
     unit_of_work (co_bind (update_async (\<lambda>r. row_id r \<in> set task_ids \<and> status r = DISPATCHING)
       (\<lambda>r. r\<lparr>status := PENDING, dispatching_at := None, updated_at := clk 0\<rparr>)) (\<lambda>_. co_return ()))"
  by (simp add: release_async_def unit_of_work_def co_bind_assoc)

lemma run_sweep_async_unit:
  "run_sweep_async b clk locked = unit_of_work (sweep_async (b_postgresql b) clk locked
     (b_stuck_threshold_minutes b) (b_dispatch_timeout_seconds b) (b_sweep_limit b))"
  by (simp add: run_sweep_async_def unit_of_work_def)

lemma claim_body_rules:
  "unpublished (claim_body b clk locked limit)" "strict (claim_body b clk locked limit)"
  by (auto simp: claim_body_def intro!: unpublished_intros strict_intros)

text \<open>What the others do at the statements of the synchronous claim, from what they do at the awaits.\<close>

definition claim_env :: "others \<Rightarrow> nat \<Rightarrow> bool \<Rightarrow> others" where
  "claim_env env k expiring i =
     (if i = 0 then env k
      else if expiring then env (k + i)
      else if i = 1 then (\<lambda>db. db) else env (k + i - 1))"

lemma claim_by_view:
  "claim b clk locked env limit db =
     (let v = claim_view b clk locked env limit db; ids = candidates b clk locked limit v;
          Q = (\<lambda>r. row_id r \<in> set ids \<and> status r \<in> {PENDING, FAILED});
          f = (\<lambda>r. r\<lparr>status := DISPATCHING, dispatching_at := Some (clk 0), updated_at := clk 2\<rparr>)
      in if ids = [] then ([], v)
         else (filter (\<lambda>i. i \<in> row_id ` set (map f (filter Q (env 3 v)))) ids,
               update_where Q f (env 3 v)))"
  by (simp add: claim_def claim_view_def Let_def update_returning_def)

lemma claim_body_calm:
  "\<exists>env' n. (\<forall>i. env' i = (\<lambda>db. db) \<or> env' i \<in> range env) \<and>
     claim_body b clk locked limit (session_loop env (\<lambda>_. None)) (k, t) =
       (Inr (fst (claim b clk locked env' limit (working t))), k + n,
        t\<lparr>committed := others_in env k (k + n) (committed t),
          working := snd (claim b clk locked env' limit (working t))\<rparr>)"
proof -
  define x where "x = select_expired b (clk 0) (locked 0) limit (env k (working t))"
  define e where "e = claim_env env k (x \<noteq> [])"
  define v where "v = claim_view b clk locked e limit (working t)"
  have range: "\<forall>i. e i = (\<lambda>db. db) \<or> e i \<in> range env" by (auto simp: e_def claim_env_def)
  have e0: "e 0 = env k" by (simp add: e_def claim_env_def)
  have v_eq: "v = e 2 (expire_rows (clk 0) (clk 1) x (e 1 (env k (working t))))"
    by (simp only: v_def claim_view_def e0 x_def)
  note claim = claim_by_view [of b clk locked e limit "working t", folded v_def]
  note defs = claim_body_def co_bind_def co_return_def sees_def others_in_def eval_nat_numeral
    x_def [symmetric]
  show ?thesis
  proof (cases "x = []")
    case True
    have "e 1 = (\<lambda>db. db)" and "e 2 = env (Suc k)" and e: "e 3 = env (Suc (Suc k))"
      using True by (simp_all add: e_def claim_env_def eval_nat_numeral)
    then have v: "env (Suc k) (env k (working t)) = v" by (simp add: v_eq True expire_rows_def)
    have "claim_body b clk locked limit (session_loop env (\<lambda>_. None)) (k, t) =
       (Inr (fst (claim b clk locked e limit (working t))), k + n,
        t\<lparr>committed := others_in env k (k + n) (committed t),
          working := snd (claim b clk locked e limit (working t))\<rparr>)"
      if "n = (if candidates b clk locked limit v = [] then 2 else 3)" for n
      unfolding claim Let_def that e
      by (cases "candidates b clk locked limit v = []") (simp_all add: defs True v)
    with range show ?thesis by blast
  next
    case False
    have "e 1 = env (Suc k)" and "e 2 = env (Suc (Suc k))" and e: "e 3 = env (Suc (Suc (Suc k)))"
      using False by (simp_all add: e_def claim_env_def eval_nat_numeral)
    then have v: "env (Suc (Suc k)) (update_where (\<lambda>r. row_id r \<in> set x) (\<lambda>r. r\<lparr>status := EXPIRED,
        expired_at := Some (clk 0), dispatching_at := None, updated_at := clk 1\<rparr>)
        (env (Suc k) (env k (working t)))) = v"
      using False by (simp add: v_eq expire_rows_def)
    have "claim_body b clk locked limit (session_loop env (\<lambda>_. None)) (k, t) =
       (Inr (fst (claim b clk locked e limit (working t))), k + n,
        t\<lparr>committed := others_in env k (k + n) (committed t),
          working := snd (claim b clk locked e limit (working t))\<rparr>)"
      if "n = (if candidates b clk locked limit v = [] then 3 else 4)" for n
      unfolding claim Let_def that e
      by (cases "candidates b clk locked limit v = []") (simp_all add: defs False v [unfolded One_nat_def])
    with range show ?thesis by blast
  qed
qed

end
