(* ===== verification/Async_Queries.thy ===== *)
theory Async_Queries
  imports Async_Sweep Sa_Queries "HOL-Library.AList"
begin

text \<open>
  \<open>src/dewey/sqlalchemy/async_queries.py\<close>: the read queries and the operator actions as coroutines.
  A query is one await; an action reads at one and writes at a later one.
\<close>

section \<open>Queries\<close>

definition async_to_dataclass :: "task_row \<Rightarrow> task_entry" where
  "async_to_dataclass row =
     \<lparr>e_id = row_id row, e_task_type = task_type row, e_status = status row, e_args = args row,
      e_kwargs = kwargs row, e_queue = queue row, e_priority = priority row,
      e_attempts = attempts row, e_max_attempts = max_attempts row, e_error = error row,
      e_created_at = created_at row, e_updated_at = updated_at row,
      e_scheduled_for = scheduled_for row, e_dispatching_at = dispatching_at row,
      e_started_at = started_at row, e_completed_at = completed_at row,
      e_idempotency_key = idempotency_key row, e_metadata = task_metadata row,
      e_expires_at = expires_at row, e_initial_scheduled_for = initial_scheduled_for row,
      e_expired_at = expired_at row\<rparr>"

definition async_to_list :: "task_row list \<Rightarrow> task_entry list" where
  "async_to_list rows = map async_to_dataclass rows"

definition get_dispatchers_async ::
    "string option \<Rightarrow> string list option \<Rightarrow> pyfloat \<Rightarrow> datetime
     \<Rightarrow> (heartbeats, heartbeat_row list) coro" where
  "get_dispatchers_async database queues fresh_within_seconds observed_at =
     (case seconds_before observed_at fresh_within_seconds of
        Inl e \<Rightarrow> co_raise e
      | Inr cutoff \<Rightarrow>
          co_bind (co_await (\<lambda>rows.
              (Inr (sort_key (\<lambda>h. - hb_last_seen_at h)
                 (filter (\<lambda>h. hb_last_seen_at h \<ge> cutoff \<and>
                              (case database of None \<Rightarrow> True | Some d \<Rightarrow> hb_database h = d)) rows)),
               rows))) (\<lambda>found.
          let requested = (case queues of None \<Rightarrow> None | Some qs \<Rightarrow> if qs = [] then None else Some qs)
          in co_return (filter (\<lambda>h. serves h requested) found)))"

text \<open>\<open>SELECT status, count(*) GROUP BY status\<close> gives the statuses that occur.\<close>

definition get_stats_async :: "(transaction, (string \<times> nat) list) coro" where
  "get_stats_async =
     co_bind (select_async (\<lambda>db.
         map (\<lambda>s. (status_value s, length (filter (\<lambda>r. status r = s) db)))
           (filter (\<lambda>s. \<exists>r \<in> set db. status r = s) all_statuses))) (\<lambda>groups.
     co_return (fold (\<lambda>sc stats. AList.update (fst sc) (snd sc) stats) groups
                  (map (\<lambda>s. (status_value s, 0)) all_statuses)))"

definition get_pending_async :: "nat \<Rightarrow> string option \<Rightarrow> (transaction, task_entry list) coro" where
  "get_pending_async limit ty =
     co_bind (select_async (\<lambda>db. order_limit created_at limit
         (filter (\<lambda>r. status r = PENDING \<and> of_type ty r) db))) (\<lambda>rows.
     co_return (async_to_list rows))"

definition get_processing_async :: "nat \<Rightarrow> (transaction, task_entry list) coro" where
  "get_processing_async limit =
     co_bind (select_async (\<lambda>db. order_limit (\<lambda>r. nulls_last (started_at r)) limit
         (filter (\<lambda>r. status r = PROCESSING) db))) (\<lambda>rows.
     co_return (async_to_list rows))"

definition get_dispatching_async :: "nat \<Rightarrow> (transaction, task_entry list) coro" where
  "get_dispatching_async limit =
     co_bind (select_async (\<lambda>db. order_limit (\<lambda>r. nulls_last (dispatching_at r)) limit
         (filter (\<lambda>r. status r = DISPATCHING) db))) (\<lambda>rows.
     co_return (async_to_list rows))"

definition get_stuck_async :: "datetime \<Rightarrow> int \<Rightarrow> (transaction, task_entry list) coro" where
  "get_stuck_async now older_than_minutes =
     (let threshold = now - older_than_minutes * minute in
      co_bind (select_async (\<lambda>db. sort_key (\<lambda>r. nulls_last (started_at r))
          (filter (\<lambda>r. status r = PROCESSING \<and> sql_lt (started_at r) threshold) db))) (\<lambda>rows.
      co_return (async_to_list rows)))"

definition get_failed_async :: "nat \<Rightarrow> string option \<Rightarrow> (transaction, task_entry list) coro" where
  "get_failed_async limit ty =
     co_bind (select_async (\<lambda>db. order_limit (\<lambda>r. - created_at r) limit
         (filter (\<lambda>r. status r = FAILED \<and> of_type ty r) db))) (\<lambda>rows.
     co_return (async_to_list rows))"

definition get_dead_async :: "nat \<Rightarrow> string option \<Rightarrow> (transaction, task_entry list) coro" where
  "get_dead_async limit ty =
     co_bind (select_async (\<lambda>db. order_limit (\<lambda>r. - created_at r) limit
         (filter (\<lambda>r. status r = DEAD \<and> of_type ty r) db))) (\<lambda>rows.
     co_return (async_to_list rows))"

definition get_expired_async :: "nat \<Rightarrow> string option \<Rightarrow> (transaction, task_entry list) coro" where
  "get_expired_async limit ty =
     co_bind (select_async (\<lambda>db. order_limit (\<lambda>r. desc_nulls_first (expired_at r)) limit
         (filter (\<lambda>r. status r = EXPIRED \<and> of_type ty r) db))) (\<lambda>rows.
     co_return (async_to_list rows))"

definition get_task_async :: "string \<Rightarrow> (transaction, task_entry option) coro" where
  "get_task_async task_id =
     co_bind (select_async (find_row task_id)) (\<lambda>row.
     co_return (case row of None \<Rightarrow> None | Some r \<Rightarrow> Some (async_to_dataclass r)))"

definition get_recent_async ::
    "nat \<Rightarrow> string option \<Rightarrow> task_status option \<Rightarrow> datetime option
     \<Rightarrow> (transaction, task_entry list) coro" where
  "get_recent_async limit ty st since =
     co_bind (select_async (\<lambda>db. order_limit (\<lambda>r. - created_at r) limit
         (filter (\<lambda>r. of_type ty r \<and> (case st of None \<Rightarrow> True | Some s \<Rightarrow> status r = s) \<and>
                      (case since of None \<Rightarrow> True | Some t \<Rightarrow> created_at r \<ge> t)) db))) (\<lambda>rows.
     co_return (async_to_list rows))"

section \<open>Actions\<close>

text \<open>\<open>session.flush()\<close> with the changed columns of one row's object.\<close>

definition flush_row :: "string \<Rightarrow> (task_row \<Rightarrow> task_row) \<Rightarrow> (transaction, unit) coro" where
  "flush_row task_id f =
     co_await (\<lambda>t. (Inr (), t\<lparr>working := set_row task_id f (working t)\<rparr>))"

definition retry_task_async ::
    "bool \<Rightarrow> clock \<Rightarrow> string \<Rightarrow> (transaction, task_entry option) coro" where
  "retry_task_async is_pg clk task_id =
     co_bind (select_async (find_row task_id)) (\<lambda>found.
     case found of
       None \<Rightarrow> co_return None
     | Some task \<Rightarrow>
         if status task = EXPIRED then co_return None
         else if \<not> can_transition_to (status task) PENDING
         then co_return (Some (async_to_dataclass task))
         else
           let set_pending = (\<lambda>r. r\<lparr>status := PENDING, scheduled_for := None, error := '''',
                                    attempts := 0, updated_at := clk 0\<rparr>) in
           co_bind (flush_row task_id set_pending) (\<lambda>_.
           co_bind (notify_work_available_async is_pg
                      (task_notification (row_id task) (queue task))) (\<lambda>_.
           co_return (Some (async_to_dataclass (set_pending task))))))"

definition bulk_retry_async ::
    "bool \<Rightarrow> clock \<Rightarrow> string option \<Rightarrow> task_status \<Rightarrow> (transaction, nat) coro" where
  "bulk_retry_async is_pg clk ty st =
     (if \<not> can_transition_to st PENDING
      then co_raise (py_exn ValueErrorC (''Cannot retry tasks in '' @ status_value st @ '' state''))
      else
        co_bind (select_async (filter (\<lambda>r. status r = st \<and> of_type ty r))) (\<lambda>rows.
        co_bind (update_async (\<lambda>r. status r = st \<and> of_type ty r)
            (\<lambda>r. r\<lparr>status := PENDING, scheduled_for := None, error := '''', attempts := 0,
                   updated_at := clk 0\<rparr>)) (\<lambda>updated.
        co_bind flush_async (\<lambda>_.
        co_bind (notify_rows_async is_pg rows) (\<lambda>_.
        co_return (length updated))))))"

definition kill_task_async :: "clock \<Rightarrow> string \<Rightarrow> (transaction, task_entry option) coro" where
  "kill_task_async clk task_id =
     co_bind (select_async (find_row task_id)) (\<lambda>found.
     case found of
       None \<Rightarrow> co_return None
     | Some task \<Rightarrow>
         if \<not> can_transition_to (status task) DEAD then co_return (Some (async_to_dataclass task))
         else
           let set_dead = (\<lambda>r. r\<lparr>status := DEAD, updated_at := clk 0\<rparr>) in
           co_bind (flush_row task_id set_dead) (\<lambda>_.
           co_return (Some (async_to_dataclass (set_dead task)))))"

definition purge_completed_async :: "datetime \<Rightarrow> int \<Rightarrow> string option \<Rightarrow> (transaction, nat) coro" where
  "purge_completed_async now older_than_days ty =
     (let threshold = now - older_than_days * day;
          old = (\<lambda>r. status r = COMPLETED \<and> sql_lt (completed_at r) threshold \<and> of_type ty r) in
      co_bind (co_await (\<lambda>t. (Inr (length (filter old (working t))),
                              t\<lparr>working := delete_where old (working t)\<rparr>))) (\<lambda>n.
      co_bind flush_async (\<lambda>_. co_return n)))"

section \<open>Facts\<close>

lemma async_to_dataclass [simp]: "async_to_dataclass = to_dataclass"
  by (simp add: fun_eq_iff async_to_dataclass_def to_dataclass_def)

lemma async_to_list [simp]: "async_to_list rows = map to_dataclass rows"
  by (simp add: async_to_list_def)

text \<open>Filling a dictionary of zeros with the counts of the groups gives every count.\<close>

lemma fold_update_map:
  assumes "inj f" and "distinct ks" and "distinct js" and "set js \<subseteq> set ks"
  shows "fold (\<lambda>sc d. AList.update (fst sc) (snd sc) d) (map (\<lambda>s. (f s, g s)) js) (map (\<lambda>s. (f s, h s)) ks)
    = map (\<lambda>s. (f s, if s \<in> set js then g s else h s)) ks"
  using assms(3,4)
proof (induction js arbitrary: h)
  case Nil
  then show ?case by simp
next
  case (Cons j js)
  have "AList.update (f j) (g j) (map (\<lambda>s. (f s, h s)) ls) = map (\<lambda>s. (f s, if s = j then g s else h s)) ls"
    if "j \<in> set ls" and "distinct ls" for ls
    using that assms(1) by (induction ls) (auto simp: inj_eq)
  then have "AList.update (f j) (g j) (map (\<lambda>s. (f s, h s)) ks) =
      map (\<lambda>s. (f s, (\<lambda>s. if s = j then g s else h s) s)) ks"
    using Cons.prems assms(2) by simp
  then show ?case
    using Cons.IH [of "\<lambda>s. if s = j then g s else h s"] Cons.prems by (auto intro!: map_cong)
qed

lemma inj_status_value: "inj status_value"
proof (rule injI)
  fix s t assume "status_value s = status_value t"
  then show "s = t" by (cases s; cases t) simp_all
qed

lemma stats_fold:
  "fold (\<lambda>sc stats. AList.update (fst sc) (snd sc) stats)
     (map (\<lambda>s. (status_value s, length (filter (\<lambda>r. status r = s) db)))
        (filter (\<lambda>s. \<exists>r \<in> set db. status r = s) all_statuses))
     (map (\<lambda>s. (status_value s, 0)) all_statuses) = get_stats db"
proof -
  have d: "distinct all_statuses" by (simp add: all_statuses_def)
  have "(if s \<in> set (filter (\<lambda>s. \<exists>r \<in> set db. status r = s) all_statuses)
         then length (filter (\<lambda>r. status r = s) db) else 0) = length (filter (\<lambda>r. status r = s) db)"
    if "s \<in> set all_statuses" for s
    using that by (auto simp: filter_empty_conv)
  then show ?thesis
    using fold_update_map [OF inj_status_value d, of "filter (\<lambda>s. \<exists>r \<in> set db. status r = s) all_statuses"
        "\<lambda>s. length (filter (\<lambda>r. status r = s) db)" "\<lambda>_. 0"] d
    by (auto simp: get_stats_def intro!: map_cong)
qed

lemma run_flush_row [simp]:
  "flush_row i f (session_loop env (\<lambda>_. None)) (k, t) =
     (Inr (), Suc k, (sees (env k) t)\<lparr>working := set_row i f (env k (working t))\<rparr>)"
  by (simp add: flush_row_def co_await_def Let_def)

end
