(* ===== verification/Async_Properties.thy ===== *)
theory Async_Properties
  imports Async_Executor Async_Dispatch Async_Queries Claim_Properties
begin

text \<open>
  Properties of the asyncio integration: every operation is the synchronous one, and an interrupt
  at any await, a cancellation or an error of the driver, leaves what the operation would have left
  before one of its commits or after it.
\<close>

section \<open>Claims and sweeps\<close>

lemma begin_queued: "queued (begin_transaction db sent) = []"
  by simp

text \<open>
  C10. An asynchronous claim is all or nothing.  Whatever the others commit at its awaits, and
  wherever it is cancelled or the driver fails: either it raised, and the table holds the others'
  commits only; or the table is the one the synchronous claim leaves when the others act at its
  statements, and the value, if there is one, is what that claim returns.  When nothing interrupts
  it there is one.
\<close>

theorem claim_async_all_or_nothing:
  assumes run: "claim_async b clk locked limit (session_loop env intr)
      (0, begin_transaction db sent) = (r, k, t)"
  shows "(\<exists>e. r = Inl e \<and> intr \<noteq> (\<lambda>_. None) \<and> committed t = others_in env 0 k db \<and> delivered t = sent) \<or>
    (\<exists>env' m. (\<forall>i. env' i = (\<lambda>db. db) \<or> env' i \<in> range env) \<and>
       committed t = env m (snd (claim b clk locked env' limit db)) \<and> delivered t = sent \<and>
       (r = Inr (fst (claim b clk locked env' limit db)) \<or> (\<exists>e. r = Inl e \<and> intr \<noteq> (\<lambda>_. None))))"
proof -
  let ?body = "claim_body b clk locked limit" and ?t = "begin_transaction db sent"
  obtain env' n where env': "\<forall>i. env' i = (\<lambda>db. db) \<or> env' i \<in> range env"
    and calm: "?body (session_loop env (\<lambda>_. None)) (0, ?t) =
      (Inr (fst (claim b clk locked env' limit db)), n,
       ?t\<lparr>committed := others_in env 0 n db, working := snd (claim b clk locked env' limit db)\<rparr>)"
    using claim_body_calm [of env b clk locked limit 0 ?t] by auto
  from unit_of_work_outcome [OF claim_body_rules calm run [unfolded claim_async_unit]] env'
  show ?thesis
    by (elim disjE) (auto simp del: fun_upd_apply intro!: exI [of _ env'])
qed

text \<open>Cancelled at the commit, the fifth await, the claim leaves the table as it was.\<close>

theorem claim_async_all_or_nothing_witness:
  "let x = claim_async sample_backend sample_clock (\<lambda>_ _. False) 2
       (session_loop alone (\<lambda>k. if k = 4 then Some (False, cancelled_error) else None))
       (0, begin_transaction sample_backlog [])
   in fst x = Inl cancelled_error \<and> committed (snd (snd x)) = sample_backlog"
proof -
  let ?lp = "session_loop alone (\<lambda>k. if k = 4 then Some (False, cancelled_error) else None)"
  let ?x = "claim_async sample_backend sample_clock (\<lambda>_ _. False) 2 ?lp
      (0, begin_transaction sample_backlog [])"
  have e1: "fst ?x = Inl cancelled_error" by code_simp
  have e2: "map status (committed (snd (snd ?x))) = map status sample_backlog" by code_simp
  obtain r k t where run: "?x = (r, k, t)" by (metis surj_pair)
  have r: "r = Inl cancelled_error" and st: "map status (committed t) = map status sample_backlog"
    using e1 e2 unfolding run by simp_all
  have claimed: "map status (snd (claim sample_backend sample_clock (\<lambda>_ _. False) alone 2 sample_backlog))
      \<noteq> map status sample_backlog" by code_simp
  have "committed t = sample_backlog"
    using claim_async_all_or_nothing [OF run]
  proof (elim disjE exE conjE)
    fix e assume "committed t = others_in alone 0 k sample_backlog"
    then show ?thesis by simp
  next
    fix env' :: others and m
    assume "\<forall>i. env' i = (\<lambda>db. db) \<or> env' i \<in> range alone"
      and "committed t = snd (claim sample_backend sample_clock (\<lambda>_ _. False) env' 2 sample_backlog)"
    moreover from this have "env' = alone" by auto
    ultimately show ?thesis using claimed st by simp
  next
    fix env' :: others and m
    assume "\<forall>i. env' i = (\<lambda>db. db) \<or> env' i \<in> range alone"
      and "committed t = snd (claim sample_backend sample_clock (\<lambda>_ _. False) env' 2 sample_backlog)"
    moreover from this have "env' = alone" by auto
    ultimately show ?thesis using claimed st by simp
  qed
  with r run show ?thesis by simp
qed

text \<open>
  The asynchronous recovery sweep is one unit as well: interrupted anywhere it published
  nothing, or it published what the four synchronous passes do when the others act at their
  statements, with their notifications, each exactly once; and it reports exactly what those passes
  report.
\<close>

lemma sweep_async_all_or_nothing:
  assumes run: "run_sweep_async b clk locked (session_loop env intr)
      (0, begin_transaction db sent) = (r, k, t)"
  shows "(\<exists>e. r = Inl e \<and> intr \<noteq> (\<lambda>_. None) \<and> committed t = others_in env 0 k db \<and> delivered t = sent) \<or>
    (\<exists>env' g. (\<forall>i j. woven env (env' i j)) \<and> woven env g \<and>
       (let (result, db', sent') = run_sweep b clk locked env' db sent
        in committed t = g db' \<and> delivered t = sent' \<and>
           (r = Inr result \<or> (\<exists>e. r = Inl e \<and> intr \<noteq> (\<lambda>_. None)))))"
proof -
  let ?t = "begin_transaction db sent"
  let ?s = "\<lambda>env'. sweep (b_postgresql b) clk locked env' (b_stuck_threshold_minutes b)
      (b_dispatch_timeout_seconds b) (b_sweep_limit b) ?t"
  let ?body = "sweep_async (b_postgresql b) clk locked (b_stuck_threshold_minutes b)
      (b_dispatch_timeout_seconds b) (b_sweep_limit b)"
  obtain n env' g where env': "\<forall>i j. woven env (env' i j)" "woven env g"
    and both: "let (x, t1) = ?s env'
      in ?body (session_loop env (\<lambda>_. None)) (0, ?t) =
        (Inr x, 0 + n, t1\<lparr>committed := others_in env 0 (0 + n) (committed ?t),
                           working := g (working t1)\<rparr>)"
    using sweep_async_mirrors [of env "b_postgresql b" clk locked "b_stuck_threshold_minutes b"
        "b_dispatch_timeout_seconds b" "b_sweep_limit b" ?t 0] by blast
  obtain x t1 where s: "?s env' = (x, t1)" by (metis surj_pair)
  have calm: "?body (session_loop env (\<lambda>_. None)) (0, ?t) =
      (Inr x, n, t1\<lparr>committed := others_in env 0 n db, working := g (working t1)\<rparr>)"
    using both by (simp add: s)
  have rules: "unpublished ?body" "strict ?body"
    by (rule unpublished_sweep_async, rule strict_sweep_async)
  have out: "run_sweep b clk locked env' db sent = (x, working t1, delivered t1 @ queued t1)"
    by (simp add: run_sweep_def s commit_def)
  have "woven env (\<lambda>db. env n (g db))" by (rule woven_comp [OF woven_one env'(2)])
  with unit_of_work_outcome [OF rules calm run [unfolded run_sweep_async_unit]] env' out
  show ?thesis by (elim disjE) (auto intro!: exI [of _ env'])
qed

section \<open>Workers\<close>

text \<open>What is asked of the others while a worker runs: they keep the table's constraints, and leave
  the worker's row alone between its \<open>SELECT ... FOR UPDATE\<close> and its commit.  At the first await and
  while the handler runs they may do anything to it.\<close>

definition cooperative :: "string \<Rightarrow> others \<Rightarrow> bool" where
  "cooperative i env \<longleftrightarrow>
     (\<forall>k db. ledger_wf db \<longrightarrow> ledger_wf (env k db)) \<and> spares i (env 1) \<and> (\<forall>k \<ge> 3. spares i (env k))"

lemma woven_wf: "woven env g \<Longrightarrow> cooperative i env \<Longrightarrow> ledger_wf db \<Longrightarrow> ledger_wf (g db)"
proof -
  have "ledger_wf (fold env ks db)" if "cooperative i env" and "ledger_wf db" for ks
    using that by (induction ks arbitrary: db) (auto simp: cooperative_def)
  then show "woven env g \<Longrightarrow> cooperative i env \<Longrightarrow> ledger_wf db \<Longrightarrow> ledger_wf (g db)"
    by (auto simp: woven_def)
qed

lemma run_handler_async_count:
  assumes "run_handler_async call handler c (worker_loop env intr) (k, t, v) = (r, k', t', v')"
  shows "k \<le> k'"
  using assms
  by (auto simp: run_handler_async_def co_raise_def co_await_def Let_def
      split: sum.splits option.splits prod.splits)

text \<open>The two phases, started on a table in order.\<close>

lemma claim_phase:
  assumes "ledger_wf db" and "cooperative i env"
    and "process_claim_async st clk i (worker_loop env intr) (0, begin_transaction db sent, v) =
      (r, k, t, v')"
  shows "clean t \<and> v' = v \<and> (\<exists>g. woven env g \<and>
    ((\<exists>x. r = Inr x \<and> process_claim st clk i (g db) = (x, committed t)) \<or>
     (\<exists>e. r = Inl e \<and> intr \<noteq> (\<lambda>_. None) \<and>
        committed t \<in> {g db, snd (process_claim st clk i (g db))})))"
proof -
  have 1: "spares i (env (Suc 0))" and 2: "ledger_wf (env (Suc 0) (env 0 db))"
    using assms(1,2) by (simp_all add: cooperative_def)
  have "publishes env (intr \<noteq> (\<lambda>_. None)) (\<lambda>db. map_prod Inr id (process_claim st clk i db))
      (begin_transaction db sent) r t \<and> v' = v"
    using process_claim_async_publishes [OF _ 1 _ assms(3)] 2 by simp
  then obtain g where g: "woven env g" "clean t" "v' = v"
    and out: "(r, committed t) = map_prod Inr id (process_claim st clk i (g db)) \<or>
      intr \<noteq> (\<lambda>_. None) \<and> (\<exists>e. r = Inl e) \<and>
      committed t \<in> {g db, snd (process_claim st clk i (g db))}"
    unfolding publishes_def begin_simps snd_map_prod
    by (elim conjE exE) (rule that, assumption, intro conjI, assumption+, simp add: id_def)
  obtain x db1 where pc: "process_claim st clk i (g db) = (x, db1)" by (metis surj_pair)
  have "(\<exists>x. r = Inr x \<and> process_claim st clk i (g db) = (x, committed t)) \<or>
     (\<exists>e. r = Inl e \<and> intr \<noteq> (\<lambda>_. None) \<and>
        committed t \<in> {g db, snd (process_claim st clk i (g db))})"
    using out unfolding pc by (elim disjE conjE exE) simp_all
  with g show ?thesis by blast
qed

lemma finish_phase:
  assumes "cooperative i env" and "2 \<le> k" and "clean t"
    and "process_finish_async fn u clk backoff i c raised (worker_loop env intr) (k, t, v) = (r, k', t', v')"
  shows "clean t' \<and> (\<exists>g. woven env g \<and>
    ((r, committed t') = process_finish fn u clk backoff i c raised (g (committed t)) \<or>
     (\<exists>e. r = Inl e \<and> intr \<noteq> (\<lambda>_. None) \<and> committed t' \<in>
        {g (committed t), snd (process_finish fn u clk backoff i c raised (g (committed t)))})))"
proof -
  have "spares i (env (Suc k))" using assms(1,2) by (simp add: cooperative_def)
  from process_finish_async_publishes [OF assms(3) this assms(4)] show ?thesis
    unfolding publishes_def by blast
qed

text \<open>
  What a run leaves, for any interrupts: \<open>g db\<close> is the table the claim worked on, \<open>e db1\<close> the one
  the finish worked on.
\<close>

definition worker_outcome ::
    "('h, 'f) policy_state \<Rightarrow> ('f \<Rightarrow> int \<Rightarrow> backoff_value result) \<Rightarrow> rat \<Rightarrow> (nat \<Rightarrow> clock)
     \<Rightarrow> (int \<Rightarrow> timedelta result) option \<Rightarrow> string \<Rightarrow> others \<Rightarrow> ledger \<Rightarrow> bool result \<Rightarrow> ledger \<Rightarrow> bool" where
  "worker_outcome st fn u clk backoff i env db r db' \<longleftrightarrow>
     (\<exists>g e. woven env g \<and> woven env e \<and>
        (let (claimed, db1) = process_claim st (clk 0) i (g db) in
         (db' = g db \<and> r \<noteq> Inr True) \<or>
         (db' = e db1 \<and> r \<noteq> Inr True) \<or>
         (\<exists>c raised. claimed = Some c \<and>
            (r, db') = process_finish fn u (clk 1) backoff i c raised (e db1)) \<or>
         (\<exists>c raised. claimed = Some c \<and> (\<exists>ex. r = Inl ex) \<and>
            db' = snd (process_finish fn u (clk 1) backoff i c raised (e db1)))))"

text \<open>
  C15. A worker is crash-safe.  Wherever \<open>process_task_async\<close> is interrupted, by a cancellation or an
  error of the driver, the table it leaves is the one it found, or the one with the row claimed, or
  the one with the row finished, up to what others committed meanwhile: no phase is ever half
  published.  It answers \<open>True\<close> only for a run whose finish was published, nothing is left
  uncommitted, and the caller's trace context is back.
\<close>

theorem async_worker_crash_safe:
  assumes wf: "ledger_wf db" and co: "cooperative i env"
    and run: "process_task_async call st fn u clk handler backoff i (worker_loop env intr)
      (0, begin_transaction db sent, var) = (r, k, t, var')"
  shows "worker_outcome st fn u clk backoff i env db r (committed t) \<and>
    working t = committed t \<and> queued t = [] \<and> var' = var"
  using run
proof (cases rule: process_task_async_cases)
  case (no_claim rc)
  then obtain g where "clean t" "var' = var" "woven env g"
    and "committed t = g db \<or> committed t = snd (process_claim st (clk 0) i (g db))"
    using claim_phase [OF wf co no_claim(1)] by fastforce
  moreover have "r \<noteq> Inr True" using no_claim(2) by auto
  ultimately show ?thesis
    unfolding worker_outcome_def Let_def split_def
    by (intro conjI exI [of _ g] exI [of _ "\<lambda>db. db"]) auto
next
  case (escaped c k1 t1 v1 w e v2)
  then obtain g where 1: "clean t1" "v1 = var" "woven env g"
    and claimed: "process_claim st (clk 0) i (g db) = (Some c, committed t1)"
    using claim_phase [OF wf co escaped(1)] by auto
  obtain h where "woven env h" "clean t" "committed t = h (committed t1)"
    using run_handler_async_cases [OF escaped(3) 1(1)] by auto
  then show ?thesis
    using escaped(5,6) 1 claimed unfolding worker_outcome_def Let_def split_def
    by (intro conjI exI [of _ g] exI [of _ h]) auto
next
  case (finished c k1 t1 v1 w rh k2 t2 v2 v3)
  let ?p = "process_finish fn u (clk 1) backoff i c (case rh of Inl e \<Rightarrow> Some e | Inr _ \<Rightarrow> None)"
  obtain g where 1: "clean t1" "v1 = var" "woven env g"
    and claimed: "process_claim st (clk 0) i (g db) = (Some c, committed t1)"
    using claim_phase [OF wf co finished(1)] by auto
  obtain h where h: "woven env h" "clean t2" "committed t2 = h (committed t1)"
    using run_handler_async_cases [OF finished(3) 1(1)] by auto
  have "2 \<le> k2"
    using process_claim_async_awaits [OF finished(1)] run_handler_async_count [OF finished(3)] by simp
  from finish_phase [OF co this h(2) finished(5)] obtain g2 where "clean t" and g2: "woven env g2"
    and fin: "(r, committed t) = ?p (g2 (h (committed t1))) \<or>
      (\<exists>e. r = Inl e) \<and> committed t \<in> {g2 (h (committed t1)), snd (?p (g2 (h (committed t1))))}"
    unfolding h(3) by blast
  have "woven env (\<lambda>db. g2 (h db))" by (rule woven_comp [OF g2 h(1)])
  then have "worker_outcome st fn u clk backoff i env db r (committed t)"
    using fin 1 claimed unfolding worker_outcome_def Let_def split_def
    by (intro exI [of _ g] exI [of _ "\<lambda>db. g2 (h db)"]) auto
  then show ?thesis using 1 \<open>clean t\<close> finished(6) by simp
qed

lemma cooperative_alone: "cooperative i alone"
  by (simp add: cooperative_def)

text \<open>A worker cancelled in its handler: the row stays claimed, for the stuck sweep.\<close>

theorem async_worker_crash_safe_witness:
  "let x = process_task_async quiet_call no_policy no_backoff_fn 0 (\<lambda>n k. 1000 * int n) (Some 7) None
       ''a'' (worker_loop alone (\<lambda>k. if k = 2 then Some (True, cancelled_error) else None))
       (0, begin_transaction [sample_row ''a'' PENDING] [], Some [(''who'', JInt 3)])
   in fst x = Inl cancelled_error \<and> map status (committed (fst (snd (snd x)))) = [PROCESSING] \<and>
      snd (snd (snd x)) = Some [(''who'', JInt 3)] \<and>
      worker_outcome no_policy no_backoff_fn 0 (\<lambda>n k. 1000 * int n) None ''a'' alone
        [sample_row ''a'' PENDING] (fst x) (committed (fst (snd (snd x))))"
proof -
  let ?x = "process_task_async quiet_call no_policy no_backoff_fn 0 (\<lambda>n k. 1000 * int n) (Some 7) None
       ''a'' (worker_loop alone (\<lambda>k. if k = 2 then Some (True, cancelled_error) else None))
       (0, begin_transaction [sample_row ''a'' PENDING] [], Some [(''who'', JInt 3)])"
  have 1: "fst ?x = Inl cancelled_error" by code_simp
  have 2: "map status (committed (fst (snd (snd ?x)))) = [PROCESSING]" by code_simp
  have wf: "ledger_wf [sample_row ''a'' PENDING]" by (simp add: ledger_wf_def)
  obtain r k t var where x: "?x = (r, k, t, var)" by (metis surj_pair)
  from async_worker_crash_safe [OF wf cooperative_alone x] 1 2 show ?thesis
    unfolding Let_def x by simp
qed

text \<open>A run whose handler ended, normally or with an \<open>Exception\<close>, is the synchronous run.\<close>

lemma worker_finished_refines:
  assumes wf: "ledger_wf db" and co: "cooperative i env"
    and claim: "process_claim_async st (clk 0) i (worker_loop env (\<lambda>_. None))
      (0, begin_transaction db sent, var) = (Inr (Some c), k1, t1, v1)"
    and trace: "set_trace_context (Some (extract_trace_context (Some (c_metadata c)))) v1 = (v1, w)"
    and handler: "run_handler_async call handler c (worker_loop env (\<lambda>_. None)) (k1, t1, w) = (rh, k2, t2, v2)"
    and caught: "\<forall>e. rh = Inl e \<longrightarrow> isinstance e [ExceptionC]"
    and finish: "process_finish_async fn u (clk 1) backoff i c (case rh of Inl e \<Rightarrow> Some e | Inr _ \<Rightarrow> None)
      (worker_loop env (\<lambda>_. None)) (k2, t2, v2) = (r, k, t, v3)"
  shows "\<exists>g e. woven env g \<and> woven env e \<and>
    process_task call st fn u clk e handler backoff i (g db, var) = (r, committed t, v1)"
proof -
  let ?raised = "case rh of Inl e \<Rightarrow> Some e | Inr _ \<Rightarrow> None"
  obtain g where 1: "clean t1" "v1 = var" "woven env g"
    and claimed: "process_claim st (clk 0) i (g db) = (Some c, committed t1)"
    using claim_phase [OF wf co claim] by auto
  obtain h where h: "woven env h" "clean t2" "committed t2 = h (committed t1)"
    and hd: "run_handler call handler c w = (?raised, v2)"
    using run_handler_async_cases [OF handler 1(1)] by auto
  have "2 \<le> k2"
    using process_claim_async_awaits [OF claim] run_handler_async_count [OF handler] by simp
  from finish_phase [OF co this h(2) finish] obtain g2 where g2: "woven env g2"
    and fin: "process_finish fn u (clk 1) backoff i c ?raised (g2 (h (committed t1))) = (r, committed t)"
    unfolding h(3) by auto
  have "woven env (\<lambda>db. g2 (h db))" by (rule woven_comp [OF g2 h(1)])
  moreover have "set_trace_context (Some (extract_trace_context (Some (c_metadata c)))) var = (var, w)"
    using trace 1(2) by simp
  then have "process_task call st fn u clk (\<lambda>db. g2 (h db)) handler backoff i (g db, var) =
      (r, committed t, v1)"
    using caught 1(2) claimed hd fin
    by (cases rh) (simp_all add: process_task_def reset_trace_context_def)
  ultimately show ?thesis using 1(3) by blast
qed

text \<open>
  Uninterrupted, the asynchronous worker is the synchronous one.  For whatever cooperating others
  do, \<open>process_task_async\<close> returns what \<open>process_task\<close> returns on the table as the others left it
  (\<open>g db\<close>), with what they did while the handler ran (\<open>e\<close>), raises what it raises, and leaves the
  same table and the same trace context.
\<close>

lemma async_worker_refines:
  assumes wf: "ledger_wf db" and co: "cooperative i env"
  shows "\<exists>g e k t. woven env g \<and> woven env e \<and>
    (let (res, db', var') = process_task call st fn u clk e handler backoff i (g db, var)
     in process_task_async call st fn u clk handler backoff i (worker_loop env (\<lambda>_. None))
          (0, begin_transaction db sent, var) = (res, k, t, var') \<and> committed t = db')"
proof -
  obtain r k t var' where run: "process_task_async call st fn u clk handler backoff i
      (worker_loop env (\<lambda>_. None)) (0, begin_transaction db sent, var) = (r, k, t, var')"
    by (metis surj_pair)
  have "\<exists>g e. woven env g \<and> woven env e \<and>
      process_task call st fn u clk e handler backoff i (g db, var) = (r, committed t, var')"
    using run
  proof (cases rule: process_task_async_cases)
    case (no_claim rc)
    then obtain g where "woven env g" "r = Inr False" "var' = var"
      "process_claim st (clk 0) i (g db) = (None, committed t)"
      using claim_phase [OF wf co no_claim(1)] by auto
    then show ?thesis
      by (intro exI [of _ g] exI [of _ "\<lambda>db. db"]) (simp add: process_task_def)
  next
    case (escaped c k1 t1 v1 w e v2)
    then obtain g where 1: "clean t1" "v1 = var" "woven env g"
      and claimed: "process_claim st (clk 0) i (g db) = (Some c, committed t1)"
      using claim_phase [OF wf co escaped(1)] by auto
    obtain h where h: "woven env h" "committed t = h (committed t1)"
      and "run_handler call handler c w = (Some e, v2)"
      using run_handler_async_cases [OF escaped(3) 1(1)] by auto
    moreover have "set_trace_context (Some (extract_trace_context (Some (c_metadata c)))) var = (var, w)"
      using escaped(2) 1(2) by simp
    ultimately have "process_task call st fn u clk h handler backoff i (g db, var) =
        (r, committed t, var')"
      using escaped(4-6) 1(2) claimed by (simp add: process_task_def reset_trace_context_def)
    with 1(3) h(1) show ?thesis by blast
  next
    case (finished c k1 t1 v1 w rh k2 t2 v2 v3)
    show ?thesis
      unfolding finished(6)
      by (rule worker_finished_refines [OF wf co finished(1) _ finished(3,4,5)])
        (use finished(2) in simp)
  qed
  then show ?thesis using run by force
qed

section \<open>Producers\<close>

text \<open>
  The asynchronous producers publish nothing themselves and otherwise are the synchronous ones.
  Wherever they are interrupted, also inside the savepoint of \<open>create_or_get_task_async\<close>, the
  committed table holds the others' commits only and no notification is out: the new task appears
  with the caller's commit or not at all.  Undisturbed they return or raise what \<open>create_task\<close> and
  \<open>create_or_get_task\<close> do and leave the caller's transaction as those do.
\<close>

lemma async_producers:
  assumes key: "or_default '''' (rq_idempotency_key rq) \<noteq> ''''"
  shows "(\<forall>env intr r k t'.
      create_task_async is_pg st new_id clk rq (session_loop env intr) (0, t) = (r, k, t') \<or>
      create_or_get_task_async is_pg st new_id clk rq (session_loop env intr) (0, t) = (r, k, t') \<longrightarrow>
      committed t' = others_in env 0 k (committed t) \<and> delivered t' = delivered t) \<and>
    (\<exists>k. create_task_async is_pg st new_id clk rq (session_loop alone (\<lambda>_. None)) (0, t) =
      (case create_task is_pg st new_id clk rq t of
         Inl e \<Rightarrow> (Inl e, k, t) | Inr (row, t') \<Rightarrow> (Inr row, k, t'))) \<and>
    (\<exists>k. create_or_get_task_async is_pg st new_id clk rq (session_loop alone (\<lambda>_. None)) (0, t) =
      (fst (create_or_get_task is_pg st new_id clk (\<lambda>db. db) rq t), k,
       snd (create_or_get_task is_pg st new_id clk (\<lambda>db. db) rq t)))"
proof (intro conjI allI impI)
  show "\<exists>k. create_task_async is_pg st new_id clk rq (session_loop alone (\<lambda>_. None)) (0, t) =
      (case create_task is_pg st new_id clk rq t of
         Inl e \<Rightarrow> (Inl e, k, t) | Inr (row, t') \<Rightarrow> (Inr row, k, t'))"
    using create_task_async_alone [of is_pg st new_id clk rq 0 t] unfolding add_0 .
  show "\<exists>k. create_or_get_task_async is_pg st new_id clk rq (session_loop alone (\<lambda>_. None)) (0, t) =
      (fst (create_or_get_task is_pg st new_id clk (\<lambda>db. db) rq t), k,
       snd (create_or_get_task is_pg st new_id clk (\<lambda>db. db) rq t))"
    using create_or_get_task_async_alone [OF key, of is_pg st new_id clk 0 t] unfolding add_0 .
qed (auto dest: unpublishedD(2,3) [OF unpublished_create] unpublishedD(2,3) [OF unpublished_create_or_get])

section \<open>Queries and actions\<close>

lemma notify_rows_alone:
  "\<exists>n. notify_rows_async is_pg rows (session_loop alone (\<lambda>_. None)) (k, t) =
     (Inr (), k + n, t\<lparr>queued := notify_rows is_pg rows (queued t)\<rparr>)"
  using notify_rows_calm [of is_pg rows alone k t] by simp

lemma notify_alone:
  "\<exists>b n. notify_work_available_async is_pg x (session_loop alone (\<lambda>_. None)) (k, t) =
     (Inr b, k + n, t\<lparr>queued := notify_work_available is_pg x (queued t)\<rparr>)"
  by (cases is_pg) (auto simp: notify_work_available_async_def notify_work_available_def co_bind_def
      co_await_def co_return_def Let_def)

lemma retry_task_async_alone:
  "\<exists>j. retry_task_async is_pg clk i (session_loop alone (\<lambda>_. None)) (0, t) =
     (Inr (fst (retry_task is_pg clk i t)), j, snd (retry_task is_pg clk i t))"
proof (cases "find_row i (working t)")
  case None
  then show ?thesis
    by (simp add: retry_task_async_def retry_task_def co_bind_def co_return_def)
next
  case (Some task)
  let ?f = "\<lambda>r. r\<lparr>status := PENDING, scheduled_for := None, error := '''', attempts := 0,
    updated_at := clk 0\<rparr>"
  obtain b n where "notify_work_available_async is_pg (task_notification (row_id task) (queue task))
      (session_loop alone (\<lambda>_. None)) (Suc (Suc 0), t\<lparr>working := set_row i ?f (working t)\<rparr>) =
    (Inr b, Suc (Suc 0) + n, t\<lparr>working := set_row i ?f (working t), queued := notify_work_available is_pg
       (task_notification (row_id task) (queue task)) (queued t)\<rparr>)"
    using notify_alone [of is_pg "task_notification (row_id task) (queue task)" "Suc (Suc 0)"
        "t\<lparr>working := set_row i ?f (working t)\<rparr>"] by auto
  then show ?thesis
    using Some
    by (simp add: retry_task_async_def retry_task_def co_bind_def co_return_def Let_def)
qed

lemma bulk_retry_async_alone:
  "\<exists>k. bulk_retry_async is_pg clk ty st (session_loop alone (\<lambda>_. None)) (0, t) =
     (case bulk_retry is_pg clk alone ty st t of
        Inl e \<Rightarrow> (Inl e, k, t) | Inr (n, t') \<Rightarrow> (Inr n, k, t'))"
proof (cases "can_transition_to st PENDING")
  case False
  then show ?thesis
    by (simp add: bulk_retry_async_def bulk_retry_def co_raise_def)
next
  case True
  let ?P = "\<lambda>r. status r = st \<and> of_type ty r"
  let ?f = "\<lambda>r. r\<lparr>status := PENDING, scheduled_for := None, error := '''', attempts := 0, updated_at := clk 0\<rparr>"
  obtain n where "notify_rows_async is_pg (filter ?P (working t)) (session_loop alone (\<lambda>_. None))
      (3, t\<lparr>working := update_where ?P ?f (working t)\<rparr>) =
     (Inr (), 3 + n, t\<lparr>working := update_where ?P ?f (working t),
        queued := notify_rows is_pg (filter ?P (working t)) (queued t)\<rparr>)"
    using notify_rows_alone [of is_pg "filter ?P (working t)" 3 "t\<lparr>working := update_where ?P ?f (working t)\<rparr>"]
    by auto
  then show ?thesis
    using True
    by (intro exI [of _ "3 + n"])
      (simp add: bulk_retry_async_def bulk_retry_def co_bind_def co_return_def update_returning_def
        Let_def numeral_3_eq_3)
qed

text \<open>
  The asynchronous queries and operator actions are the synchronous ones: every query returns what
  its twin returns on the table as the others left it at its await, the statistics filled from the
  groups that occur included; and every action returns or raises what its twin does and leaves the
  caller's transaction, with its notifications, as that does.
\<close>

lemma async_queries_agree:
  fixes env :: others and k :: nat and t :: transaction
  defines "lp \<equiv> session_loop env (\<lambda>_. None)" and "db \<equiv> env k (working t)"
    and "quiet \<equiv> session_loop alone (\<lambda>_. None)"
  shows "get_stats_async lp (k, t) = (Inr (get_stats db), Suc k, sees (env k) t) \<and>
    get_pending_async n ty lp (k, t) = (Inr (get_pending n ty db), Suc k, sees (env k) t) \<and>
    get_processing_async n lp (k, t) = (Inr (get_processing n db), Suc k, sees (env k) t) \<and>
    get_dispatching_async n lp (k, t) = (Inr (get_dispatching n db), Suc k, sees (env k) t) \<and>
    get_stuck_async now m lp (k, t) = (Inr (get_stuck now m db), Suc k, sees (env k) t) \<and>
    get_failed_async n ty lp (k, t) = (Inr (get_failed n ty db), Suc k, sees (env k) t) \<and>
    get_dead_async n ty lp (k, t) = (Inr (get_dead n ty db), Suc k, sees (env k) t) \<and>
    get_expired_async n ty lp (k, t) = (Inr (get_expired n ty db), Suc k, sees (env k) t) \<and>
    get_task_async i lp (k, t) = (Inr (get_task i db), Suc k, sees (env k) t) \<and>
    get_recent_async n ty st since lp (k, t) = (Inr (get_recent n ty st since db), Suc k, sees (env k) t) \<and>
    (\<exists>j. retry_task_async is_pg clk i quiet (0, t) =
       (Inr (fst (retry_task is_pg clk i t)), j, snd (retry_task is_pg clk i t))) \<and>
    (\<exists>j. kill_task_async clk i quiet (0, t) =
       (Inr (fst (kill_task clk i t)), j, snd (kill_task clk i t))) \<and>
    (\<exists>j. purge_completed_async now m ty quiet (0, t) =
       (Inr (fst (purge_completed now m ty t)), j, snd (purge_completed now m ty t))) \<and>
    (\<exists>j. bulk_retry_async is_pg clk ty from quiet (0, t) =
       (case bulk_retry is_pg clk alone ty from t of
          Inl e \<Rightarrow> (Inl e, j, t) | Inr (count, t') \<Rightarrow> (Inr count, j, t')))"
proof (intro conjI, goal_cases)
  case 11
  show ?case using retry_task_async_alone unfolding quiet_def .
next
  case 12
  show ?case
    by (cases "find_row i (working t)")
      (simp_all add: quiet_def kill_task_async_def kill_task_def co_bind_def co_return_def Let_def)
next
  case 13
  show ?case
    by (simp add: quiet_def purge_completed_async_def purge_completed_def co_bind_def co_await_def
        co_return_def Let_def)
next
  case 14
  show ?case using bulk_retry_async_alone unfolding quiet_def .
next
  case 1
  show ?case
    by (simp add: lp_def db_def get_stats_async_def co_bind_def co_return_def stats_fold)
qed (simp_all add: lp_def db_def co_bind_def co_return_def select_entries_def
    get_pending_async_def get_pending_def get_processing_async_def get_processing_def
    get_dispatching_async_def get_dispatching_def get_stuck_async_def get_stuck_def
    get_failed_async_def get_failed_def get_dead_async_def get_dead_def get_expired_async_def
    get_expired_def get_task_async_def get_task_def get_recent_async_def get_recent_def Let_def
    split: option.split)

end
