(* ===== verification/Async_Dispatcher.thy ===== *)
theory Async_Dispatcher
  imports Async_Runtime Dispatcher
begin

text \<open>
  \<open>AsyncDispatcher\<close> of \<open>src/dewey/dispatcher.py\<close> as coroutines over the dispatcher object and what is
  outside it, and the proof that it is \<open>Dispatcher\<close> over the awaited calls.

  A backend operation is one await; what it does inside is its own business.  \<open>dispatch_fn\<close> may be
  a plain function or return an awaitable.
\<close>

datatype 's call_result = Raised exn | Plain | Awaitable "'s \<Rightarrow> unit result \<times> 's"

record 's async_io =
  aop_claim :: "nat \<Rightarrow> 's \<Rightarrow> string list result \<times> 's"
  aop_release :: "string list \<Rightarrow> 's \<Rightarrow> unit result \<times> 's"
  aop_run_sweep :: "'s \<Rightarrow> sweep_result result \<times> 's"
  aop_heartbeat :: "('s \<Rightarrow> unit result \<times> 's) option"
  aop_next_due :: "('s \<Rightarrow> datetime option result \<times> 's) option"
  aop_wait_for_work :: "rat \<Rightarrow> 's \<Rightarrow> bool result \<times> 's"
  aop_close :: "'s \<Rightarrow> unit result \<times> 's"
  aop_dispatch_fn :: "string \<Rightarrow> 's \<Rightarrow> 's call_result \<times> 's"
  aop_monotonic :: "'s \<Rightarrow> rat \<times> 's"
  aop_wall_clock :: "'s \<Rightarrow> datetime \<times> 's"
  aop_wait_stop :: "rat \<Rightarrow> 's \<Rightarrow> unit result \<times> 's"
  aop_stop_is_set :: "'s \<Rightarrow> bool"

section \<open>Steps of the object\<close>

definition on_world :: "('s \<Rightarrow> 'a result \<times> 's) \<Rightarrow> dispatcher \<times> 's \<Rightarrow> 'a result \<times> dispatcher \<times> 's" where
  "on_world f s = (let (r, w) = f (snd s) in (r, fst s, w))"

abbreviation await_world :: "('s \<Rightarrow> 'a result \<times> 's) \<Rightarrow> (dispatcher \<times> 's, 'a) coro" where
  "await_world f \<equiv> co_await (on_world f)"

definition this :: "(dispatcher \<times> 's, dispatcher) coro" where
  "this = co_local (\<lambda>s. (Inr (fst s), s))"

definition assign :: "(dispatcher \<Rightarrow> dispatcher) \<Rightarrow> (dispatcher \<times> 's, unit) coro" where
  "assign f = co_local (\<lambda>s. (Inr (), (f (fst s), snd s)))"

definition read_clock :: "('s \<Rightarrow> 'a \<times> 's) \<Rightarrow> (dispatcher \<times> 's, 'a) coro" where
  "read_clock f = co_local (on_world (\<lambda>w. let (t, w') = f w in (Inr t, w')))"

definition async_dispatcher_init ::
    "int \<Rightarrow> rat \<Rightarrow> rat option \<Rightarrow> rat \<Rightarrow> rat \<Rightarrow> rat \<Rightarrow> rat \<Rightarrow> dispatcher result" where
  "async_dispatcher_init n idle sweep_interval base cap db_cap heartbeat_interval =
     (if n < 1 then Inl (py_exn ValueErrorC ''batch_size must be >= 1'')
      else Inr \<lparr>batch_size = nat n, idle_poll_seconds = idle,
                health = backoff_init base cap, db_health = backoff_init base db_cap,
                d_sweep_clock = \<lparr>sc_interval = sweep_interval, sc_last = None\<rparr>,
                d_heartbeat_clock = \<lparr>sc_interval = Some heartbeat_interval, sc_last = None\<rparr>,
                pending_release = []\<rparr>)"

definition async_db_failure :: "'s async_io \<Rightarrow> (dispatcher \<times> 's, unit) coro" where
  "async_db_failure io =
     co_bind (read_clock (aop_monotonic io)) (\<lambda>now.
     assign (\<lambda>d. d\<lparr>db_health := note_failure now (db_health d)\<rparr>))"

definition async_release_quietly :: "'s async_io \<Rightarrow> string list \<Rightarrow> (dispatcher \<times> 's, unit) coro" where
  "async_release_quietly io task_ids =
     co_except caught (await_world (aop_release io task_ids)) (\<lambda>_.
       co_bind (assign (\<lambda>d. d\<lparr>pending_release := fromkeys (pending_release d @ task_ids)\<rparr>)) (\<lambda>_.
       async_db_failure io))"

definition async_retry_pending_release :: "'s async_io \<Rightarrow> (dispatcher \<times> 's, bool) coro" where
  "async_retry_pending_release io =
     co_bind this (\<lambda>d.
     if pending_release d = [] then co_return True
     else
       let task_ids = pending_release d in
       co_bind (assign (\<lambda>d. d\<lparr>pending_release := []\<rparr>)) (\<lambda>_.
       co_bind (co_except caught
                  (co_bind (await_world (aop_release io task_ids)) (\<lambda>_. co_return True))
                  (\<lambda>_. co_bind (assign (\<lambda>d. d\<lparr>pending_release := task_ids\<rparr>)) (\<lambda>_.
                       co_bind (async_db_failure io) (\<lambda>_. co_return False)))) (\<lambda>released.
       if released
       then co_bind (assign (\<lambda>d. d\<lparr>db_health := note_success (db_health d)\<rparr>)) (\<lambda>_. co_return True)
       else co_return False)))"

text \<open>\<open>result = self.dispatch_fn(task_id); if inspect.isawaitable(result): await result\<close>\<close>

definition call_dispatch_fn :: "'s async_io \<Rightarrow> string \<Rightarrow> (dispatcher \<times> 's, unit) coro" where
  "call_dispatch_fn io task_id =
     co_bind (read_clock (aop_dispatch_fn io task_id)) (\<lambda>result.
     case result of
       Raised e \<Rightarrow> co_raise e
     | Plain \<Rightarrow> co_return ()
     | Awaitable f \<Rightarrow> await_world f)"

fun async_send_ids :: "'s async_io \<Rightarrow> string list \<Rightarrow> nat \<Rightarrow> (dispatcher \<times> 's, nat option) coro" where
  "async_send_ids io [] index = co_return None"
| "async_send_ids io (task_id # ids) index =
     co_bind (co_except caught
                (co_bind (call_dispatch_fn io task_id) (\<lambda>_. co_return True))
                (\<lambda>_. co_return False)) (\<lambda>sent.
     if sent then async_send_ids io ids (Suc index) else co_return (Some index))"

definition async_dispatch_batch :: "'s async_io \<Rightarrow> (dispatcher \<times> 's, nat) coro" where
  "async_dispatch_batch io =
     co_bind this (\<lambda>d.
     co_bind (await_world (aop_claim io (batch_size d))) (\<lambda>task_ids.
     if task_ids = []
     then co_bind (assign (\<lambda>d. d\<lparr>health := note_success (health d)\<rparr>)) (\<lambda>_. co_return 0)
     else
       co_bind (async_send_ids io task_ids 0) (\<lambda>failed.
       case failed of
         None \<Rightarrow>
           co_bind (assign (\<lambda>d. d\<lparr>health := note_success (health d)\<rparr>)) (\<lambda>_.
           co_return (length task_ids))
       | Some index \<Rightarrow>
           co_bind (async_release_quietly io (drop index task_ids)) (\<lambda>_.
           co_bind (read_clock (aop_monotonic io)) (\<lambda>now.
           co_bind (assign (\<lambda>d. d\<lparr>health := note_failure now (health d)\<rparr>)) (\<lambda>_.
           co_return index))))))"

text \<open>\<open>due()\<close> of the two clocks, with the clock's update.\<close>

definition async_due ::
    "'s async_io \<Rightarrow> (dispatcher \<Rightarrow> sweep_clock) \<Rightarrow> (sweep_clock \<Rightarrow> dispatcher \<Rightarrow> dispatcher)
     \<Rightarrow> (dispatcher \<times> 's, bool) coro" where
  "async_due io clock put =
     co_bind this (\<lambda>d.
     case sc_interval (clock d) of
       None \<Rightarrow> co_return False
     | Some _ \<Rightarrow>
         co_bind (read_clock (aop_monotonic io)) (\<lambda>now.
         let (due, c) = clock_due now (clock d) in
         co_bind (assign (put c)) (\<lambda>_. co_return due)))"

definition async_maybe_sweep :: "'s async_io \<Rightarrow> (dispatcher \<times> 's, sweep_result option) coro" where
  "async_maybe_sweep io =
     co_bind (async_due io d_sweep_clock (\<lambda>c d. d\<lparr>d_sweep_clock := c\<rparr>)) (\<lambda>due.
     if \<not> due then co_return None
     else co_except caught
            (co_bind (await_world (aop_run_sweep io)) (\<lambda>result. co_return (Some result)))
            (\<lambda>_. co_return None))"

definition async_maybe_heartbeat :: "'s async_io \<Rightarrow> (dispatcher \<times> 's, bool) coro" where
  "async_maybe_heartbeat io =
     co_bind (async_due io d_heartbeat_clock (\<lambda>c d. d\<lparr>d_heartbeat_clock := c\<rparr>)) (\<lambda>due.
     if \<not> due then co_return False
     else case aop_heartbeat io of
            None \<Rightarrow> co_return False
          | Some heartbeat \<Rightarrow>
              co_except caught (co_bind (await_world heartbeat) (\<lambda>_. co_return True))
                (\<lambda>_. co_return False))"

section \<open>The loop\<close>

definition async_try_body :: "'s async_io \<Rightarrow> bool \<Rightarrow> (dispatcher \<times> 's, nat \<times> rat) coro" where
  "async_try_body io release_ready =
     co_bind (async_maybe_heartbeat io) (\<lambda>_.
     co_bind (async_maybe_sweep io) (\<lambda>_.
     co_bind (if \<not> release_ready then co_return 0 else async_dispatch_batch io) (\<lambda>dispatched.
     co_bind (case aop_next_due io of None \<Rightarrow> co_return None | Some f \<Rightarrow> await_world f) (\<lambda>due.
     co_bind (read_clock (aop_wall_clock io)) (\<lambda>now.
     co_bind this (\<lambda>d.
     co_return (dispatched, bounded_wait (idle_poll_seconds d) due now)))))))"

definition is_cancelled :: "exn \<Rightarrow> bool" where
  "is_cancelled e = isinstance e [exn_class cancelled_error]"

text \<open>\<open>except CancelledError: raise\<close>, then \<open>except Exception\<close>, then \<open>else\<close>.\<close>

definition async_guarded_body :: "'s async_io \<Rightarrow> bool \<Rightarrow> (dispatcher \<times> 's, nat \<times> rat) coro" where
  "async_guarded_body io release_ready =
     co_except (\<lambda>e. \<not> is_cancelled e \<and> caught e)
       (co_bind (async_try_body io release_ready) (\<lambda>r.
        co_bind this (\<lambda>d.
        if pending_release d = []
        then co_bind (assign (\<lambda>d. d\<lparr>db_health := note_success (db_health d)\<rparr>)) (\<lambda>_. co_return r)
        else co_return r)))
       (\<lambda>_. co_bind (async_db_failure io) (\<lambda>_.
            co_bind this (\<lambda>d. co_return (0, idle_poll_seconds d))))"

definition async_remaining :: "'s async_io \<Rightarrow> backoff_state \<Rightarrow> (dispatcher \<times> 's, rat) coro" where
  "async_remaining io b =
     (if bk_delay b = 0 then co_return 0
      else co_bind (read_clock (aop_monotonic io)) (\<lambda>now. co_return (remaining_delay now b)))"

definition timeout_error :: pyclass where
  "timeout_error = UserC ''TimeoutError'' [ExceptionC]"

text \<open>\<open>_sleep\<close>: the wait for the stop event ends early by its timeout.\<close>

definition sleep_async :: "'s async_io \<Rightarrow> rat \<Rightarrow> (dispatcher \<times> 's, unit) coro" where
  "sleep_async io seconds =
     co_except (\<lambda>e. isinstance e [timeout_error]) (await_world (aop_wait_stop io seconds))
       (\<lambda>_. co_return ())"

definition async_pace :: "'s async_io \<Rightarrow> nat \<Rightarrow> rat \<Rightarrow> (dispatcher \<times> 's, unit) coro" where
  "async_pace io dispatched wait_timeout =
     co_bind this (\<lambda>d.
     co_bind (async_remaining io (health d)) (\<lambda>r1.
     co_bind (async_remaining io (db_health d)) (\<lambda>r2.
     let delay = max r1 r2 in
     if delay \<noteq> 0 then sleep_async io delay
     else if dispatched \<ge> batch_size d then co_return ()
     else co_bind (await_world (aop_wait_for_work io wait_timeout)) (\<lambda>_. co_return ()))))"

definition async_iterate :: "'s async_io \<Rightarrow> (dispatcher \<times> 's, unit) coro" where
  "async_iterate io =
     co_bind (async_retry_pending_release io) (\<lambda>release_ready.
     co_bind (async_guarded_body io release_ready) (\<lambda>(dispatched, wait_timeout).
     async_pace io dispatched wait_timeout))"

fun async_loop_bounded :: "'s async_io \<Rightarrow> nat \<Rightarrow> (dispatcher \<times> 's, unit) coro" where
  "async_loop_bounded io 0 lp \<sigma> = (Inr (), \<sigma>)"
| "async_loop_bounded io (Suc n) lp \<sigma> =
     (if aop_stop_is_set io (snd (snd \<sigma>)) then (Inr (), \<sigma>)
      else co_bind (async_iterate io) (\<lambda>_. async_loop_bounded io n) lp \<sigma>)"

partial_function (option) async_loop_unbounded ::
    "'s async_io \<Rightarrow> (dispatcher \<times> 's) event_loop \<Rightarrow> nat \<times> dispatcher \<times> 's
     \<Rightarrow> (unit result \<times> nat \<times> dispatcher \<times> 's) option" where
  "async_loop_unbounded io lp \<sigma> =
     (if aop_stop_is_set io (snd (snd \<sigma>)) then Some (Inr (), \<sigma>)
      else case async_iterate io lp \<sigma> of
             (Inl e, \<sigma>') \<Rightarrow> Some (Inl e, \<sigma>')
           | (Inr _, \<sigma>') \<Rightarrow> async_loop_unbounded io lp \<sigma>')"

text \<open>\<open>finally: await self.backend.close()\<close>\<close>

definition async_finally_close ::
    "'s async_io \<Rightarrow> (dispatcher \<times> 's) event_loop \<Rightarrow> unit result \<times> nat \<times> dispatcher \<times> 's
     \<Rightarrow> unit result \<times> nat \<times> dispatcher \<times> 's" where
  "async_finally_close io lp r =
     (case await_world (aop_close io) lp (snd r) of
        (Inl e, \<sigma>) \<Rightarrow> (Inl e, \<sigma>)
      | (Inr _, \<sigma>) \<Rightarrow> (fst r, \<sigma>))"

definition async_run ::
    "'s async_io \<Rightarrow> nat option \<Rightarrow> (dispatcher \<times> 's) event_loop \<Rightarrow> nat \<times> dispatcher \<times> 's
     \<Rightarrow> (unit result \<times> nat \<times> dispatcher \<times> 's) option" where
  "async_run io max_iterations lp \<sigma> =
     (case max_iterations of
        Some n \<Rightarrow> Some (async_finally_close io lp (async_loop_bounded io n lp \<sigma>))
      | None \<Rightarrow> map_option (async_finally_close io lp) (async_loop_unbounded io lp \<sigma>))"


section \<open>The synchronous loop over the awaited calls\<close>

text \<open>
  On a loop where the others do \<open>env k\<close> to the world at the \<open>k\<close>-th await and \<open>intr\<close> interrupts,
  an awaited call is a call on the world with its count of awaits.  \<open>awaited env intr io\<close> are the
  calls of the asynchronous dispatcher seen this way.
\<close>

definition world_loop ::
    "(nat \<Rightarrow> 's \<Rightarrow> 's) \<Rightarrow> (nat \<Rightarrow> (bool \<times> exn) option) \<Rightarrow> (dispatcher \<times> 's) event_loop" where
  "world_loop env intr = \<lparr>lp_others = \<lambda>k s. (fst s, env k (snd s)), lp_interrupt = intr\<rparr>"

definition awaiting ::
    "(nat \<Rightarrow> 's \<Rightarrow> 's) \<Rightarrow> (nat \<Rightarrow> (bool \<times> exn) option) \<Rightarrow> ('s \<Rightarrow> 'a result \<times> 's)
     \<Rightarrow> nat \<times> 's \<Rightarrow> 'a result \<times> nat \<times> 's" where
  "awaiting env intr f = co_await f \<lparr>lp_others = env, lp_interrupt = intr\<rparr>"

definition timed :: "('s \<Rightarrow> 'a \<times> 's) \<Rightarrow> nat \<times> 's \<Rightarrow> 'a \<times> nat \<times> 's" where
  "timed f s = (let (x, w) = f (snd s) in (x, fst s, w))"

fun as_exception :: "unit result \<Rightarrow> exn option" where
  "as_exception (Inl e) = Some e"
| "as_exception (Inr _) = None"

definition awaited_dispatch ::
    "(nat \<Rightarrow> 's \<Rightarrow> 's) \<Rightarrow> (nat \<Rightarrow> (bool \<times> exn) option) \<Rightarrow> 's async_io \<Rightarrow> string
     \<Rightarrow> nat \<times> 's \<Rightarrow> exn option \<times> nat \<times> 's" where
  "awaited_dispatch env intr io i s =
     (case aop_dispatch_fn io i (snd s) of
        (Raised e, w) \<Rightarrow> (Some e, fst s, w)
      | (Plain, w) \<Rightarrow> (None, fst s, w)
      | (Awaitable f, w) \<Rightarrow> (let (r, s') = awaiting env intr f (fst s, w) in (as_exception r, s')))"

definition awaited_sleep ::
    "(nat \<Rightarrow> 's \<Rightarrow> 's) \<Rightarrow> (nat \<Rightarrow> (bool \<times> exn) option) \<Rightarrow> 's async_io \<Rightarrow> rat
     \<Rightarrow> nat \<times> 's \<Rightarrow> unit result \<times> nat \<times> 's" where
  "awaited_sleep env intr io t s =
     (case awaiting env intr (aop_wait_stop io t) s of
        (Inl e, s') \<Rightarrow> (if isinstance e [timeout_error] then Inr () else Inl e, s')
      | (Inr u, s') \<Rightarrow> (Inr u, s'))"

definition awaited ::
    "(nat \<Rightarrow> 's \<Rightarrow> 's) \<Rightarrow> (nat \<Rightarrow> (bool \<times> exn) option) \<Rightarrow> 's async_io \<Rightarrow> (nat \<times> 's) dispatch_io" where
  "awaited env intr io =
     \<lparr>op_claim = \<lambda>n. awaiting env intr (aop_claim io n),
      op_release = \<lambda>ids. awaiting env intr (aop_release io ids),
      op_run_sweep = awaiting env intr (aop_run_sweep io),
      op_heartbeat = map_option (awaiting env intr) (aop_heartbeat io),
      op_next_due = map_option (awaiting env intr) (aop_next_due io),
      op_wait_for_work = \<lambda>t. awaiting env intr (aop_wait_for_work io t),
      op_close = awaiting env intr (aop_close io),
      op_dispatch_fn = awaited_dispatch env intr io,
      op_monotonic = timed (aop_monotonic io),
      op_wall_clock = timed (aop_wall_clock io),
      op_stop_wait = awaited_sleep env intr io,
      op_stop_is_set = (\<lambda>s. aop_stop_is_set io (snd s))\<rparr>"

lemma awaited_sel [simp]:
  "op_claim (awaited env intr io) n = awaiting env intr (aop_claim io n)"
  "op_release (awaited env intr io) ids = awaiting env intr (aop_release io ids)"
  "op_run_sweep (awaited env intr io) = awaiting env intr (aop_run_sweep io)"
  "op_heartbeat (awaited env intr io) = map_option (awaiting env intr) (aop_heartbeat io)"
  "op_next_due (awaited env intr io) = map_option (awaiting env intr) (aop_next_due io)"
  "op_wait_for_work (awaited env intr io) t = awaiting env intr (aop_wait_for_work io t)"
  "op_close (awaited env intr io) = awaiting env intr (aop_close io)"
  "op_dispatch_fn (awaited env intr io) = awaited_dispatch env intr io"
  "op_monotonic (awaited env intr io) = timed (aop_monotonic io)"
  "op_wall_clock (awaited env intr io) = timed (aop_wall_clock io)"
  "op_stop_wait (awaited env intr io) = awaited_sleep env intr io"
  "op_stop_is_set (awaited env intr io) s = aop_stop_is_set io (snd s)"
  by (simp_all add: awaited_def)

text \<open>The same outcome, with the count of awaits moved from the world to the front.\<close>

definition regroup :: "'a \<times> dispatcher \<times> nat \<times> 's \<Rightarrow> 'a \<times> nat \<times> dispatcher \<times> 's" where
  "regroup x = (let (r, d, k, w) = x in (r, k, d, w))"

lemma regroup_simps [simp]: "regroup (r, d, k, w) = (r, k, d, w)"
  by (simp add: regroup_def)

lemma await_world_sim [simp]:
  "await_world f (world_loop env intr) (k, d, w) =
     (let (r, s) = awaiting env intr f (k, w) in (r, fst s, d, snd s))"
  by (auto simp: co_await_def world_loop_def awaiting_def on_world_def Let_def
      split: option.split prod.split)

lemma object_sim [simp]:
  "this lp (k, d, w) = (Inr d, k, d, w)"
  "assign f lp (k, d, w) = (Inr (), k, f d, w)"
  "read_clock g lp (k, d, w) = (let (t, w') = g w in (Inr t, k, d, w'))"
  by (simp_all add: this_def assign_def read_clock_def co_local_def on_world_def Let_def split: prod.split)

lemma timed_simps [simp]: "timed f (k, w) = (let (x, w') = f w in (x, k, w'))"
  by (simp add: timed_def)

lemma db_failure_sim:
  "async_db_failure io (world_loop env intr) (k, d, w) =
     (let (d', k', w') = db_failure (awaited env intr io) (d, k, w) in (Inr (), k', d', w'))"
  by (simp add: async_db_failure_def db_failure_def co_bind_def Let_def split: prod.split)

lemma release_quietly_sim:
  "async_release_quietly io ids (world_loop env intr) (k, d, w) =
     regroup (release_quietly (awaited env intr io) ids (d, k, w))"
  by (auto simp: async_release_quietly_def release_quietly_def co_except_def co_bind_def db_failure_sim
      db_failure_def Let_def split: prod.split sum.split)

lemma retry_pending_sim:
  "async_retry_pending_release io (world_loop env intr) (k, d, w) =
     regroup (retry_pending_release (awaited env intr io) (d, k, w))"
  by (auto simp: async_retry_pending_release_def retry_pending_release_def co_except_def co_bind_def
      co_return_def db_failure_sim db_failure_def Let_def split: prod.split sum.split)

lemma as_exception_inverse [simp]:
  "(case as_exception x of None \<Rightarrow> Inr () | Some e \<Rightarrow> Inl e) = x"
  by (cases x) simp_all

lemma call_dispatch_sim:
  "call_dispatch_fn io i (world_loop env intr) (k, d, w) =
     (let (r, s) = awaited_dispatch env intr io i (k, w)
      in (case r of None \<Rightarrow> Inr () | Some e \<Rightarrow> Inl e, fst s, d, snd s))"
  by (cases "aop_dispatch_fn io i w", rename_tac c w', case_tac c)
    (auto simp: call_dispatch_fn_def awaited_dispatch_def co_bind_def co_raise_def co_return_def Let_def
      split: prod.split sum.split)

text \<open>The two loops over a batch tell a failure differently.\<close>

lemma send_ids_sim:
  "async_send_ids io ids n (world_loop env intr) (k, d, w) =
     (case send_ids (awaited env intr io) ids n (k, w) of
        (AllSent, s) \<Rightarrow> (Inr None, fst s, d, snd s)
      | (SendFailed j, s) \<Rightarrow> (Inr (Some j), fst s, d, snd s)
      | (SendEscaped e, s) \<Rightarrow> (Inl e, fst s, d, snd s))"
proof (induction ids arbitrary: n k w)
  case Nil
  then show ?case by (simp add: co_return_def)
next
  case (Cons i ids)
  obtain r k' w' where r: "awaited_dispatch env intr io i (k, w) = (r, k', w')" by (metis surj_pair)
  show ?case
    using Cons.IH [of "Suc n" k' w']
    by (cases r) (auto simp: co_bind_def co_except_def co_return_def call_dispatch_sim r)
qed

lemma dispatch_batch_sim:
  "async_dispatch_batch io (world_loop env intr) (k, d, w) =
     regroup (dispatch_batch (awaited env intr io) (d, k, w))"
proof -
  obtain r k1 w1 where c: "awaiting env intr (aop_claim io (batch_size d)) (k, w) = (r, k1, w1)"
    by (metis surj_pair)
  show ?thesis
  proof (cases r)
    case (Inl e)
    then show ?thesis using c by (simp add: async_dispatch_batch_def dispatch_batch_def co_bind_def)
  next
    case (Inr ids)
    obtain out k2 w2 where s: "send_ids (awaited env intr io) ids 0 (k1, w1) = (out, k2, w2)"
      by (metis surj_pair)
    show ?thesis
    proof (cases out)
      case (SendFailed j)
      obtain q d3 k3 w3 where q: "release_quietly (awaited env intr io) (drop j ids) (d, k2, w2) = (q, d3, k3, w3)"
        by (metis surj_pair)
      show ?thesis
        using c Inr s SendFailed q
        by (cases q) (auto simp: async_dispatch_batch_def dispatch_batch_def co_bind_def co_return_def
            send_ids_sim release_quietly_sim Let_def split: prod.split)
    qed (use c Inr s in \<open>auto simp: async_dispatch_batch_def dispatch_batch_def co_bind_def
        co_return_def send_ids_sim Let_def\<close>)
  qed
qed

lemma read_due_sim:
  "async_due io clock put (world_loop env intr) (k, d, w) =
     (let (due, c, s) = read_due (awaited env intr io) (clock d) (k, w)
      in (Inr due, fst s, (if sc_interval (clock d) = None then d else put c d), snd s))"
  by (auto simp: async_due_def read_due_def co_bind_def co_return_def Let_def
      split: option.split prod.split)

lemma no_interval_same:
  "read_due io c s = (due, c', s') \<Longrightarrow> sc_interval c = None \<Longrightarrow> c' = c"
  by (simp add: read_due_def)

lemma maybe_sweep_sim:
  "async_maybe_sweep io (world_loop env intr) (k, d, w) =
     regroup (maybe_sweep (awaited env intr io) (d, k, w))"
proof -
  obtain due c k1 w1 where r: "read_due (awaited env intr io) (d_sweep_clock d) (k, w) = (due, c, k1, w1)"
    by (metis surj_pair)
  have d: "(if sc_interval (d_sweep_clock d) = None then d else d\<lparr>d_sweep_clock := c\<rparr>) =
      d\<lparr>d_sweep_clock := c\<rparr>"
    using no_interval_same [OF r] by auto
  show ?thesis
    by (auto simp: async_maybe_sweep_def maybe_sweep_def co_bind_def co_except_def co_return_def
        read_due_sim r d Let_def split: prod.split sum.split)
qed

lemma maybe_heartbeat_sim:
  "async_maybe_heartbeat io (world_loop env intr) (k, d, w) =
     regroup (maybe_heartbeat (awaited env intr io) (d, k, w))"
proof -
  obtain due c k1 w1 where r: "read_due (awaited env intr io) (d_heartbeat_clock d) (k, w) = (due, c, k1, w1)"
    by (metis surj_pair)
  have d: "(if sc_interval (d_heartbeat_clock d) = None then d else d\<lparr>d_heartbeat_clock := c\<rparr>) =
      d\<lparr>d_heartbeat_clock := c\<rparr>"
    using no_interval_same [OF r] by auto
  show ?thesis
    by (auto simp: async_maybe_heartbeat_def maybe_heartbeat_def co_bind_def co_except_def co_return_def
        read_due_sim r d Let_def split: prod.split sum.split option.split)
qed

section \<open>The equality of the two loops\<close>

text \<open>
  An exception that is a \<open>CancelledError\<close> is no \<open>Exception\<close>: true of the class, and asked of what the
  claim, the wake query and the event loop raise.
\<close>

definition proper :: "exn \<Rightarrow> bool" where
  "proper e \<longleftrightarrow> \<not> (is_cancelled e \<and> caught e)"

definition proper_calls :: "(nat \<Rightarrow> (bool \<times> exn) option) \<Rightarrow> 's async_io \<Rightarrow> bool" where
  "proper_calls intr io \<longleftrightarrow>
     (\<forall>k b e. intr k = Some (b, e) \<longrightarrow> proper e) \<and>
     (\<forall>n w e. fst (aop_claim io n w) = Inl e \<longrightarrow> proper e) \<and>
     (\<forall>f w e. aop_next_due io = Some f \<longrightarrow> fst (f w) = Inl e \<longrightarrow> proper e)"

lemma awaiting_proper:
  assumes "awaiting env intr f s = (Inl e, s')" and "\<And>k b e. intr k = Some (b, e) \<Longrightarrow> proper e"
    and "\<And>w e. fst (f w) = Inl e \<Longrightarrow> proper e"
  shows "proper e"
proof (cases "intr (fst s)")
  case None
  then have "fst (f (env (fst s) (snd s))) = Inl e"
    using assms(1) by (auto simp: awaiting_def co_await_def Let_def split: prod.splits)
  then show ?thesis by (rule assms(3))
next
  case (Some x)
  then have "e = snd x" using assms(1) by (auto simp: awaiting_def co_await_def Let_def split: prod.splits)
  then show ?thesis using assms(2) [of "fst s" "fst x" "snd x"] Some by simp
qed

lemma not_caught_proper: "\<not> caught e \<Longrightarrow> proper e"
  by (simp add: proper_def)

lemma release_quietly_raises: "release_quietly io ids \<sigma> = (Inl e, \<sigma>') \<Longrightarrow> \<not> caught e"
  by (auto simp: release_quietly_def split: prod.splits sum.splits if_splits)

lemma send_ids_raises: "send_ids io ids n s = (SendEscaped e, s') \<Longrightarrow> \<not> caught e"
  by (induction io ids n s rule: send_ids.induct) (auto split: prod.splits option.splits if_splits)

lemma maybe_raises:
  "maybe_sweep io \<sigma> = (Inl e, \<sigma>') \<Longrightarrow> \<not> caught e"
  "maybe_heartbeat io \<sigma> = (Inl e, \<sigma>') \<Longrightarrow> \<not> caught e"
  by (auto simp: maybe_sweep_def maybe_heartbeat_def Let_def
      split: prod.splits sum.splits if_splits option.splits)

lemma dispatch_batch_raises:
  assumes "dispatch_batch io \<sigma> = (Inl e, \<sigma>')"
  shows "(\<exists>s. op_claim io (batch_size (fst \<sigma>)) (snd \<sigma>) = (Inl e, s)) \<or> \<not> caught e"
proof (cases "op_claim io (batch_size (fst \<sigma>)) (snd \<sigma>)")
  case (Pair x s1)
  show ?thesis
  proof (cases x)
    case (Inl e')
    then show ?thesis using assms Pair by (auto simp: dispatch_batch_def)
  next
    case (Inr ids)
    then have "ids \<noteq> []" using assms Pair by (auto simp: dispatch_batch_def Let_def)
    obtain out s2 where s: "send_ids io ids 0 s1 = (out, s2)" by (metis surj_pair)
    show ?thesis
      using assms Pair Inr \<open>ids \<noteq> []\<close> s send_ids_raises [of io ids 0 s1 e s2]
      by (cases out) (auto simp: dispatch_batch_def Let_def
          split: prod.splits sum.splits dest: release_quietly_raises)
  qed
qed

lemma try_body_proper:
  assumes "try_body (awaited env intr io) ready \<sigma> = (Inl e, \<sigma>')" and "proper_calls intr io"
  shows "proper e"
proof -
  have claim: "proper e" if "awaiting env intr (aop_claim io n) s = (Inl e, s')" for n s s'
    using awaiting_proper [OF that] assms(2) by (auto simp: proper_calls_def)
  have due: "proper e" if "aop_next_due io = Some f" "awaiting env intr f s = (Inl e, s')" for f s s'
    using awaiting_proper [OF that(2)] assms(2) that(1) by (auto simp: proper_calls_def)
  show ?thesis
    using assms(1)
    by (auto simp: try_body_def Let_def split: prod.splits sum.splits if_splits option.splits
        dest!: dispatch_batch_raises maybe_raises intro: claim due not_caught_proper)
qed

lemma try_body_sim:
  "async_try_body io ready (world_loop env intr) (k, d, w) =
     regroup (try_body (awaited env intr io) ready (d, k, w))"
proof -
  obtain r1 d1 k1 w1 where 1: "maybe_heartbeat (awaited env intr io) (d, k, w) = (r1, d1, k1, w1)"
    by (metis surj_pair)
  obtain r2 d2 k2 w2 where 2: "maybe_sweep (awaited env intr io) (d1, k1, w1) = (r2, d2, k2, w2)"
    by (metis surj_pair)
  obtain r3 d3 k3 w3 where 3: "(if \<not> ready then (Inr 0, d2, k2, w2)
      else dispatch_batch (awaited env intr io) (d2, k2, w2)) = (r3, d3, k3, w3)"
    by (metis surj_pair)
  have b3: "(if \<not> ready then co_return 0 else async_dispatch_batch io) (world_loop env intr) (k2, d2, w2)
      = (r3, k3, d3, w3)"
    using 3 by (auto simp: co_return_def dispatch_batch_sim split: if_splits)
  obtain r4 k4 w4 where 4: "(case op_next_due (awaited env intr io) of
      None \<Rightarrow> (Inr None, k3, w3) | Some f \<Rightarrow> f (k3, w3)) = (r4, k4, w4)"
    by (metis surj_pair)
  have b4: "(case aop_next_due io of None \<Rightarrow> co_return None | Some f \<Rightarrow> await_world f)
      (world_loop env intr) (k3, d3, w3) = (r4, k4, d3, w4)"
    using 4 by (auto simp: co_return_def split: option.splits)
  show ?thesis
  proof (cases "(\<exists>e. r1 = Inl e) \<or> (\<exists>e. r2 = Inl e) \<or> (\<exists>e. r3 = Inl e)")
    case True
    then show ?thesis
      using 1 2 3 b3
      by (auto simp: async_try_body_def try_body_def co_bind_def maybe_heartbeat_sim maybe_sweep_sim
          split: sum.split)
  next
    case False
    then obtain x1 x2 x3 where "r1 = Inr x1" "r2 = Inr x2" "r3 = Inr x3"
      by (metis sumE)
    then show ?thesis
      using 1 2 3 b3 4 b4
      by (cases r4; cases "aop_next_due io") (simp_all add: async_try_body_def try_body_def co_bind_def
          maybe_heartbeat_sim maybe_sweep_sim co_return_def Let_def split: prod.split)
  qed
qed

lemma guarded_body_sim:
  assumes "proper_calls intr io"
  shows "async_guarded_body io ready (world_loop env intr) (k, d, w) =
     regroup (guarded_body (awaited env intr io) ready (d, k, w))"
proof -
  obtain r d' k' w' where t: "try_body (awaited env intr io) ready (d, k, w) = (r, d', k', w')"
    by (metis surj_pair)
  show ?thesis
  proof (cases r)
    case (Inl e)
    then have "proper e" using try_body_proper [OF _ assms] t by blast
    then show ?thesis
      using t Inl
      by (auto simp: async_guarded_body_def guarded_body_def co_except_def co_bind_def co_return_def
          try_body_sim db_failure_sim db_failure_def proper_def Let_def split: prod.split)
  next
    case (Inr x)
    then show ?thesis
      using t by (auto simp: async_guarded_body_def guarded_body_def co_except_def co_bind_def
          co_return_def try_body_sim)
  qed
qed

lemma remaining_sim:
  "async_remaining io b (world_loop env intr) (k, d, w) =
     (let (r, s) = read_remaining (awaited env intr io) b (k, w) in (Inr r, fst s, d, snd s))"
  by (auto simp: async_remaining_def read_remaining_def co_bind_def co_return_def Let_def split: prod.split)

lemma pace_sim:
  "async_pace io n t (world_loop env intr) (k, d, w) =
     regroup (pace (awaited env intr io) n t (d, k, w))"
proof -
  obtain r1 k1 w1 where 1: "read_remaining (awaited env intr io) (health d) (k, w) = (r1, k1, w1)"
    by (metis surj_pair)
  obtain r2 k2 w2 where 2: "read_remaining (awaited env intr io) (db_health d) (k1, w1) = (r2, k2, w2)"
    by (metis surj_pair)
  show ?thesis
    by (auto simp: async_pace_def pace_def co_bind_def co_return_def remaining_sim 1 2 Let_def
        sleep_async_def awaited_sleep_def co_except_def split: prod.split sum.split)
qed

lemma iterate_sim:
  assumes "proper_calls intr io"
  shows "async_iterate io (world_loop env intr) (k, d, w) =
     regroup (iterate (awaited env intr io) (d, k, w))"
proof -
  obtain r d1 k1 w1 where r: "retry_pending_release (awaited env intr io) (d, k, w) = (r, d1, k1, w1)"
    by (metis surj_pair)
  show ?thesis
  proof (cases r)
    case (Inl e)
    then show ?thesis using r by (simp add: async_iterate_def iterate_def co_bind_def retry_pending_sim)
  next
    case (Inr ready)
    obtain x d2 k2 w2 where g: "guarded_body (awaited env intr io) ready (d1, k1, w1) = (x, d2, k2, w2)"
      by (metis surj_pair)
    show ?thesis
      using r Inr g
      by (cases x) (auto simp: async_iterate_def iterate_def co_bind_def retry_pending_sim
          guarded_body_sim [OF assms] pace_sim split: prod.split)
  qed
qed

lemma loop_bounded_sim:
  assumes "proper_calls intr io"
  shows "async_loop_bounded io n (world_loop env intr) (k, d, w) =
     regroup (loop_bounded (awaited env intr io) n (d, k, w))"
proof (induction n arbitrary: k d w)
  case (Suc n)
  obtain r d' k' w' where i: "iterate (awaited env intr io) (d, k, w) = (r, d', k', w')"
    by (metis surj_pair)
  show ?case
    using Suc.IH [of k' d' w'] i by (cases r) (simp_all add: co_bind_def iterate_sim [OF assms])
qed simp


lemma unbounded_sim_1:
  assumes proper: "proper_calls intr io"
    and "loop_unbounded (awaited env intr io) \<sigma> = Some y"
  shows "async_loop_unbounded io (world_loop env intr) (fst (snd \<sigma>), fst \<sigma>, snd (snd \<sigma>)) = Some (regroup y)"
proof -
  let ?P = "\<lambda>io' \<sigma> y. io' = awaited env intr io \<longrightarrow>
      async_loop_unbounded io (world_loop env intr) (fst (snd \<sigma>), fst \<sigma>, snd (snd \<sigma>)) = Some (regroup y)"
  have "?P (awaited env intr io) \<sigma> y"
  proof (rule loop_unbounded.raw_induct [of ?P, OF _ assms(2)], intro impI)
    fix f :: "(nat \<times> 'a) dispatch_io \<Rightarrow> dispatcher \<times> nat \<times> 'a \<Rightarrow> (unit result \<times> dispatcher \<times> nat \<times> 'a) option"
      and io' \<sigma> y
    assume IH: "\<And>io' \<sigma> y. f io' \<sigma> = Some y \<Longrightarrow> ?P io' \<sigma> y"
      and body: "(if op_stop_is_set io' (snd \<sigma>) then Some (Inr (), \<sigma>)
        else case iterate io' \<sigma> of (Inl e, \<sigma>') \<Rightarrow> Some (Inl e, \<sigma>') | (Inr _, \<sigma>') \<Rightarrow> f io' \<sigma>') = Some y"
      and io': "io' = awaited env intr io"
    obtain d k w where s: "\<sigma> = (d, k, w)" by (cases \<sigma>)
    obtain r d' k' w' where i: "iterate (awaited env intr io) (d, k, w) = (r, d', k', w')"
      by (metis surj_pair)
    note sim = iterate_sim [OF proper, of env k d w]
    show "async_loop_unbounded io (world_loop env intr) (fst (snd \<sigma>), fst \<sigma>, snd (snd \<sigma>)) =
        Some (regroup y)"
    proof (cases "aop_stop_is_set io w \<or> (\<exists>e. r = Inl e)")
      case True
      then show ?thesis
        using body s io' i by (subst async_loop_unbounded.simps) (auto simp: sim)
    next
      case False
      then obtain u where r: "r = Inr u" by (cases r) auto
      then have "f io' (d', k', w') = Some y" using body s io' i False by simp
      from IH [OF this] io' have "async_loop_unbounded io (world_loop env intr) (k', d', w') =
          Some (regroup y)" by simp
      then show ?thesis
        using s i False r by (subst async_loop_unbounded.simps) (simp add: sim)
    qed
  qed
  then show ?thesis by simp
qed

lemma unbounded_sim_2:
  assumes proper: "proper_calls intr io"
    and "async_loop_unbounded io (world_loop env intr) \<tau> = Some z"
  shows "\<exists>y. loop_unbounded (awaited env intr io) (fst (snd \<tau>), fst \<tau>, snd (snd \<tau>)) = Some y"
proof -
  let ?P = "\<lambda>io' lp \<tau> z. io' = io \<and> lp = world_loop env intr \<longrightarrow>
      (\<exists>y. loop_unbounded (awaited env intr io) (fst (snd \<tau>), fst \<tau>, snd (snd \<tau>)) = Some y)"
  have "?P io (world_loop env intr) \<tau> z"
  proof (rule async_loop_unbounded.raw_induct [of ?P, OF _ assms(2)], intro impI)
    fix f :: "'a async_io \<Rightarrow> (dispatcher \<times> 'a) event_loop \<Rightarrow> nat \<times> dispatcher \<times> 'a
        \<Rightarrow> (unit result \<times> nat \<times> dispatcher \<times> 'a) option"
      and io' lp \<tau> z
    assume IH: "\<And>io' lp \<tau> z. f io' lp \<tau> = Some z \<Longrightarrow> ?P io' lp \<tau> z"
      and body: "(if aop_stop_is_set io' (snd (snd \<tau>)) then Some (Inr (), \<tau>)
        else case async_iterate io' lp \<tau> of
          (Inl e, \<sigma>') \<Rightarrow> Some (Inl e, \<sigma>') | (Inr _, \<sigma>') \<Rightarrow> f io' lp \<sigma>') = Some z"
      and io': "io' = io \<and> lp = world_loop env intr"
    obtain k d w where s: "\<tau> = (k, d, w)" by (cases \<tau>)
    obtain r d' k' w' where i: "iterate (awaited env intr io) (d, k, w) = (r, d', k', w')"
      by (metis surj_pair)
    show "\<exists>y. loop_unbounded (awaited env intr io) (fst (snd \<tau>), fst \<tau>, snd (snd \<tau>)) = Some y"
    proof (cases "aop_stop_is_set io w \<or> (\<exists>e. r = Inl e)")
      case True
      then show ?thesis using s i by (subst loop_unbounded.simps) auto
    next
      case False
      then obtain u where r: "r = Inr u" by (cases r) auto
      then have "f io' lp (k', d', w') = Some z"
        using body s io' i False by (simp add: iterate_sim [OF proper])
      from IH [OF this] io' have "\<exists>y. loop_unbounded (awaited env intr io) (d', k', w') = Some y" by simp
      then show ?thesis using s i False r by (subst loop_unbounded.simps) simp
    qed
  qed
  then show ?thesis by simp
qed

lemma unbounded_sim:
  assumes "proper_calls intr io"
  shows "async_loop_unbounded io (world_loop env intr) (k, d, w) =
     map_option regroup (loop_unbounded (awaited env intr io) (d, k, w))"
proof (cases "loop_unbounded (awaited env intr io) (d, k, w)")
  case None
  then show ?thesis
    using unbounded_sim_2 [OF assms, of env "(k, d, w)"]
    by (cases "async_loop_unbounded io (world_loop env intr) (k, d, w)") auto
next
  case (Some y)
  then show ?thesis using unbounded_sim_1 [OF assms Some] by simp
qed

lemma finally_close_sim:
  "async_finally_close io (world_loop env intr) (regroup x) = regroup (finally_close (awaited env intr io) x)"
  by (cases x) (auto simp: async_finally_close_def finally_close_def regroup_def Let_def
      split: prod.split sum.split)

lemma async_run_sim:
  assumes "proper_calls intr io"
  shows "async_run io max_iterations (world_loop env intr) (k, d, w) =
    map_option regroup (run (awaited env intr io) max_iterations (d, k, w))"
  by (cases max_iterations)
    (simp_all add: async_run_def run_def loop_bounded_sim [OF assms] unbounded_sim [OF assms]
      finally_close_sim option.map_comp comp_def)

section \<open>Cancellation\<close>

text \<open>
  A coroutine is fragile for an exception when the exception leaves it at once from the await it
  comes at, with nothing awaited after.
\<close>

named_theorems fragile_intros \<open>introduction rules for fragile\<close>

definition fragile :: "exn \<Rightarrow> ('s, 'a) coro \<Rightarrow> bool" where
  "fragile e c \<longleftrightarrow> (\<forall>lp k s r k' s' m b. c lp (k, s) = (r, k', s') \<longrightarrow>
     k \<le> k' \<and> (lp_interrupt lp m = Some (b, e) \<longrightarrow> k \<le> m \<longrightarrow> m < k' \<longrightarrow> r = Inl e \<and> k' = Suc m))"

lemma fragileD:
  assumes "fragile e c" and "c lp (k, s) = (r, k', s')"
  shows "k \<le> k'"
    and "lp_interrupt lp m = Some (b, e) \<Longrightarrow> k \<le> m \<Longrightarrow> m < k' \<Longrightarrow> r = Inl e \<and> k' = Suc m"
  using assms unfolding fragile_def by blast+

lemma fragile_return [fragile_intros]: "fragile e (co_return x)"
  by (auto simp: fragile_def co_return_def)

lemma fragile_raise [fragile_intros]: "fragile e (co_raise e')"
  by (auto simp: fragile_def co_raise_def)

lemma fragile_local [fragile_intros]: "fragile e (co_local f)"
  by (auto simp: fragile_def co_local_def Let_def split: prod.splits)

lemma fragile_await [fragile_intros]: "fragile e (co_await f)"
  by (auto simp: fragile_def co_await_def Let_def le_less_Suc_eq split: prod.splits option.splits if_splits)

lemma fragile_if [fragile_intros]: "fragile e c \<Longrightarrow> fragile e d \<Longrightarrow> fragile e (if p then c else d)"
  by simp

lemma fragile_bind [fragile_intros]:
  assumes "fragile e c" and "\<And>x. fragile e (f x)" shows "fragile e (co_bind c f)"
  unfolding fragile_def
proof (intro allI impI)
  fix lp k s r k' s' m b
  assume run: "co_bind c f lp (k, s) = (r, k', s')"
  obtain r1 k1 s1 where c: "c lp (k, s) = (r1, k1, s1)" by (metis surj_pair)
  note p1 = fragileD [OF assms(1) c]
  show "k \<le> k' \<and> (lp_interrupt lp m = Some (b, e) \<longrightarrow> k \<le> m \<longrightarrow> m < k' \<longrightarrow> r = Inl e \<and> k' = Suc m)"
  proof (cases r1)
    case (Inl e1)
    then show ?thesis using run c p1 by (auto simp: co_bind_def)
  next
    case (Inr x)
    then have f: "f x lp (k1, s1) = (r, k', s')" using run c by (simp add: co_bind_def)
    note p2 = fragileD [OF assms(2) f]
    show ?thesis
    proof (rule conjI)
      show "k \<le> k'" using p1(1) p2(1) by simp
      show "lp_interrupt lp m = Some (b, e) \<longrightarrow> k \<le> m \<longrightarrow> m < k' \<longrightarrow> r = Inl e \<and> k' = Suc m"
      proof (intro impI)
        assume m: "lp_interrupt lp m = Some (b, e)" "k \<le> m" "m < k'"
        then have "\<not> m < k1" using p1(2) Inr by fastforce
        then show "r = Inl e \<and> k' = Suc m" using p2(2) m by simp
      qed
    qed
  qed
qed

lemma fragile_except [fragile_intros]:
  assumes "fragile e c" and "\<And>x. fragile e (h x)" and "\<not> p e"
  shows "fragile e (co_except p c h)"
  unfolding fragile_def
proof (intro allI impI)
  fix lp k s r k' s' m b
  assume run: "co_except p c h lp (k, s) = (r, k', s')"
  obtain r1 k1 s1 where c: "c lp (k, s) = (r1, k1, s1)" by (metis surj_pair)
  note p1 = fragileD [OF assms(1) c]
  show "k \<le> k' \<and> (lp_interrupt lp m = Some (b, e) \<longrightarrow> k \<le> m \<longrightarrow> m < k' \<longrightarrow> r = Inl e \<and> k' = Suc m)"
  proof (cases "\<exists>x. r1 = Inl x \<and> p x")
    case False
    then show ?thesis using run c p1 by (cases r1) (auto simp: co_except_def)
  next
    case True
    then obtain x where x: "r1 = Inl x" "p x" by blast
    then have h: "h x lp (k1, s1) = (r, k', s')" using run c by (simp add: co_except_def)
    note p2 = fragileD [OF assms(2) h]
    show ?thesis
    proof (rule conjI)
      show "k \<le> k'" using p1(1) p2(1) by simp
      show "lp_interrupt lp m = Some (b, e) \<longrightarrow> k \<le> m \<longrightarrow> m < k' \<longrightarrow> r = Inl e \<and> k' = Suc m"
      proof (intro impI)
        assume m: "lp_interrupt lp m = Some (b, e)" "k \<le> m" "m < k'"
        then have "\<not> m < k1" using p1(2) x assms(3) by fastforce
        then show "r = Inl e \<and> k' = Suc m" using p2(2) m by simp
      qed
    qed
  qed
qed

end
