(* ===== verification/Async_Backend.thy ===== *)
theory Async_Backend
  imports Async_Dispatcher Dispatch_Contract
begin

text \<open>
  The contract of \<open>Dispatch_Contract\<close> for awaited calls: a backend that keeps it when it is called
  keeps it when it is awaited.  \<open>early stops\<close> are interrupts of any kind at any await, before the
  awaited operation took effect; an operation interrupted that way has changed nothing.
\<close>

definition as_async :: "'s dispatch_io \<Rightarrow> 's async_io" where
  "as_async io =
     \<lparr>aop_claim = op_claim io, aop_release = op_release io, aop_run_sweep = op_run_sweep io,
      aop_heartbeat = op_heartbeat io, aop_next_due = op_next_due io,
      aop_wait_for_work = op_wait_for_work io, aop_close = op_close io,
      aop_dispatch_fn = (\<lambda>i w. (Awaitable (\<lambda>w. case op_dispatch_fn io i w of
         (None, w') \<Rightarrow> (Inr (), w') | (Some e, w') \<Rightarrow> (Inl e, w')), w)),
      aop_monotonic = op_monotonic io, aop_wall_clock = op_wall_clock io,
      aop_wait_stop = op_stop_wait io, aop_stop_is_set = op_stop_is_set io\<rparr>"

definition early :: "(nat \<Rightarrow> exn option) \<Rightarrow> nat \<Rightarrow> (bool \<times> exn) option" where
  "early stops k = map_option (Pair False) (stops k)"

definition awaited_io :: "(nat \<Rightarrow> exn option) \<Rightarrow> 's dispatch_io \<Rightarrow> (nat \<times> 's) dispatch_io" where
  "awaited_io stops io = awaited (\<lambda>_ w. w) (early stops) (as_async io)"

text \<open>An awaited call is the call, or an interrupt that leaves the world as it was.\<close>

lemma awaiting_early:
  "awaiting (\<lambda>_ w. w) (early stops) f s =
     (case stops (fst s) of
        None \<Rightarrow> (let (r, w) = f (snd s) in (r, Suc (fst s), w))
      | Some e \<Rightarrow> (Inl e, Suc (fst s), snd s))"
  by (auto simp: awaiting_def co_await_def early_def Let_def split: option.split)

lemma awaiting_early_cases:
  assumes "awaiting (\<lambda>_ w. w) (early stops) f s = (r, s')"
  obtains (ran) "f (snd s) = (r, snd s')" "fst s' = Suc (fst s)"
    | (stopped) e where "r = Inl e" "snd s' = snd s" "fst s' = Suc (fst s)" "stops (fst s) = Some e"
  using assms by (auto simp: awaiting_early split: option.splits prod.splits)

lemma awaited_io_sel:
  "op_claim (awaited_io stops io) n = awaiting (\<lambda>_ w. w) (early stops) (op_claim io n)"
  "op_release (awaited_io stops io) ids = awaiting (\<lambda>_ w. w) (early stops) (op_release io ids)"
  "op_run_sweep (awaited_io stops io) = awaiting (\<lambda>_ w. w) (early stops) (op_run_sweep io)"
  "op_heartbeat (awaited_io stops io) = map_option (awaiting (\<lambda>_ w. w) (early stops)) (op_heartbeat io)"
  "op_next_due (awaited_io stops io) = map_option (awaiting (\<lambda>_ w. w) (early stops)) (op_next_due io)"
  "op_wait_for_work (awaited_io stops io) t = awaiting (\<lambda>_ w. w) (early stops) (op_wait_for_work io t)"
  "op_close (awaited_io stops io) = awaiting (\<lambda>_ w. w) (early stops) (op_close io)"
  "op_monotonic (awaited_io stops io) = timed (op_monotonic io)"
  "op_wall_clock (awaited_io stops io) = timed (op_wall_clock io)"
  "op_stop_is_set (awaited_io stops io) s = op_stop_is_set io (snd s)"
  by (simp_all add: awaited_io_def as_async_def)

lemma awaited_io_send:
  assumes "op_dispatch_fn (awaited_io stops io) i s = (r, s')"
  obtains (ran) "op_dispatch_fn io i (snd s) = (r, snd s')" "fst s' = Suc (fst s)"
    | (stopped) e where "r = Some e" "snd s' = snd s" "fst s' = Suc (fst s)" "stops (fst s) = Some e"
proof (cases "stops (fst s)")
  case None
  then show thesis
    using assms by (intro ran)
      (auto simp: awaited_io_def as_async_def awaited_dispatch_def awaiting_early Let_def
        split: option.splits prod.splits)
next
  case (Some e)
  then show thesis
    using assms by (intro stopped [of e])
      (auto simp: awaited_io_def as_async_def awaited_dispatch_def awaiting_early Let_def)
qed

lemma awaited_io_stop_wait:
  assumes "op_stop_wait (awaited_io stops io) t s = (r, s')"
  shows "fst s' = Suc (fst s)" and "snd s' = snd s \<or> (\<exists>q. op_stop_wait io t (snd s) = (q, snd s'))"
    and "stops (fst s) = None \<Longrightarrow> op_stop_wait io t (snd s) = (Inr u, w) \<Longrightarrow> r = Inr u"
  using assms
  by (auto simp: awaited_io_def as_async_def awaited_sleep_def awaiting_early Let_def
      split: option.splits prod.splits sum.splits)

text \<open>The contract carries over.\<close>

lemma unchanged_snd:
  "unchanged (\<lambda>s. valid (snd s)) (\<lambda>s. mine (snd s)) (\<lambda>s. sent (snd s)) s s' =
     unchanged valid mine sent (snd s) (snd s')"
  by (simp add: unchanged_def)

context dispatch_backend begin

lemma awaiting_quiet:
  assumes "valid (snd s)" and "awaiting (\<lambda>_ w. w) (early stops) f s = (r, s')"
    and "\<And>r w. f (snd s) = (r, w) \<Longrightarrow> unchanged valid mine sent (snd s) w"
  shows "unchanged (\<lambda>s. valid (snd s)) (\<lambda>s. mine (snd s)) (\<lambda>s. sent (snd s)) s s'"
  unfolding unchanged_snd using assms(2)
  by (cases rule: awaiting_early_cases) (simp_all add: assms(1,3) unchanged_refl)

lemma async_contract:
  "dispatch_backend (awaited_io stops io) (\<lambda>s. valid (snd s)) (\<lambda>s. mine (snd s)) (\<lambda>s. sent (snd s))"
proof (rule dispatch_backend.intro, goal_cases)
  case (1 s n ids s')
  then show ?case
    unfolding awaited_io_sel using claim_ok [of "snd s" n ids "snd s'"]
    by (elim awaiting_early_cases) auto
next
  case (2 s n e s')
  from 2(2) [unfolded awaited_io_sel] show ?case
    unfolding unchanged_snd using claim_err [OF 2(1), of n e "snd s'"]
    by (cases rule: awaiting_early_cases) (simp_all add: 2(1) unchanged_refl)
next
  case (3 s ids u s')
  then show ?case
    unfolding awaited_io_sel using release_ok [of "snd s" ids u "snd s'"]
    by (elim awaiting_early_cases) auto
next
  case (4 s ids e s')
  from 4(2) [unfolded awaited_io_sel] show ?case
    unfolding unchanged_snd using release_err [OF 4(1), of ids e "snd s'"]
    by (cases rule: awaiting_early_cases) (simp_all add: 4(1) unchanged_refl)
next
  case (5 s i s')
  from 5(2) show ?case
    using send_ok [OF 5(1), of i "snd s'"] by (cases rule: awaited_io_send) simp_all
next
  case (6 s i e s')
  from 6(2) show ?case
    unfolding unchanged_snd using send_err [OF 6(1), of i e "snd s'"]
    by (cases rule: awaited_io_send) (simp_all add: 6(1) unchanged_refl)
next
  case (7 s r s')
  then show ?case unfolding awaited_io_sel by (rule awaiting_quiet) (rule sweep_quiet [OF 7(1)])
next
  case (8 s f r s')
  then obtain g where g: "op_heartbeat io = Some g" "f = awaiting (\<lambda>_ w. w) (early stops) g"
    by (auto simp: awaited_io_sel)
  show ?case using 8(1) 8(3) [unfolded g(2)] by (rule awaiting_quiet) (rule beat_quiet [OF 8(1) g(1)])
next
  case (9 s f r s')
  then obtain g where g: "op_next_due io = Some g" "f = awaiting (\<lambda>_ w. w) (early stops) g"
    by (auto simp: awaited_io_sel)
  show ?case using 9(1) 9(3) [unfolded g(2)] by (rule awaiting_quiet) (rule due_quiet [OF 9(1) g(1)])
next
  case (10 s t r s')
  then show ?case unfolding awaited_io_sel by (rule awaiting_quiet) (rule wait_quiet [OF 10(1)])
next
  case (11 s r s')
  then show ?case
    unfolding unchanged_snd awaited_io_sel timed_def
    by (auto simp: Let_def split: prod.splits intro: mono_quiet)
next
  case (12 s r s')
  then show ?case
    unfolding unchanged_snd awaited_io_sel timed_def
    by (auto simp: Let_def split: prod.splits intro: wall_quiet)
next
  case (13 s t r s')
  then show ?case
    unfolding unchanged_snd using awaited_io_stop_wait(2) [OF 13(2)]
    by (auto simp: unchanged_refl intro: stop_quiet)
qed

end

text \<open>Uninterrupted, the awaited calls are resilient when the calls are.\<close>

lemma awaiting_undisturbed:
  "awaiting (\<lambda>_ w. w) (early (\<lambda>_. None)) f s = (let (r, w) = f (snd s) in (r, Suc (fst s), w))"
  by (simp add: awaiting_early)

context resilient_backend begin

lemma async_resilient:
  "resilient_backend (awaited_io (\<lambda>_. None) io) (\<lambda>s. valid (snd s)) (\<lambda>s. mine (snd s))
     (\<lambda>s. sent (snd s)) (\<lambda>s. age (snd s))"
proof (rule resilient_backend.intro [OF async_contract], rule resilient_backend_axioms.intro, goal_cases)
  case (1 n s r s')
  then show ?case
    by (auto simp: awaited_io_sel awaiting_undisturbed Let_def split: prod.splits dest: claim_step)
next
  case (2 ids s r s')
  then show ?case
    by (auto simp: awaited_io_sel awaiting_undisturbed Let_def split: prod.splits dest: release_step)
next
  case (3 i s r s')
  then show ?case by (elim awaited_io_send) (auto dest: send_step)
next
  case (4 s r s')
  then show ?case
    by (auto simp: awaited_io_sel awaiting_undisturbed Let_def split: prod.splits dest: sweep_step)
next
  case (5 f s r s')
  then obtain g where g: "op_heartbeat io = Some g" "f = awaiting (\<lambda>_ w. w) (early (\<lambda>_. None)) g"
    by (auto simp: awaited_io_sel)
  obtain q w where q: "g (snd s) = (q, w)" by (metis surj_pair)
  show ?case using 5(2) beat_step [OF g(1) q] by (auto simp: g(2) awaiting_undisturbed q)
next
  case (6 f s r s')
  then obtain g where g: "op_next_due io = Some g" "f = awaiting (\<lambda>_ w. w) (early (\<lambda>_. None)) g"
    by (auto simp: awaited_io_sel)
  obtain q w where q: "g (snd s) = (q, w)" by (metis surj_pair)
  show ?case using 6(2) due_step [OF g(1) q] by (auto simp: g(2) awaiting_undisturbed q)
next
  case (7 t s r s')
  then show ?case
    by (auto simp: awaited_io_sel awaiting_undisturbed Let_def split: prod.splits dest: wait_step)
next
  case (8 s r s')
  then show ?case by (auto simp: awaited_io_sel timed_def Let_def split: prod.splits dest: mono_step)
next
  case (9 s r s')
  then show ?case by (auto simp: awaited_io_sel timed_def Let_def split: prod.splits dest: wall_step)
next
  case (10 t s r s')
  obtain q w where q: "op_stop_wait io t (snd s) = (q, w)" by (metis surj_pair)
  with 10 show ?case
    using stop_step [OF q]
    by (auto simp: awaited_io_def as_async_def awaited_sleep_def awaiting_undisturbed Let_def)
qed

end

end
