(* ===== verification/Async_Dispatcher_Properties.thy ===== *)
theory Async_Dispatcher_Properties
  imports Async_Backend Dispatcher_Properties
begin

text \<open>
  Properties of \<open>AsyncDispatcher\<close>: it is the synchronous dispatcher over the awaited calls, so the
  contract of the backend carries to it; and a cancellation leaves it at once.
\<close>

section \<open>The awaited site\<close>



lemma proper_database_error [simp]: "proper database_error"
  by (simp add: proper_def is_cancelled_def cancelled_error_def database_error_def py_exn_def isinstance_def)

lemma proper_site:
  assumes "\<And>k e. stops k = Some e \<Longrightarrow> proper e"
  shows "proper_calls (early stops) (as_async (site_io v))"
  using assms
  by (auto simp: proper_calls_def early_def as_async_def site_io_def site_claim_def site_next_due_def
      Let_def split: if_splits prod.splits)



section \<open>Properties\<close>

text \<open>
  C26. \<open>AsyncDispatcher\<close> is \<open>Dispatcher\<close>: on any event loop, whatever the others do at an await and
  whatever exceptions come there, its run ends as the run of the synchronous dispatcher over the same
  calls awaited, with the same exception or none, the same object and the same world, or neither ends.
\<close>

theorem async_dispatcher_is_dispatcher:
  assumes "proper_calls intr io"
  shows "async_run io max_iterations (world_loop env intr) (k, d, w) =
    map_option (\<lambda>(r, d', k', w'). (r, k', d', w')) (run (awaited env intr io) max_iterations (d, k, w))"
  using async_run_sim [OF assms, of max_iterations env k d w] unfolding regroup_def Let_def .

lemma no_stops: "early (\<lambda>_. None) = (\<lambda>_. None)"
  by (simp add: early_def fun_eq_iff)

theorem async_dispatcher_is_dispatcher_witness:
  "\<exists>k d w. async_run (as_async (site_io sample_site)) (Some 1) (world_loop (\<lambda>_ w. w) (\<lambda>_. None))
      (0, sample_dispatcher, sample_world) = Some (Inr (), k, d, w) \<and> w_sent w = [''b'', ''c'']"
proof -
  let ?r = "run (awaited (\<lambda>_ w. w) (\<lambda>_. None) (as_async (site_io sample_site))) (Some 1)
      (sample_dispatcher, 0, sample_world)"
  have p: "proper_calls (\<lambda>_. None) (as_async (site_io sample_site))"
    using proper_site [of "\<lambda>_. None" sample_site] by (simp add: no_stops)
  have "(case ?r of Some (Inr _, _, _, w) \<Rightarrow> w_sent w = [''b'', ''c''] | _ \<Rightarrow> False)"
    by code_simp
  then obtain d k w where "?r = Some (Inr (), d, k, w)" "w_sent w = [''b'', ''c'']"
    by (cases ?r; cases "fst (the ?r)") auto
  then show ?thesis
    using async_dispatcher_is_dispatcher [OF p, of "Some 1" "\<lambda>_ w. w" 0 sample_dispatcher sample_world]
    by auto
qed






section \<open>Cancellation\<close>

lemma not_timeout [simp]: "isinstance cancelled_error [timeout_error] = False"
  by (simp add: cancelled_error_def timeout_error_def isinstance_def py_exn_def)

lemma cancelled_is_cancelled [simp]: "is_cancelled cancelled_error"
  by (simp add: is_cancelled_def cancelled_error_def isinstance_def py_exn_def)

lemma fragile_option [fragile_intros]:
  "fragile e c \<Longrightarrow> (\<And>x. fragile e (f x)) \<Longrightarrow> fragile e (case y of None \<Rightarrow> c | Some x \<Rightarrow> f x)"
  by (cases y) simp_all

lemma fragile_object [fragile_intros]:
  "fragile e this" "fragile e (assign g)" "fragile e (read_clock h)"
  by (simp_all add: this_def assign_def read_clock_def fragile_local)

lemma fragile_failure [fragile_intros]: "fragile e (async_db_failure io)"
  unfolding async_db_failure_def by (intro fragile_intros)

lemma fragile_release [fragile_intros]: "fragile cancelled_error (async_release_quietly io ids)"
  unfolding async_release_quietly_def by (intro fragile_intros) simp

lemma fragile_retry [fragile_intros]: "fragile cancelled_error (async_retry_pending_release io)"
  unfolding async_retry_pending_release_def Let_def by (intro fragile_intros) simp

lemma fragile_call [fragile_intros]: "fragile cancelled_error (call_dispatch_fn io i)"
proof -
  have "fragile cancelled_error (case x of Raised e \<Rightarrow> co_raise e | Plain \<Rightarrow> co_return ()
      | Awaitable f \<Rightarrow> await_world f)" for x :: "'a call_result"
    by (cases x) (auto intro: fragile_intros)
  then show ?thesis unfolding call_dispatch_fn_def by (intro fragile_intros)
qed

lemma fragile_send [fragile_intros]: "fragile cancelled_error (async_send_ids io ids n)"
  by (induction ids arbitrary: n) (auto intro!: fragile_intros)

lemma fragile_batch [fragile_intros]: "fragile cancelled_error (async_dispatch_batch io)"
  unfolding async_dispatch_batch_def by (intro fragile_intros)

lemma fragile_due [fragile_intros]: "fragile e (async_due io clock put)"
  unfolding async_due_def by (intro fragile_intros) (auto split: prod.split intro: fragile_intros)

lemma fragile_maybe [fragile_intros]:
  "fragile cancelled_error (async_maybe_sweep io)" "fragile cancelled_error (async_maybe_heartbeat io)"
  unfolding async_maybe_sweep_def async_maybe_heartbeat_def by (intro fragile_intros; simp)+

lemma fragile_body [fragile_intros]: "fragile cancelled_error (async_guarded_body io ready)"
  unfolding async_guarded_body_def async_try_body_def by (intro fragile_intros) simp

lemma fragile_pace [fragile_intros]: "fragile cancelled_error (async_pace io n t)"
  unfolding async_pace_def async_remaining_def sleep_async_def Let_def
  by (intro fragile_intros) simp

lemma fragile_iterate [fragile_intros]: "fragile cancelled_error (async_iterate io)"
  unfolding async_iterate_def by (intro fragile_intros) (auto intro: fragile_intros)


text \<open>A loop that ends: from which await to which, and how.\<close>

definition loop_result ::
    "'s async_io \<Rightarrow> nat option \<Rightarrow> (dispatcher \<times> 's) event_loop \<Rightarrow> nat \<times> dispatcher \<times> 's
     \<Rightarrow> (unit result \<times> nat \<times> dispatcher \<times> 's) option" where
  "loop_result io max_iterations lp \<sigma> =
     (case max_iterations of Some n \<Rightarrow> Some (async_loop_bounded io n lp \<sigma>)
                           | None \<Rightarrow> async_loop_unbounded io lp \<sigma>)"

lemma async_run_loop:
  "async_run io max_iterations lp \<sigma> =
     map_option (async_finally_close io lp) (loop_result io max_iterations lp \<sigma>)"
  by (simp add: async_run_def loop_result_def split: option.split)

lemma fragile_bounded: "fragile cancelled_error (async_loop_bounded io n)"
proof (induction n)
  case 0
  then show ?case by (auto simp: fragile_def)
next
  case (Suc n)
  have "fragile cancelled_error (co_bind (async_iterate io) (\<lambda>_. async_loop_bounded io n))"
    by (intro fragile_intros Suc.IH)
  then show ?case unfolding fragile_def by auto
qed

lemma fragile_unbounded:
  assumes "async_loop_unbounded io lp \<sigma> = Some y"
  shows "fst \<sigma> \<le> fst (snd y) \<and> (lp_interrupt lp m = Some (b, cancelled_error) \<longrightarrow> fst \<sigma> \<le> m \<longrightarrow>
    m < fst (snd y) \<longrightarrow> fst y = Inl cancelled_error \<and> fst (snd y) = Suc m)"
proof (rule async_loop_unbounded.raw_induct [OF _ assms])
  fix f :: "'a async_io \<Rightarrow> (dispatcher \<times> 'a) event_loop \<Rightarrow> nat \<times> dispatcher \<times> 'a
      \<Rightarrow> (unit result \<times> nat \<times> dispatcher \<times> 'a) option"
    and io lp \<sigma> y
  let ?P = "\<lambda>lp \<sigma> y. fst \<sigma> \<le> fst (snd y) \<and> (lp_interrupt lp m = Some (b, cancelled_error) \<longrightarrow>
    fst \<sigma> \<le> m \<longrightarrow> m < fst (snd y) \<longrightarrow> fst y = Inl cancelled_error \<and> fst (snd y) = Suc m)"
  assume IH: "\<And>io lp \<sigma> y. f io lp \<sigma> = Some y \<Longrightarrow> ?P lp \<sigma> y"
    and body: "(if aop_stop_is_set io (snd (snd \<sigma>)) then Some (Inr (), \<sigma>)
      else case async_iterate io lp \<sigma> of
        (Inl e, \<sigma>') \<Rightarrow> Some (Inl e, \<sigma>') | (Inr _, \<sigma>') \<Rightarrow> f io lp \<sigma>') = Some y"
  obtain r k s where i: "async_iterate io lp \<sigma> = (r, k, s)" by (metis surj_pair)
  then have "async_iterate io lp (fst \<sigma>, snd \<sigma>) = (r, k, s)" by simp
  note one = fragileD [OF fragile_iterate this]
  show "?P lp \<sigma> y"
  proof (cases "aop_stop_is_set io (snd (snd \<sigma>)) \<or> (\<exists>e. r = Inl e)")
    case True
    then have "y = (Inr (), \<sigma>) \<or> ((\<exists>e. r = Inl e) \<and> y = (r, k, s))"
      using body i by (auto split: if_splits)
    then show ?thesis using one by auto
  next
    case False
    then obtain u where r: "r = Inr u" by (cases r) auto
    then have "f io lp (k, s) = Some y" using body i False by simp
    note rest = IH [OF this]
    have "\<not> m < k" if "lp_interrupt lp m = Some (b, cancelled_error)" "fst \<sigma> \<le> m"
      using one(2) [OF that] r by auto
    then show ?thesis using one(1) rest by fastforce
  qed
qed

lemma loop_result_fragile:
  assumes "loop_result io max_iterations lp (k, s) = Some (r, k', s')"
    and "lp_interrupt lp m = Some (b, cancelled_error)" and "k \<le> m" and "m < k'"
  shows "r = Inl cancelled_error \<and> k' = Suc m"
proof (cases max_iterations)
  case None
  then show ?thesis using assms fragile_unbounded [of io lp "(k, s)" "(r, k', s')" m b]
    by (simp add: loop_result_def)
next
  case (Some n)
  then show ?thesis using assms fragileD(2) [OF fragile_bounded [of io n], of lp k s r k' s' m b]
    by (simp add: loop_result_def)
qed

text \<open>
  C27. Cancelling \<open>AsyncDispatcher.run\<close> ends it at once: when the \<open>CancelledError\<close> comes at an await of
  the loop, whichever it is, nothing is awaited after it but the backend's \<open>close\<close>; the run ends with
  an exception, and that is the cancellation itself unless \<open>close\<close> raises or is interrupted in turn.
\<close>

theorem cancellation_is_prompt:
  assumes "async_run io max_iterations lp (k, d, w) = Some (r, k', d', w')"
    and "lp_interrupt lp m = Some (b, cancelled_error)" and "k \<le> m" and "Suc m < k'"
  shows "k' = m + 2 \<and> (\<exists>e. r = Inl e) \<and>
    (lp_interrupt lp (Suc m) = None \<longrightarrow> (\<forall>w. fst (aop_close io w) = Inr ()) \<longrightarrow> r = Inl cancelled_error)"
proof -
  obtain x where x: "loop_result io max_iterations lp (k, d, w) = Some x"
    "(r, k', d', w') = async_finally_close io lp x"
    using assms(1) by (auto simp: async_run_loop)
  obtain q j s where q: "x = (q, j, s)" by (cases x)
  obtain c k1 s' where "await_world (aop_close io) lp (j, s) = (c, k1, s')" by (metis surj_pair)
  then have c: "await_world (aop_close io) lp (j, s) = (c, Suc j, s')"
    by (auto simp: co_await_def Let_def split: option.splits prod.splits)
  then have k': "k' = Suc j" and r: "r = (case c of Inl e \<Rightarrow> Inl e | Inr _ \<Rightarrow> q)"
    using x(2) q by (auto simp: async_finally_close_def split: sum.splits)
  have j: "q = Inl cancelled_error \<and> j = Suc m"
    using loop_result_fragile [OF x(1) [unfolded q] assms(2,3)] assms(4) k' by simp
  have "c = Inr ()" if "lp_interrupt lp (Suc m) = None" "\<forall>w. fst (aop_close io w) = Inr ()"
    using c j that by (auto simp: co_await_def on_world_def Let_def split: prod.splits) (metis fst_conv)
  then show ?thesis using k' r j by (cases c) auto
qed


definition cancelled_run :: "(unit result \<times> nat \<times> dispatcher \<times> world) option" where
  "cancelled_run = async_run (as_async (site_io calm_site)) (Some 1)
     (world_loop (\<lambda>_ w. w) (\<lambda>k. if k = 1 then Some (False, cancelled_error) else None))
     (0, sample_dispatcher, sample_world)"

text \<open>
  What it costs: cancelled between the claim of a batch and its first send, the dispatcher neither
  sends, releases nor remembers the batch, which waits for the dispatch timeout of the sweep.
\<close>

lemma cancelled_batch_waits_for_sweep:
  "case cancelled_run of None \<Rightarrow> False
   | Some (r, k, d, w) \<Rightarrow> isl r \<and> k = 3 \<and> pending_release d = [] \<and> w_sent w = [] \<and>
       map row_id (filter (\<lambda>x. status x = DISPATCHING) (w_db w)) = [''b'', ''c'']"
  by code_simp

theorem cancellation_is_prompt_witness:
  "\<exists>d w. cancelled_run = Some (Inl cancelled_error, 3, d, w) \<and> w_sent w = []"
proof -
  let ?lp = "world_loop (\<lambda>_ w. w) (\<lambda>k. if k = 1 then Some (False, cancelled_error) else None)"
  obtain r k d w where run: "cancelled_run = Some (r, k, d, w)" and k: "k = 3" and w: "w_sent w = []"
    using cancelled_batch_waits_for_sweep by (auto split: option.splits)
  have "\<forall>w. fst (aop_close (as_async (site_io calm_site)) w) = Inr ()"
    by (simp add: as_async_def site_io_def site_close_def Let_def)
  moreover have "lp_interrupt ?lp 1 = Some (False, cancelled_error)" "lp_interrupt ?lp (Suc 1) = None"
    by (simp_all add: world_loop_def)
  moreover have "0 \<le> (1::nat)" "Suc 1 < k" using k by simp_all
  ultimately have "r = Inl cancelled_error"
    using cancellation_is_prompt [OF run [unfolded cancelled_run_def]] by blast
  then show ?thesis using run k w by blast
qed

end
