(* ===== verification/Py_Io.thy ===== *)
theory Py_Io
  imports Py_Runtime
begin

text \<open>
  Statements with effects: a function from a state to a value or an exception and the new state,
  with \<open>try ... except\<close> and \<open>try ... finally\<close>.  Used where the code calls a driver, a framework or a
  registry step by step.
\<close>

type_synonym ('s, 'a) io = "'s \<Rightarrow> 'a result \<times> 's"

definition io_return :: "'a \<Rightarrow> ('s, 'a) io" where
  "io_return x s = (Inr x, s)"

definition io_raise :: "exn \<Rightarrow> ('s, 'a) io" where
  "io_raise e s = (Inl e, s)"

definition io_bind :: "('s, 'a) io \<Rightarrow> ('a \<Rightarrow> ('s, 'b) io) \<Rightarrow> ('s, 'b) io" where
  "io_bind m f s = (case m s of (Inl e, s') \<Rightarrow> (Inl e, s') | (Inr x, s') \<Rightarrow> f x s')"

definition io_get :: "('s \<Rightarrow> 'a) \<Rightarrow> ('s, 'a) io" where
  "io_get f s = (Inr (f s), s)"

definition io_put :: "('s \<Rightarrow> 's) \<Rightarrow> ('s, unit) io" where
  "io_put f s = (Inr (), f s)"

text \<open>\<open>try: m except E: h\<close>\<close>

definition io_except :: "(exn \<Rightarrow> bool) \<Rightarrow> ('s, 'a) io \<Rightarrow> (exn \<Rightarrow> ('s, 'a) io) \<Rightarrow> ('s, 'a) io" where
  "io_except catches m h s =
     (case m s of (Inl e, s') \<Rightarrow> if catches e then h e s' else (Inl e, s') | (Inr x, s') \<Rightarrow> (Inr x, s'))"

text \<open>\<open>try: m finally: f\<close>: an exception of \<open>f\<close> replaces the outcome of \<open>m\<close>.\<close>

definition io_finally :: "('s, 'a) io \<Rightarrow> ('s, unit) io \<Rightarrow> ('s, 'a) io" where
  "io_finally m f s =
     (let (r, s1) = m s in case f s1 of (Inl e, s2) \<Rightarrow> (Inl e, s2) | (Inr _, s2) \<Rightarrow> (r, s2))"

definition is_exception :: "exn \<Rightarrow> bool" where
  "is_exception e = isinstance e [ExceptionC]"

lemmas io_defs = io_return_def io_raise_def io_bind_def io_get_def io_put_def io_except_def io_finally_def

lemma io_bind_assoc: "io_bind (io_bind m f) g = io_bind m (\<lambda>x. io_bind (f x) g)"
  by (intro ext) (simp add: io_bind_def split: prod.split sum.split)

lemma io_bind_simps:
  "m s = (Inl e, s1) \<Longrightarrow> io_bind m f s = (Inl e, s1)"
  "m s = (Inr x, s1) \<Longrightarrow> io_bind m f s = f x s1"
  by (simp_all add: io_bind_def)

lemma io_except_simps:
  "m s = (Inl e, s1) \<Longrightarrow> catches e \<Longrightarrow> io_except catches m h s = h e s1"
  "m s = (Inl e, s1) \<Longrightarrow> \<not> catches e \<Longrightarrow> io_except catches m h s = (Inl e, s1)"
  "m s = (Inr x, s1) \<Longrightarrow> io_except catches m h s = (Inr x, s1)"
  by (simp_all add: io_except_def)

section \<open>What a statement keeps\<close>

text \<open>
  \<open>keeps_io R m\<close>: whatever \<open>m\<close> does, the states before and after are related; \<open>raises E m\<close>: what it
  raises is in \<open>E\<close>.
\<close>

named_theorems io_intros \<open>introduction rules for \<open>keeps_io\<close> and \<open>raises\<close>\<close>

definition keeps_io :: "('s \<Rightarrow> 's \<Rightarrow> bool) \<Rightarrow> ('s, 'a) io \<Rightarrow> bool" where
  "keeps_io R m \<longleftrightarrow> (\<forall>s r s'. m s = (r, s') \<longrightarrow> R s s')"

definition raises :: "(exn \<Rightarrow> bool) \<Rightarrow> ('s, 'a) io \<Rightarrow> bool" where
  "raises E m \<longleftrightarrow> (\<forall>s e s'. m s = (Inl e, s') \<longrightarrow> E e)"

lemma keepsIO: "keeps_io R m \<Longrightarrow> m s = (r, s') \<Longrightarrow> R s s'"
  by (simp add: keeps_io_def)

lemma raisesD: "raises E m \<Longrightarrow> m s = (Inl e, s') \<Longrightarrow> E e"
  unfolding raises_def by blast

lemma raises_return [io_intros]: "raises E (io_return x)"
  by (simp add: raises_def io_return_def)

lemma raises_get [io_intros]: "raises E (io_get f)"
  by (simp add: raises_def io_get_def)

lemma raises_put [io_intros]: "raises E (io_put f)"
  by (simp add: raises_def io_put_def)

lemma raises_raise [io_intros]: "E e \<Longrightarrow> raises E (io_raise e)"
  by (simp add: raises_def io_raise_def)

lemma raises_bind [io_intros]:
  "raises E m \<Longrightarrow> (\<And>x. raises E (f x)) \<Longrightarrow> raises E (io_bind m f)"
  unfolding raises_def io_bind_def by (auto split: prod.splits sum.splits)

lemma raises_except [io_intros]:
  "raises E' m \<Longrightarrow> (\<And>e. E' e \<Longrightarrow> \<not> catches e \<Longrightarrow> E e) \<Longrightarrow> (\<And>e. raises E (h e)) \<Longrightarrow>
   raises E (io_except catches m h)"
  unfolding raises_def io_except_def by (auto split: prod.splits sum.splits if_splits)

lemma raises_finally [io_intros]: "raises E m \<Longrightarrow> raises E f \<Longrightarrow> raises E (io_finally m f)"
  unfolding raises_def io_finally_def
  by (auto simp: Let_def split: prod.splits sum.splits) blast

lemma keeps_return: "reflp R \<Longrightarrow> keeps_io R (io_return x)"
  by (simp add: keeps_io_def io_return_def reflp_def)

lemma keeps_raise: "reflp R \<Longrightarrow> keeps_io R (io_raise e)"
  by (simp add: keeps_io_def io_raise_def reflp_def)

lemma keeps_get: "reflp R \<Longrightarrow> keeps_io R (io_get f)"
  by (simp add: keeps_io_def io_get_def reflp_def)

lemma keeps_bind:
  "transp R \<Longrightarrow> keeps_io R m \<Longrightarrow> (\<And>x. keeps_io R (f x)) \<Longrightarrow> keeps_io R (io_bind m f)"
  unfolding keeps_io_def io_bind_def
  by (auto split: prod.splits sum.splits) (meson transpE)

lemma keeps_except:
  "transp R \<Longrightarrow> keeps_io R m \<Longrightarrow> (\<And>e. keeps_io R (h e)) \<Longrightarrow> keeps_io R (io_except catches m h)"
  unfolding keeps_io_def io_except_def
  by (auto split: prod.splits sum.splits if_splits) (meson transpE)

lemma keeps_finally:
  "transp R \<Longrightarrow> keeps_io R m \<Longrightarrow> keeps_io R f \<Longrightarrow> keeps_io R (io_finally m f)"
  unfolding keeps_io_def io_finally_def
  by (auto simp: Let_def split: prod.splits sum.splits) (meson transpE)+

end
