(* ===== verification/Work_Listener.thy ===== *)
theory Work_Listener
  imports Py_Io Sa_Dispatch
begin

text \<open>
  The blocking LISTEN of \<open>src/dewey/listen_sync.py\<close> and the wake-up half of the two synchronous
  dispatch backends.

  The database driver is not under \<open>src\<close>: a record says which of psycopg's interfaces it has and what
  its \<open>k\<close>-th call does, whether it raises, how long it waits and whether a notification is there, all
  arbitrary functions of \<open>k\<close>.  \<open>net_live\<close> are the connections this process holds open outside any
  pool, \<open>net_time\<close> the seconds spent waiting.
\<close>

section \<open>The driver\<close>

record driver =
  drv_module :: string
  drv_has_notifies :: bool
  drv_notifies_callable :: bool
  drv_has_poll :: bool
  drv_stop_after :: bool   \<comment> \<open>\<open>notifies\<close> takes \<open>timeout\<close> and \<open>stop_after\<close>\<close>
  drv_raises :: "nat \<Rightarrow> exn option"
  drv_ready :: "nat \<Rightarrow> bool"
  drv_arrived :: "nat \<Rightarrow> nat"
  drv_elapsed :: "nat \<Rightarrow> rat"

record net =
  net_calls :: nat
  net_time :: rat
  net_live :: "nat list"
  net_next :: nat
  net_notifies :: nat   \<comment> \<open>the driver's buffer \<open>conn.notifies\<close>\<close>
  net_listens :: "(nat \<times> string) list"

definition drv_call :: "driver \<Rightarrow> (nat \<Rightarrow> 'z net_scheme \<Rightarrow> 'a \<times> 'z net_scheme) \<Rightarrow> ('z net_scheme, 'a) io" where
  "drv_call d f s =
     (let k = net_calls s; s1 = s\<lparr>net_calls := Suc k\<rparr>
      in case drv_raises d k of Some e \<Rightarrow> (Inl e, s1) | None \<Rightarrow> (let (x, s2) = f k s1 in (Inr x, s2)))"

text \<open>A call that waits up to \<open>t\<close> seconds for the socket.\<close>

definition drv_wait :: "driver \<Rightarrow> rat \<Rightarrow> ('z net_scheme, bool) io" where
  "drv_wait d t s =
     (let k = net_calls s;
          s1 = s\<lparr>net_calls := Suc k, net_time := net_time s + max 0 (min t (drv_elapsed d k))\<rparr>
      in case drv_raises d k of Some e \<Rightarrow> (Inl e, s1) | None \<Rightarrow> (Inr (drv_ready d k), s1))"

definition drv_connect :: "driver \<Rightarrow> ('z net_scheme, nat) io" where
  "drv_connect d = drv_call d (\<lambda>k s.
     (net_next s, s\<lparr>net_live := net_live s @ [net_next s], net_next := Suc (net_next s)\<rparr>))"

text \<open>Closing gives the connection up, also when it raises.\<close>

definition drv_close :: "driver \<Rightarrow> nat \<Rightarrow> ('z net_scheme, unit) io" where
  "drv_close d conn s =
     (let k = net_calls s; s1 = s\<lparr>net_calls := Suc k, net_live := removeAll conn (net_live s)\<rparr>
      in case drv_raises d k of Some e \<Rightarrow> (Inl e, s1) | None \<Rightarrow> (Inr (), s1))"

definition drv_execute :: "driver \<Rightarrow> nat \<Rightarrow> string \<Rightarrow> ('z net_scheme, unit) io" where
  "drv_execute d conn sql = drv_call d (\<lambda>k s. ((), s\<lparr>net_listens := net_listens s @ [(conn, sql)]\<rparr>))"

definition drv_touch :: "driver \<Rightarrow> ('z net_scheme, unit) io" where
  "drv_touch d = drv_call d (\<lambda>k s. ((), s))"

section \<open>The listener\<close>

datatype flavour = Psycopg2 | Psycopg3

record listener = net +
  l_conn :: "nat option"
  l_flavour :: "flavour option"

text \<open>\<open>'"' + name.replace('"', '""') + '"'\<close>\<close>

definition quote_identifier :: "string \<Rightarrow> string" where
  "quote_identifier name =
     CHR 0x22 # concat (map (\<lambda>c. if c = CHR 0x22 then [CHR 0x22, CHR 0x22] else [c]) name) @ [CHR 0x22]"

definition startswith :: "string \<Rightarrow> string \<Rightarrow> bool" where
  "startswith s p = (take (length p) s = p)"

definition detect_flavour :: "driver \<Rightarrow> flavour option" where
  "detect_flavour d =
     (if startswith (drv_module d) ''psycopg2'' then Some Psycopg2
      else if startswith (drv_module d) ''psycopg'' then Some Psycopg3
      else if drv_has_notifies d \<and> drv_notifies_callable d then Some Psycopg3
      else if drv_has_poll d \<and> drv_has_notifies d then Some Psycopg2
      else None)"

text \<open>\<open>conn.set_session(autocommit=True)\<close> or \<open>conn.autocommit = True\<close>, a call of the driver either way.\<close>

definition set_autocommit :: "driver \<Rightarrow> flavour \<Rightarrow> nat \<Rightarrow> ('z net_scheme, unit) io" where
  "set_autocommit d fl conn =
     (case fl of Psycopg2 \<Rightarrow> drv_touch d | Psycopg3 \<Rightarrow> drv_touch d)"

definition safe_close :: "driver \<Rightarrow> nat \<Rightarrow> ('z net_scheme, unit) io" where
  "safe_close d conn = io_except is_exception (drv_close d conn) (\<lambda>_. io_return ())"

definition listener_open ::
    "driver \<Rightarrow> ('z listener_scheme, nat) io \<Rightarrow> string \<Rightarrow> ('z listener_scheme, unit) io" where
  "listener_open d connect channel =
     io_bind (io_get l_conn) (\<lambda>held.
     if held \<noteq> None then io_return ()
     else
       io_bind connect (\<lambda>conn.
       io_except is_exception
         (let fl = detect_flavour d in
          io_bind (io_put (\<lambda>s. s\<lparr>l_flavour := fl\<rparr>)) (\<lambda>_.
          case fl of
            None \<Rightarrow> safe_close d conn
          | Some flav \<Rightarrow>
              io_bind (set_autocommit d flav conn) (\<lambda>_.
              io_bind (drv_touch d) (\<lambda>_.
              io_bind (io_finally (drv_execute d conn (''LISTEN '' @ quote_identifier channel))
                         (drv_touch d)) (\<lambda>_.
              io_put (\<lambda>s. s\<lparr>l_conn := Some conn\<rparr>))))))
         (\<lambda>e. io_bind (safe_close d conn) (\<lambda>_. io_raise e))))"

definition listener_close :: "driver \<Rightarrow> ('z listener_scheme, unit) io" where
  "listener_close d =
     io_bind (io_get l_conn) (\<lambda>held.
     case held of
       None \<Rightarrow> io_return ()
     | Some conn \<Rightarrow> io_bind (safe_close d conn) (\<lambda>_. io_put (\<lambda>s. s\<lparr>l_conn := None\<rparr>)))"

definition supported :: "'z listener_scheme \<Rightarrow> bool" where
  "supported s = (l_conn s \<noteq> None)"

text \<open>\<open>select.select([conn], [], [], timeout)\<close> refuses a negative timeout.\<close>

definition select_socket :: "driver \<Rightarrow> rat \<Rightarrow> ('z net_scheme, bool) io" where
  "select_socket d t =
     (if t < 0 then io_raise (py_exn ValueErrorC ''timeout must be non-negative'') else drv_wait d t)"

definition wait_psycopg2 :: "driver \<Rightarrow> rat \<Rightarrow> ('z net_scheme, bool) io" where
  "wait_psycopg2 d t =
     io_bind (select_socket d t) (\<lambda>ready.
     if \<not> ready then io_return False
     else
       io_bind (drv_call d (\<lambda>k s. ((), s\<lparr>net_notifies := net_notifies s + drv_arrived d k\<rparr>))) (\<lambda>_.
       io_bind (io_get (\<lambda>s. net_notifies s \<noteq> 0)) (\<lambda>received.
       io_bind (io_put (\<lambda>s. s\<lparr>net_notifies := 0\<rparr>)) (\<lambda>_. io_return received))))"

definition wait_psycopg3 :: "driver \<Rightarrow> rat \<Rightarrow> ('z net_scheme, bool) io" where
  "wait_psycopg3 d t =
     (if drv_stop_after d then drv_wait d t
      else io_bind (select_socket d t) (\<lambda>ready.
           if \<not> ready then io_return False
           else io_bind (drv_touch d) (\<lambda>_. io_return True)))"

definition listener_wait :: "driver \<Rightarrow> rat \<Rightarrow> ('z listener_scheme, bool) io" where
  "listener_wait d timeout =
     io_bind (io_get l_conn) (\<lambda>held.
     case held of
       None \<Rightarrow> io_return False
     | Some conn \<Rightarrow>
         io_except is_exception
           (io_bind (io_get l_flavour) (\<lambda>fl.
            if fl = Some Psycopg3 then wait_psycopg3 d timeout else wait_psycopg2 d timeout))
           (\<lambda>_. io_bind (listener_close d) (\<lambda>_. io_return False)))"

section \<open>The backends\<close>

record wake = listener +
  w_opened :: bool
  w_rows :: heartbeats

definition py_sleep :: "rat \<Rightarrow> ('z net_scheme, bool) io" where
  "py_sleep timeout = io_bind (io_put (\<lambda>s. s\<lparr>net_time := net_time s + max 0 timeout\<rparr>)) (\<lambda>_. io_return False)"

text \<open>SQLAlchemy: check a connection out of the pool, then detach it from the pool.\<close>

definition raw_connection :: "driver \<Rightarrow> ('z net_scheme, nat) io" where
  "raw_connection d = io_bind (drv_touch d) (\<lambda>_. drv_connect d)"

definition wait_for_work ::
    "driver \<Rightarrow> ('z wake_scheme, nat) io \<Rightarrow> string \<Rightarrow> rat \<Rightarrow> ('z wake_scheme, bool) io" where
  "wait_for_work d connect channel timeout =
     io_bind (io_get w_opened) (\<lambda>opened.
     io_bind (if opened then io_return ()
              else io_bind (io_put (\<lambda>s. s\<lparr>w_opened := True\<rparr>)) (\<lambda>_.
                   io_except is_exception (listener_open d connect channel) (\<lambda>_. io_return ()))) (\<lambda>_.
     io_bind (io_get supported) (\<lambda>sup.
     if sup then listener_wait d timeout else py_sleep timeout)))"

definition backend_close :: "driver \<Rightarrow> backend \<Rightarrow> ('z wake_scheme, unit) io" where
  "backend_close d b =
     io_bind (io_except is_exception
                (drv_call d (\<lambda>k s. ((), s\<lparr>w_rows := close_heartbeat True b (w_rows s)\<rparr>)))
                (\<lambda>_. io_return ())) (\<lambda>_.
     listener_close d)"

text \<open>Django opens a second connection from its connection parameters.\<close>

definition django_raw_connection :: "driver \<Rightarrow> ('z net_scheme, nat) io" where
  "django_raw_connection d = drv_connect d"

definition django_wait_for_work ::
    "driver \<Rightarrow> ('z wake_scheme, nat) io \<Rightarrow> string \<Rightarrow> rat \<Rightarrow> ('z wake_scheme, bool) io" where
  "django_wait_for_work d connect channel timeout =
     io_bind (io_get w_opened) (\<lambda>opened.
     io_bind (if opened then io_return ()
              else io_bind (io_put (\<lambda>s. s\<lparr>w_opened := True\<rparr>)) (\<lambda>_.
                   io_except is_exception (listener_open d connect channel) (\<lambda>_. io_return ()))) (\<lambda>_.
     io_bind (io_get supported) (\<lambda>sup.
     if sup then listener_wait d timeout
     else io_bind (io_put (\<lambda>s. s\<lparr>net_time := net_time s + max 0 timeout\<rparr>)) (\<lambda>_. io_return False))))"

definition django_backend_close :: "driver \<Rightarrow> backend \<Rightarrow> ('z wake_scheme, unit) io" where
  "django_backend_close d b =
     io_bind (io_except is_exception
                (drv_call d (\<lambda>k s. ((), s\<lparr>w_rows :=
                   delete_where (\<lambda>h. hb_instance_id h = b_instance_id b) (w_rows s)\<rparr>)))
                (\<lambda>_. io_return ())) (\<lambda>_.
     listener_close d)"

lemma django_wakes_alike:
  "django_wait_for_work d connect channel t = wait_for_work d connect channel t"
  "django_backend_close d b = backend_close d b"
  unfolding django_wait_for_work_def wait_for_work_def py_sleep_def django_backend_close_def
    backend_close_def close_heartbeat_def by simp_all

end
