(* ===== verification/Listener_Properties.thy ===== *)
theory Listener_Properties
  imports Work_Listener
begin

text \<open>
  The LISTEN connection as a resource: a backend holds at most one, gives it up when it fails, and
  never waits longer than it was asked to.
\<close>

section \<open>One call at a time\<close>

text \<open>The driver raises only \<open>Exception\<close>s.\<close>

definition polite :: "driver \<Rightarrow> bool" where
  "polite d \<longleftrightarrow> (\<forall>k e. drv_raises d k = Some e \<longrightarrow> is_exception e)"

lemma politeD: "polite d \<Longrightarrow> drv_raises d k = Some e \<Longrightarrow> is_exception e"
  unfolding polite_def by blast

text \<open>The connections a state holds and whether it is listening.\<close>

definition same_holdings :: "'z wake_scheme \<Rightarrow> 'z wake_scheme \<Rightarrow> bool" where
  "same_holdings s s' \<longleftrightarrow> net_live s' = net_live s \<and> net_next s' = net_next s \<and> l_conn s' = l_conn s \<and>
     w_opened s' = w_opened s \<and> set (net_listens s) \<subseteq> set (net_listens s')"

lemma holdings_order: "reflp same_holdings" "transp same_holdings"
  unfolding same_holdings_def by (auto simp: reflp_def transp_def)

lemmas holdings_intros = keeps_return [OF holdings_order(1)] keeps_raise [OF holdings_order(1)]
  keeps_get [OF holdings_order(1)] keeps_bind [OF holdings_order(2)] keeps_except [OF holdings_order(2)]
  keeps_finally [OF holdings_order(2)]

lemma holdings_calls:
  "keeps_io same_holdings (drv_touch d)"
  "keeps_io same_holdings (drv_wait d t)"
  "keeps_io same_holdings (drv_execute d c sql)"
  "keeps_io same_holdings (drv_call d (\<lambda>k s. ((), s\<lparr>net_notifies := f k s\<rparr>)))"
  "keeps_io same_holdings (io_put (\<lambda>s. s\<lparr>net_notifies := n\<rparr>))"
  "keeps_io same_holdings (io_put (\<lambda>s. s\<lparr>l_flavour := fl\<rparr>))"
  "keeps_io same_holdings (io_put (\<lambda>s. s\<lparr>net_time := g s\<rparr>))"
  "keeps_io same_holdings (drv_call d (\<lambda>k s. ((), s\<lparr>w_rows := h s\<rparr>)))"
  by (auto simp: keeps_io_def same_holdings_def drv_touch_def drv_wait_def drv_execute_def drv_call_def
      io_put_def Let_def split: option.splits)

lemma holdings_waits:
  "keeps_io same_holdings (wait_psycopg2 d t)" "keeps_io same_holdings (wait_psycopg3 d t)"
  "keeps_io same_holdings (set_autocommit d fl c)" "keeps_io same_holdings (py_sleep t)"
  unfolding wait_psycopg2_def wait_psycopg3_def select_socket_def set_autocommit_def py_sleep_def
  by (auto intro!: holdings_intros holdings_calls split: flavour.split)

lemma safe_close_runs:
  assumes "polite d"
  shows "\<exists>s'. safe_close d c s = (Inr (), s') \<and> net_live s' = removeAll c (net_live s) \<and>
    net_next s' = net_next s \<and> l_conn s' = l_conn s \<and> w_opened s' = w_opened s \<and>
    net_time s' = net_time s \<and> net_listens s' = net_listens s"
  using politeD [OF assms]
  by (auto simp: safe_close_def io_except_def drv_close_def io_return_def Let_def split: option.split)

lemma listener_close_runs:
  assumes "polite d"
  shows "\<exists>s'. listener_close d s = (Inr (), s') \<and> l_conn s' = None \<and>
    net_live s' = (case l_conn s of None \<Rightarrow> net_live s | Some c \<Rightarrow> removeAll c (net_live s)) \<and>
    net_next s' = net_next s \<and> w_opened s' = w_opened s \<and> net_time s' = net_time s \<and>
    net_listens s' = net_listens s"
proof (cases "l_conn s")
  case None
  then show ?thesis by (simp add: listener_close_def io_bind_def io_get_def io_return_def)
next
  case (Some c)
  from safe_close_runs [OF assms, of c s] obtain s1 where s1: "safe_close d c s = (Inr (), s1)"
    "net_live s1 = removeAll c (net_live s)" "net_next s1 = net_next s" "w_opened s1 = w_opened s"
    "net_time s1 = net_time s" "net_listens s1 = net_listens s" by blast
  then show ?thesis
    using Some by (simp add: listener_close_def io_bind_def io_get_def io_put_def)
qed

section \<open>Opening\<close>

abbreviation listen_statement :: "string \<Rightarrow> string" where
  "listen_statement channel \<equiv> ''LISTEN '' @ quote_identifier channel"

text \<open>The statements between connecting and holding the connection.\<close>

definition start_listening :: "driver \<Rightarrow> flavour \<Rightarrow> nat \<Rightarrow> string \<Rightarrow> ('z listener_scheme, unit) io" where
  "start_listening d fl conn channel =
     io_bind (set_autocommit d fl conn) (\<lambda>_.
     io_bind (drv_touch d) (\<lambda>_.
     io_finally (drv_execute d conn (listen_statement channel)) (drv_touch d)))"

lemma listening_started:
  fixes s s' :: "'z wake_scheme"
  assumes "polite d" and "start_listening d fl c ch s = (r, s')"
  shows "net_live s' = net_live s \<and> net_next s' = net_next s \<and> l_conn s' = l_conn s \<and>
    w_opened s' = w_opened s \<and> net_time s' = net_time s \<and> set (net_listens s) \<subseteq> set (net_listens s') \<and>
    (\<forall>e. r = Inl e \<longrightarrow> is_exception e) \<and>
    (r = Inr () \<longrightarrow> (c, listen_statement ch) \<in> set (net_listens s'))"
  using assms(2) politeD [OF assms(1)]
  by (auto simp: start_listening_def set_autocommit_def io_bind_def io_finally_def drv_touch_def
      drv_execute_def drv_call_def Let_def split: flavour.splits option.splits)


lemma listener_open_eq:
  "listener_open d connect channel =
     io_bind (io_get l_conn) (\<lambda>held.
     if held \<noteq> None then io_return ()
     else
       io_bind connect (\<lambda>conn.
       io_except is_exception
         (io_bind (io_put (\<lambda>s. s\<lparr>l_flavour := detect_flavour d\<rparr>)) (\<lambda>_.
          case detect_flavour d of
            None \<Rightarrow> safe_close d conn
          | Some fl \<Rightarrow> io_bind (start_listening d fl conn channel) (\<lambda>_.
              io_put (\<lambda>s. s\<lparr>l_conn := Some conn\<rparr>))))
         (\<lambda>e. io_bind (safe_close d conn) (\<lambda>_. io_raise e))))"
  unfolding listener_open_def start_listening_def Let_def io_bind_assoc ..

lemma listener_open_runs:
  fixes s :: "'z wake_scheme"
  assumes d: "polite d" and s: "l_conn s = None" and c: "connect s = (Inr c, s1)"
    and s1: "l_conn s1 = None"
  shows "\<exists>r s'. listener_open d connect ch s = (r, s') \<and> (\<forall>e. r = Inl e \<longrightarrow> is_exception e) \<and>
    net_next s' = net_next s1 \<and> w_opened s' = w_opened s1 \<and> net_time s' = net_time s1 \<and>
    ((l_conn s' = Some c \<and> net_live s' = net_live s1 \<and> (c, listen_statement ch) \<in> set (net_listens s')) \<or>
     (l_conn s' = None \<and> net_live s' = removeAll c (net_live s1)))"
proof -
  let ?body = "io_bind (io_put (\<lambda>s. s\<lparr>l_flavour := detect_flavour d\<rparr>)) (\<lambda>_.
          case detect_flavour d of
            None \<Rightarrow> safe_close d c
          | Some fl \<Rightarrow> io_bind (start_listening d fl c ch) (\<lambda>_.
              io_put (\<lambda>s. s\<lparr>l_conn := Some c\<rparr>))) :: ('z wake_scheme, unit) io"
  have run: "listener_open d connect ch s =
      io_except is_exception ?body (\<lambda>e. io_bind (safe_close d c) (\<lambda>_. io_raise e)) s1"
    unfolding listener_open_eq using s c by (simp add: io_bind_def io_get_def)
  let ?s2 = "s1\<lparr>l_flavour := detect_flavour d\<rparr>"
  show ?thesis
  proof (cases "detect_flavour d")
    case None
    obtain s3 where "safe_close d c ?s2 = (Inr (), s3)" "net_live s3 = removeAll c (net_live s1)"
      "net_next s3 = net_next s1" "l_conn s3 = None" "w_opened s3 = w_opened s1" "net_time s3 = net_time s1"
      using safe_close_runs [OF d, of c ?s2] s1 by auto
    then show ?thesis
      unfolding run using None by (simp add: io_except_def io_bind_def io_put_def)
  next
    case (Some fl)
    obtain r s3 where st: "start_listening d fl c ch ?s2 = (r, s3)" by (metis surj_pair)
    note p = listening_started [OF d st]
    show ?thesis
    proof (cases r)
      case (Inr u)
      then show ?thesis
        unfolding run using Some st p by (simp add: io_except_def io_bind_def io_put_def)
    next
      case (Inl e)
      obtain s4 where "safe_close d c s3 = (Inr (), s4)" "net_live s4 = removeAll c (net_live s3)"
        "net_next s4 = net_next s3" "l_conn s4 = l_conn s3" "w_opened s4 = w_opened s3"
        "net_time s4 = net_time s3"
        using safe_close_runs [OF d, of c s3] by auto
      then show ?thesis
        unfolding run using Some st p Inl s1
        by (simp add: io_except_def io_bind_def io_put_def io_raise_def)
    qed
  qed
qed


lemma raw_connection_runs:
  fixes s :: "'z wake_scheme"
  assumes d: "polite d" and raw: "raw = raw_connection d \<or> raw = django_raw_connection d"
  obtains (opened) s1 where "raw s = (Inr (net_next s), s1)" "net_live s1 = net_live s @ [net_next s]"
      "net_next s1 = Suc (net_next s)" "l_conn s1 = l_conn s" "w_opened s1 = w_opened s"
      "net_time s1 = net_time s"
    | (failed) e s1 where "raw s = (Inl e, s1)" "is_exception e" "net_live s1 = net_live s"
      "net_next s1 = net_next s" "l_conn s1 = l_conn s" "w_opened s1 = w_opened s"
      "net_time s1 = net_time s"
proof -
  obtain r s1 where r: "raw s = (r, s1)" by (metis surj_pair)
  note defs = raw_connection_def django_raw_connection_def drv_connect_def drv_touch_def
    drv_call_def io_bind_def Let_def
  show thesis
  proof (cases r)
    case (Inl e)
    then have "is_exception e \<and> net_live s1 = net_live s \<and> net_next s1 = net_next s \<and>
        l_conn s1 = l_conn s \<and> w_opened s1 = w_opened s \<and> net_time s1 = net_time s"
      using raw r politeD [OF d] by (auto simp: defs split: option.splits)
    then show thesis using failed [of e s1] r Inl by simp
  next
    case (Inr c)
    then have "c = net_next s \<and> net_live s1 = net_live s @ [net_next s] \<and>
        net_next s1 = Suc (net_next s) \<and> l_conn s1 = l_conn s \<and> w_opened s1 = w_opened s \<and>
        net_time s1 = net_time s"
      using raw r by (auto simp: defs split: option.splits)
    then show thesis using opened [of s1] r Inr by simp
  qed
qed

section \<open>Waiting\<close>

lemma wait_raises: "polite d \<Longrightarrow> raises is_exception (drv_wait d t)" "polite d \<Longrightarrow> raises is_exception (drv_touch d)"
  "polite d \<Longrightarrow> raises is_exception (drv_call d (\<lambda>k s. ((), f k s)))"
  "raises is_exception (select_socket d t) \<or> \<not> polite d"
  by (auto simp: raises_def drv_wait_def drv_touch_def drv_call_def select_socket_def io_raise_def
      is_exception_def isinstance_def Let_def split: option.splits if_splits dest: politeD)

lemma psycopg_raises:
  assumes "polite d"
  shows "raises is_exception (wait_psycopg2 d t)" "raises is_exception (wait_psycopg3 d t)"
  unfolding wait_psycopg2_def wait_psycopg3_def
  using assms wait_raises(4) [of d t]
  by (auto intro!: io_intros wait_raises)

text \<open>How long a call waits.\<close>

definition timely :: "rat \<Rightarrow> 'z net_scheme \<Rightarrow> 'z net_scheme \<Rightarrow> bool" where
  "timely t s s' \<longleftrightarrow> net_time s \<le> net_time s' \<and> net_time s' \<le> net_time s + max 0 t"

lemma psycopg_timely:
  "keeps_io (timely t) (wait_psycopg2 d t)" "keeps_io (timely t) (wait_psycopg3 d t)"
  by (auto simp: keeps_io_def timely_def wait_psycopg2_def wait_psycopg3_def select_socket_def
      drv_wait_def drv_call_def drv_touch_def io_defs Let_def split: option.splits if_splits)

lemma listener_wait_runs:
  fixes s :: "'z wake_scheme"
  assumes d: "polite d" and c: "l_conn s = Some c"
  shows "\<exists>b s'. listener_wait d t s = (Inr b, s') \<and> timely t s s' \<and> net_next s' = net_next s \<and>
    w_opened s' = w_opened s \<and> set (net_listens s) \<subseteq> set (net_listens s') \<and>
    ((l_conn s' = Some c \<and> net_live s' = net_live s) \<or>
     (\<not> b \<and> l_conn s' = None \<and> net_live s' = removeAll c (net_live s)))"
proof -
  let ?m = "if l_flavour s = Some Psycopg3 then wait_psycopg3 d t else wait_psycopg2 d t"
  obtain r s1 where m: "?m s = (r, s1)" by (metis surj_pair)
  have h: "same_holdings s s1" "timely t s s1"
    using m holdings_waits(1,2) [of d t] psycopg_timely [of t d]
    by (auto dest: keepsIO split: if_splits)
  have run: "listener_wait d t s =
      io_except is_exception (io_bind (io_get l_flavour) (\<lambda>fl.
        if fl = Some Psycopg3 then wait_psycopg3 d t else wait_psycopg2 d t))
        (\<lambda>_. io_bind (listener_close d) (\<lambda>_. io_return False)) s"
    using c by (simp add: listener_wait_def io_bind_def io_get_def)
  have body: "io_bind (io_get l_flavour) (\<lambda>fl.
        if fl = Some Psycopg3 then wait_psycopg3 d t else wait_psycopg2 d t) s = (r, s1)"
    using m by (simp add: io_bind_def io_get_def)
  show ?thesis
  proof (cases r)
    case (Inr b)
    then show ?thesis
      unfolding run using body h c by (simp add: io_except_def same_holdings_def)
  next
    case (Inl e)
    then have "is_exception e"
      using m psycopg_raises [OF d, of t] by (auto dest: raisesD split: if_splits)
    moreover obtain s2 where "listener_close d s1 = (Inr (), s2)" "l_conn s2 = None"
      "net_live s2 = removeAll c (net_live s1)" "net_next s2 = net_next s1" "w_opened s2 = w_opened s1"
      "net_time s2 = net_time s1" "net_listens s2 = net_listens s1"
      using listener_close_runs [OF d, of s1] h(1) c by (auto simp: same_holdings_def)
    ultimately show ?thesis
      unfolding run using body h Inl
      by (intro exI [of _ False] exI [of _ s2])
        (simp add: io_except_simps io_bind_simps io_return_def same_holdings_def timely_def)
  qed
qed


section \<open>The life of a backend\<close>

text \<open>
  What a backend holds between two calls, over the connections \<open>L\<close> the process held before it: nothing
  more, or one connection that listens on the channel.
\<close>

definition holds_one :: "nat list \<Rightarrow> nat \<Rightarrow> string \<Rightarrow> 'z wake_scheme \<Rightarrow> bool" where
  "holds_one L n ch s \<longleftrightarrow>
     net_live s = L @ (case l_conn s of None \<Rightarrow> [] | Some c \<Rightarrow> [c]) \<and> net_next s \<le> Suc n \<and>
     (\<forall>c. l_conn s = Some c \<longrightarrow> c = n \<and> (c, listen_statement ch) \<in> set (net_listens s)) \<and>
     (\<not> w_opened s \<longrightarrow> l_conn s = None \<and> net_next s = n)"

lemma removeAll_fresh:
  fixes L :: "nat list"
  assumes "\<forall>c \<in> set L. c < n" shows "removeAll n (L @ [n]) = L"
proof -
  have "n \<notin> set L" using assms by auto
  then show ?thesis by simp
qed

lemma opening_phase:
  fixes s :: "'z wake_scheme"
  assumes d: "polite d" and raw: "raw = raw_connection d \<or> raw = django_raw_connection d"
    and L: "\<forall>c \<in> set L. c < n" and h: "holds_one L n ch s"
  shows "\<exists>s1. (if w_opened s then io_return ()
              else io_bind (io_put (\<lambda>s. s\<lparr>w_opened := True\<rparr>)) (\<lambda>_.
                   io_except is_exception (listener_open d raw ch) (\<lambda>_. io_return ()))) s = (Inr (), s1) \<and>
    holds_one L n ch s1 \<and> net_time s1 = net_time s \<and> w_opened s1"
proof (cases "w_opened s")
  case True
  then show ?thesis using h by (simp add: io_return_def)
next
  case False
  let ?s0 = "s\<lparr>w_opened := True\<rparr>"
  have 0: "l_conn s = None" "net_next s = n" "net_live s = L"
    using h False by (auto simp: holds_one_def)
  have s0: "l_conn ?s0 = None" using 0 by simp
  show ?thesis
  proof (cases rule: raw_connection_runs [OF d raw, of ?s0, case_names opened failed])
    case (opened s1)
    have "l_conn s1 = None" using opened 0 by simp
    from listener_open_runs [where connect = raw and ch = ch, OF d s0 opened(1) this]
    obtain r s' where o: "listener_open d raw ch ?s0 = (r, s')" "\<And>e. r = Inl e \<Longrightarrow> is_exception e"
      "net_next s' = net_next s1" "w_opened s' = w_opened s1" "net_time s' = net_time s1"
      "(l_conn s' = Some n \<and> net_live s' = net_live s1 \<and> (n, listen_statement ch) \<in> set (net_listens s')) \<or>
       (l_conn s' = None \<and> net_live s' = removeAll n (net_live s1))"
      using 0 by auto
    have "holds_one L n ch s' \<and> net_time s' = net_time s \<and> w_opened s'"
      using o opened 0 removeAll_fresh [OF L] by (auto simp: holds_one_def)
    then show ?thesis
      using False o(1,2) by (cases r) (auto simp: io_bind_def io_put_def io_except_def io_return_def)
  next
    case (failed e s1)
    have "listener_open d raw ch ?s0 = (Inl e, s1)"
      unfolding listener_open_def using failed(1) 0 by (simp add: io_bind_def io_get_def)
    then show ?thesis
      using False failed 0 by (auto simp: io_bind_def io_put_def io_except_def io_return_def holds_one_def)
  qed
qed

lemma wait_for_work_runs:
  fixes s :: "'z wake_scheme"
  assumes d: "polite d" and raw: "raw = raw_connection d \<or> raw = django_raw_connection d"
    and L: "\<forall>c \<in> set L. c < n" and h: "holds_one L n ch s"
  shows "\<exists>b s'. wait_for_work d raw ch t s = (Inr b, s') \<and> holds_one L n ch s' \<and> timely t s s' \<and>
    w_opened s' \<and> (b \<longrightarrow> supported s')"
proof -
  obtain s1 where o: "(if w_opened s then io_return ()
              else io_bind (io_put (\<lambda>s. s\<lparr>w_opened := True\<rparr>)) (\<lambda>_.
                   io_except is_exception (listener_open d raw ch) (\<lambda>_. io_return ()))) s = (Inr (), s1)"
    and 1: "holds_one L n ch s1" "net_time s1 = net_time s" "w_opened s1"
    using opening_phase [OF assms] by blast
  have run: "wait_for_work d raw ch t s =
      (if supported s1 then listener_wait d t else py_sleep t) s1"
    unfolding wait_for_work_def using o by (simp add: io_bind_def io_get_def)
  show ?thesis
  proof (cases "l_conn s1")
    case None
    then show ?thesis
      unfolding run using 1
      by (intro exI [of _ False])
        (simp add: supported_def py_sleep_def io_bind_def io_put_def io_return_def holds_one_def
          timely_def)
  next
    case (Some c)
    then have c: "c = n" "net_live s1 = L @ [n]" using 1(1) by (auto simp: holds_one_def)
    obtain b s' where w: "listener_wait d t s1 = (Inr b, s')" "timely t s1 s'" "net_next s' = net_next s1"
      "w_opened s' = w_opened s1" "set (net_listens s1) \<subseteq> set (net_listens s')"
      "(l_conn s' = Some c \<and> net_live s' = net_live s1) \<or>
       (\<not> b \<and> l_conn s' = None \<and> net_live s' = removeAll c (net_live s1))"
      using listener_wait_runs [OF d Some, of t] by blast
    have "holds_one L n ch s'"
      using 1(1) w c Some removeAll_fresh [OF L] by (auto simp: holds_one_def)
    then show ?thesis
      unfolding run using w 1(2,3) Some by (auto simp: supported_def timely_def)
  qed
qed

lemma backend_close_runs:
  fixes s :: "'z wake_scheme"
  assumes d: "polite d" and L: "\<forall>c \<in> set L. c < n" and h: "holds_one L n ch s"
  shows "\<exists>s'. backend_close d b s = (Inr (), s') \<and> holds_one L n ch s' \<and> l_conn s' = None"
proof -
  let ?del = "drv_call d (\<lambda>k s. ((), s\<lparr>w_rows := close_heartbeat True b (w_rows s)\<rparr>))"
  obtain s1 where s1: "io_except is_exception ?del (\<lambda>_. io_return ()) s = (Inr (), s1)"
    "same_holdings s s1"
    using politeD [OF d, of "net_calls s"]
    by (cases "drv_raises d (net_calls s)")
      (auto simp: io_except_def drv_call_def io_return_def same_holdings_def Let_def)
  obtain s2 where s2: "listener_close d s1 = (Inr (), s2)" "l_conn s2 = None"
    "net_live s2 = (case l_conn s1 of None \<Rightarrow> net_live s1 | Some c \<Rightarrow> removeAll c (net_live s1))"
    "net_next s2 = net_next s1" "w_opened s2 = w_opened s1"
    using listener_close_runs [OF d, of s1] by blast
  have "holds_one L n ch s2"
    using h s1(2) s2 removeAll_fresh [OF L]
    by (auto simp: holds_one_def same_holdings_def split: option.splits)
  then show ?thesis
    unfolding backend_close_def using s1(1) s2(1,2) by (simp add: io_bind_simps)
qed


text \<open>Any sequence of waits and closes.\<close>

inductive backend_step ::
    "driver \<Rightarrow> (wake, nat) io \<Rightarrow> string \<Rightarrow> backend \<Rightarrow> wake \<Rightarrow> wake \<Rightarrow> bool"
  for d raw channel b where
  Wait: "wait_for_work d raw channel t s = (r, s') \<Longrightarrow> backend_step d raw channel b s s'"
| Close: "backend_close d b s = (r, s') \<Longrightarrow> backend_step d raw channel b s s'"

lemma backend_steps_hold:
  assumes d: "polite d" and raw: "raw = raw_connection d \<or> raw = django_raw_connection d"
    and L: "\<forall>c \<in> set L. c < n" and "(backend_step d raw ch b)\<^sup>*\<^sup>* s s'" and "holds_one L n ch s"
  shows "holds_one L n ch s'"
  using assms(4,5)
proof induction
  case (step s1 s2)
  from step.hyps(2) step.IH [OF step.prems] show ?case
  proof cases
    case (Wait t r)
    then show ?thesis
      using wait_for_work_runs [OF d raw L step.IH [OF step.prems], of t] by auto
  next
    case (Close r)
    then show ?thesis
      using backend_close_runs [OF d L step.IH [OF step.prems], of b] by auto
  qed
qed

definition fresh_backend :: "wake \<Rightarrow> bool" where
  "fresh_backend s \<longleftrightarrow> l_conn s = None \<and> \<not> w_opened s \<and> (\<forall>c \<in> set (net_live s). c < net_next s)"

text \<open>How PostgreSQL reads the rest of a quoted identifier, after its opening quote.\<close>

fun read_quoted :: "string \<Rightarrow> (string \<times> string) option" where
  "read_quoted [] = None"
| "read_quoted (c # cs) =
     (if c = CHR 0x22
      then (case cs of
              [] \<Rightarrow> Some ([], [])
            | c' # cs' \<Rightarrow>
                if c' = CHR 0x22 then map_option (apfst ((#) CHR 0x22)) (read_quoted cs')
                else Some ([], cs))
      else map_option (apfst ((#) c)) (read_quoted cs))"

lemma read_quote_identifier: "read_quoted (tl (quote_identifier name)) = Some (name, [])"
proof -
  have "read_quoted (concat (map (\<lambda>c. if c = CHR 0x22 then [CHR 0x22, CHR 0x22] else [c]) name) @ [CHR 0x22])
      = Some (name, [])"
    by (induction name) auto
  then show ?thesis by (simp add: quote_identifier_def)
qed

section \<open>A sample driver\<close>

text \<open>A psycopg3 connection whose third call, setting autocommit, or whose waits fail.\<close>

definition sample_driver :: "nat \<Rightarrow> driver" where
  "sample_driver n = \<lparr>drv_module = ''psycopg'', drv_has_notifies = True, drv_notifies_callable = True,
     drv_has_poll = False, drv_stop_after = True,
     drv_raises = (\<lambda>k. if k = n then Some (py_exn (UserC ''OperationalError'' [ExceptionC]) ''gone'') else None),
     drv_ready = (\<lambda>_. True), drv_arrived = (\<lambda>_. 1), drv_elapsed = (\<lambda>_. 1 / 2)\<rparr>"

definition sample_wake :: wake where
  "sample_wake = \<lparr>net_calls = 0, net_time = 0, net_live = [0, 1], net_next = 2, net_notifies = 0,
     net_listens = [], l_conn = None, l_flavour = None, w_opened = False, w_rows = []\<rparr>"

lemma sample_driver_polite: "polite (sample_driver n)"
  by (simp add: polite_def sample_driver_def is_exception_def isinstance_def py_exn_def)

lemma sample_wake_fresh: "fresh_backend sample_wake"
  by (auto simp: fresh_backend_def sample_wake_def)

lemma sample_wait:
  "(backend_step d raw channel b)\<^sup>*\<^sup>* s (snd (wait_for_work d raw channel t s))"
  by (rule r_into_rtranclp, rule backend_step.Wait [of _ _ _ t _ "fst (wait_for_work d raw channel t s)"]) simp

section \<open>Properties\<close>

text \<open>
  C22. A dispatch backend never leaks a connection.  After any sequence of waits and closes, whatever
  the driver does and whenever it raises, the connections the process holds are those it held before
  the backend was used, and at most one more; that one has executed \<open>LISTEN\<close> on the channel, as an
  identifier that reads back as the channel's name whatever characters it has; at most one connection
  was ever opened; and after \<open>close\<close> there is none.
\<close>

theorem listener_never_leaks:
  assumes "polite d" and "raw = raw_connection d \<or> raw = django_raw_connection d"
    and "fresh_backend s" and "(backend_step d raw channel b)\<^sup>*\<^sup>* s s'"
  shows "net_live s' = net_live s @ (case l_conn s' of None \<Rightarrow> [] | Some c \<Rightarrow> [c]) \<and>
    net_next s' \<le> Suc (net_next s) \<and>
    (\<forall>c. l_conn s' = Some c \<longrightarrow> (\<exists>sql. (c, ''LISTEN '' @ CHR 0x22 # sql) \<in> set (net_listens s') \<and>
       read_quoted sql = Some (channel, []))) \<and>
    (\<exists>s2. backend_close d b s' = (Inr (), s2) \<and> net_live s2 = net_live s)"
proof -
  have L: "\<forall>c \<in> set (net_live s). c < net_next s" using assms(3) by (simp add: fresh_backend_def)
  have "holds_one (net_live s) (net_next s) channel s"
    using assms(3) by (simp add: fresh_backend_def holds_one_def)
  from backend_steps_hold [OF assms(1,2) L assms(4) this]
  have h: "holds_one (net_live s) (net_next s) channel s'" .
  obtain s2 where "backend_close d b s' = (Inr (), s2)" "net_live s2 = net_live s"
    using backend_close_runs [OF assms(1) L h, of b] by (auto simp: holds_one_def)
  moreover have "\<exists>sql. (c, ''LISTEN '' @ CHR 0x22 # sql) \<in> set (net_listens s') \<and>
      read_quoted sql = Some (channel, [])" if "l_conn s' = Some c" for c
  proof (intro exI conjI)
    have q: "listen_statement channel = ''LISTEN '' @ CHR 0x22 # tl (quote_identifier channel)"
      by (simp add: quote_identifier_def)
    have "(c, listen_statement channel) \<in> set (net_listens s')"
      using h that unfolding holds_one_def by blast
    then show "(c, ''LISTEN '' @ CHR 0x22 # tl (quote_identifier channel)) \<in> set (net_listens s')"
      unfolding q .
  qed (rule read_quote_identifier)
  ultimately show ?thesis using h unfolding holds_one_def by blast
qed

theorem listener_never_leaks_witness:
  "l_conn (snd (wait_for_work (sample_driver 9) (raw_connection (sample_driver 9)) ''it\"s'' 5 sample_wake)) = Some 2 \<and>
   net_live (snd (wait_for_work (sample_driver 9) (raw_connection (sample_driver 9)) ''it\"s'' 5 sample_wake)) = [0, 1, 2] \<and>
   net_live (snd (wait_for_work (sample_driver 2) (raw_connection (sample_driver 2)) ''it\"s'' 5 sample_wake)) = [0, 1]"
proof -
  have c: "l_conn (snd (wait_for_work (sample_driver 9) (raw_connection (sample_driver 9)) ''it\"s'' 5 sample_wake)) = Some 2"
    "l_conn (snd (wait_for_work (sample_driver 2) (raw_connection (sample_driver 2)) ''it\"s'' 5 sample_wake)) = None"
    by code_simp+
  have "net_live sample_wake = [0, 1]" by (simp add: sample_wake_def)
  then show ?thesis
    using listener_never_leaks [where channel = "''it\"s''" and b = undefined,
        OF sample_driver_polite disjI1 [OF refl] sample_wake_fresh sample_wait [where t = 5], of 9]
      listener_never_leaks [where channel = "''it\"s''" and b = undefined,
        OF sample_driver_polite disjI1 [OF refl] sample_wake_fresh sample_wait [where t = 5], of 2] c
    by simp
qed

text \<open>
  \<open>wait_for_work\<close> is bounded and does not fail: whatever the driver does, also when the LISTEN
  connection cannot be opened or breaks in the middle of a wait, it returns within its timeout, never
  raises, and reports a notification only from a connection it still holds; once a backend has tried to
  listen and holds no connection, a call is a sleep of exactly the timeout.
\<close>

lemma wait_within_timeout:
  assumes "polite d" and "raw = raw_connection d \<or> raw = django_raw_connection d"
    and "fresh_backend s0" and "(backend_step d raw channel b)\<^sup>*\<^sup>* s0 s"
  shows "\<exists>notified s'. wait_for_work d raw channel timeout s = (Inr notified, s') \<and>
    net_time s \<le> net_time s' \<and> net_time s' \<le> net_time s + max 0 timeout \<and>
    (notified \<longrightarrow> supported s') \<and>
    (w_opened s \<and> l_conn s = None \<longrightarrow> s' = s\<lparr>net_time := net_time s + max 0 timeout\<rparr>)"
proof -
  have L: "\<forall>c \<in> set (net_live s0). c < net_next s0" using assms(3) by (simp add: fresh_backend_def)
  have "holds_one (net_live s0) (net_next s0) channel s0"
    using assms(3) by (simp add: fresh_backend_def holds_one_def)
  from backend_steps_hold [OF assms(1,2) L assms(4) this]
  have h: "holds_one (net_live s0) (net_next s0) channel s" .
  obtain b s' where w: "wait_for_work d raw channel timeout s = (Inr b, s')" "timely timeout s s'"
    "b \<longrightarrow> supported s'"
    using wait_for_work_runs [OF assms(1,2) L h, of timeout] by blast
  moreover have "s' = s\<lparr>net_time := net_time s + max 0 timeout\<rparr>" if "w_opened s" "l_conn s = None"
    using w(1) that
    by (simp add: wait_for_work_def io_bind_def io_get_def io_return_def supported_def py_sleep_def
        io_put_def)
  ultimately show ?thesis by (auto simp: timely_def)
qed


end
