(* ===== verification/Json_Text.thy ===== *)
theory Json_Text
  imports Py_Runtime
begin

text \<open>
  What the code uses of Python's \<open>json\<close> on text: \<open>json.dumps\<close> of strings and null, and \<open>json.loads\<close>.
  A text is the list of its code points.  The reader follows \<open>json.decoder\<close>: it accepts what Python
  accepts (\<open>NaN\<close>, the last of equal keys, lone surrogates) and refuses what Python refuses.
  A number is kept as its text; Python's limits on the digits of an integer and on nesting are left
  out.
\<close>

type_synonym pytext = "nat list"

definition text_of :: "string \<Rightarrow> pytext" where
  "text_of s = map of_char s"

datatype jtext =
    JtNull | JtBool bool | JtNum pytext | JtStr pytext
  | JtList "jtext list" | JtDict "(pytext \<times> jtext) list"

section \<open>Writing strings\<close>

definition hex_digit :: "nat \<Rightarrow> nat" where
  "hex_digit d = (if d < 10 then 48 + d else 87 + d)"

definition hex4 :: "nat \<Rightarrow> pytext" where
  "hex4 n = [hex_digit (n div 4096 mod 16), hex_digit (n div 256 mod 16), hex_digit (n div 16 mod 16),
             hex_digit (n mod 16)]"

text \<open>\<open>ensure_ascii\<close>: everything outside \<open>' '\<close> to \<open>'~'\<close> is escaped, with a surrogate pair above \<open>0xFFFF\<close>.\<close>

definition escape :: "nat \<Rightarrow> pytext" where
  "escape c =
     (if c = 92 then [92, 92] else if c = 34 then [92, 34]
      else if c = 8 then [92, 98] else if c = 12 then [92, 102] else if c = 10 then [92, 110]
      else if c = 13 then [92, 114] else if c = 9 then [92, 116]
      else if 32 \<le> c \<and> c \<le> 126 then [c]
      else if c < 65536 then [92, 117] @ hex4 c
      else [92, 117] @ hex4 (55296 + (c - 65536) div 1024) @ [92, 117] @ hex4 (56320 + (c - 65536) mod 1024))"

definition dump_string :: "pytext \<Rightarrow> pytext" where
  "dump_string s = 34 # concat (map escape s) @ [34]"

section \<open>Reading\<close>

definition skip_ws :: "pytext \<Rightarrow> pytext" where
  "skip_ws s = dropWhile (\<lambda>c. c = 32 \<or> c = 9 \<or> c = 10 \<or> c = 13) s"

definition expect :: "nat \<Rightarrow> pytext \<Rightarrow> pytext option" where
  "expect c s = (case s of [] \<Rightarrow> None | x # r \<Rightarrow> if x = c then Some r else None)"

definition hex_value :: "nat \<Rightarrow> nat option" where
  "hex_value c =
     (if 48 \<le> c \<and> c \<le> 57 then Some (c - 48)
      else if 97 \<le> c \<and> c \<le> 102 then Some (c - 87)
      else if 65 \<le> c \<and> c \<le> 70 then Some (c - 55) else None)"

fun read_hex4 :: "pytext \<Rightarrow> (nat \<times> pytext) option" where
  "read_hex4 (a # b # c # d # r) =
     (case (hex_value a, hex_value b, hex_value c, hex_value d) of
        (Some w, Some x, Some y, Some z) \<Rightarrow> Some (w * 4096 + x * 256 + y * 16 + z, r)
      | _ \<Rightarrow> None)"
| "read_hex4 _ = None"

definition unescape :: "nat \<Rightarrow> nat option" where
  "unescape e =
     (if e = 34 \<or> e = 92 \<or> e = 47 then Some e
      else if e = 98 then Some 8 else if e = 102 then Some 12 else if e = 110 then Some 10
      else if e = 114 then Some 13 else if e = 116 then Some 9 else None)"

text \<open>The code point after \<open>\u\<close>, joined with a low surrogate that follows.\<close>

definition read_unicode :: "pytext \<Rightarrow> (nat \<times> pytext) option" where
  "read_unicode s =
     (case read_hex4 s of
        None \<Rightarrow> None
      | Some (u, r) \<Rightarrow>
          (case (if 55296 \<le> u \<and> u \<le> 56319 then Option.bind (expect 92 r) (expect 117) else None) of
             None \<Rightarrow> Some (u, r)
           | Some r1 \<Rightarrow>
               (case read_hex4 r1 of
                  None \<Rightarrow> None
                | Some (v, r2) \<Rightarrow>
                    if 56320 \<le> v \<and> v \<le> 57343
                    then Some (65536 + (u - 55296) * 1024 + (v - 56320), r2) else Some (u, r))))"

lemma read_hex4_shorter: "read_hex4 s = Some (u, r) \<Longrightarrow> length r < length s"
  by (cases s rule: read_hex4.cases) (auto split: option.splits)

lemma expect_shorter: "expect c s = Some r \<Longrightarrow> length r < length s"
  by (auto simp: expect_def split: list.splits if_splits)

lemma read_unicode_shorter: "read_unicode s = Some (u, r) \<Longrightarrow> length r < length s"
  by (auto simp: read_unicode_def split: option.splits if_splits dest!: read_hex4_shorter
      expect_shorter bind_eq_Some_conv [THEN iffD1])

function scan_string :: "pytext \<Rightarrow> (pytext \<times> pytext) option" where
  "scan_string [] = None"
| "scan_string (c # cs) =
     (if c = 34 then Some ([], cs)
      else if c = 92 then
        (case cs of
           [] \<Rightarrow> None
         | e # r \<Rightarrow>
             (case (if e = 117 then read_unicode r else map_option (\<lambda>x. (x, r)) (unescape e)) of
                None \<Rightarrow> None
              | Some (x, r') \<Rightarrow> map_option (apfst ((#) x)) (scan_string r')))
      else if c < 32 then None
      else map_option (apfst ((#) c)) (scan_string cs))"
  by pat_completeness auto
termination
  by (relation "measure length")
    (auto split: if_splits dest!: read_unicode_shorter)


definition digits :: "pytext \<Rightarrow> pytext" where
  "digits s = takeWhile (\<lambda>c. 48 \<le> c \<and> c \<le> 57) s"

text \<open>\<open>(-?(?:0|[1-9][0-9]*))(\.[0-9]+)?([eE][-+]?[0-9]+)?\<close>\<close>

definition number_integer :: "pytext \<Rightarrow> pytext option" where
  "number_integer s =
     (let (sign, r) = (case s of [] \<Rightarrow> ([], s) | c # cs \<Rightarrow> if c = 45 then ([45], cs) else ([], s));
          ds = (case digits r of [] \<Rightarrow> [] | d # ds \<Rightarrow> if d = 48 then [48] else d # ds)
      in if ds = [] then None else Some (sign @ ds))"

definition number_fraction :: "pytext \<Rightarrow> pytext" where
  "number_fraction s =
     (case expect 46 s of None \<Rightarrow> [] | Some r \<Rightarrow> if digits r = [] then [] else 46 # digits r)"

definition number_exponent :: "pytext \<Rightarrow> pytext" where
  "number_exponent s =
     (case s of [] \<Rightarrow> []
      | e # r \<Rightarrow>
          if e = 69 \<or> e = 101
          then (let (sign, r') = (case r of [] \<Rightarrow> ([], r)
                      | c # cs \<Rightarrow> if c = 43 \<or> c = 45 then ([c], cs) else ([], r))
                in if digits r' = [] then [] else e # sign @ digits r')
          else [])"

definition match_number :: "pytext \<Rightarrow> pytext option" where
  "match_number s =
     map_option (\<lambda>i. let f = number_fraction (drop (length i) s)
                     in i @ f @ number_exponent (drop (length i + length f) s)) (number_integer s)"

definition literal :: "string \<Rightarrow> pytext \<Rightarrow> bool" where
  "literal w s = (take (length w) s = text_of w)"

text \<open>A value that is no string, list or dictionary.\<close>

definition scan_scalar :: "pytext \<Rightarrow> (jtext \<times> pytext) option" where
  "scan_scalar s =
     (if literal ''null'' s then Some (JtNull, drop 4 s)
      else if literal ''true'' s then Some (JtBool True, drop 4 s)
      else if literal ''false'' s then Some (JtBool False, drop 5 s)
      else case match_number s of
        Some n \<Rightarrow> Some (JtNum n, drop (length n) s)
      | None \<Rightarrow>
          if literal ''NaN'' s then Some (JtNum (text_of ''NaN''), drop 3 s)
          else if literal ''Infinity'' s then Some (JtNum (text_of ''Infinity''), drop 8 s)
          else if literal ''-Infinity'' s then Some (JtNum (text_of ''-Infinity''), drop 9 s)
          else None)"

text \<open>The first argument bounds the depth of the recursion; twice the length of the text is enough.\<close>

fun scan_value :: "nat \<Rightarrow> pytext \<Rightarrow> (jtext \<times> pytext) option"
and scan_members :: "nat \<Rightarrow> pytext \<Rightarrow> ((pytext \<times> jtext) list \<times> pytext) option"
and scan_elements :: "nat \<Rightarrow> pytext \<Rightarrow> (jtext list \<times> pytext) option" where
  "scan_value 0 s = None"
| "scan_value (Suc n) s =
     (case s of
        [] \<Rightarrow> None
      | c # cs \<Rightarrow>
          if c = 34 then map_option (apfst JtStr) (scan_string cs)
          else if c = 123 then
            (case expect 125 (skip_ws cs) of
               Some r \<Rightarrow> Some (JtDict [], r)
             | None \<Rightarrow> map_option (apfst JtDict) (scan_members n (skip_ws cs)))
          else if c = 91 then
            (case expect 93 (skip_ws cs) of
               Some r \<Rightarrow> Some (JtList [], r)
             | None \<Rightarrow> map_option (apfst JtList) (scan_elements n (skip_ws cs)))
          else scan_scalar s)"
| "scan_members 0 s = None"
| "scan_members (Suc n) s =
     (case Option.bind (expect 34 s) scan_string of
        None \<Rightarrow> None
      | Some (k, r) \<Rightarrow>
          (case Option.bind (expect 58 (skip_ws r)) (\<lambda>r. scan_value n (skip_ws r)) of
             None \<Rightarrow> None
           | Some (v, r1) \<Rightarrow>
               (case expect 44 (skip_ws r1) of
                  Some r2 \<Rightarrow> map_option (apfst ((#) (k, v))) (scan_members n (skip_ws r2))
                | None \<Rightarrow> map_option (Pair [(k, v)]) (expect 125 (skip_ws r1)))))"
| "scan_elements 0 s = None"
| "scan_elements (Suc n) s =
     (case scan_value n s of
        None \<Rightarrow> None
      | Some (v, r1) \<Rightarrow>
          (case expect 44 (skip_ws r1) of
             Some r2 \<Rightarrow> map_option (apfst ((#) v)) (scan_elements n (skip_ws r2))
           | None \<Rightarrow> map_option (Pair [v]) (expect 93 (skip_ws r1))))"

text \<open>\<open>json.loads\<close>; \<open>None\<close> is \<open>JSONDecodeError\<close>.\<close>

definition json_loads :: "pytext \<Rightarrow> jtext option" where
  "json_loads s =
     (if expect 65279 s \<noteq> None then None
      else case scan_value (Suc (2 * length s)) (skip_ws s) of
             None \<Rightarrow> None
           | Some (v, r) \<Rightarrow> if skip_ws r = [] then Some v else None)"


section \<open>The bound on the recursion is no bound on the text\<close>

lemma skip_ws_shorter: "length (skip_ws s) \<le> length s"
  by (simp add: skip_ws_def length_dropWhile_le)

lemma scan_string_shorter: "scan_string s = Some (x, r) \<Longrightarrow> length r < length s"
proof (induction s arbitrary: x r rule: scan_string.induct)
  case (2 c cs)
  then show ?case
    by (fastforce split: if_splits list.splits option.splits dest!: read_unicode_shorter)
qed simp

lemma number_integer_nonempty: "number_integer s = Some i \<Longrightarrow> i \<noteq> []"
  by (auto simp: number_integer_def Let_def split: prod.splits list.splits if_splits)

lemma literal_shorter: "literal w s \<Longrightarrow> length w \<le> length s"
  by (metis literal_def length_map length_take min.cobounded1 text_of_def)

lemma scan_scalar_shorter: "scan_scalar s = Some (v, r) \<Longrightarrow> s \<noteq> [] \<Longrightarrow> length r < length s"
  by (auto simp: scan_scalar_def match_number_def Let_def split: if_splits option.splits
      dest: number_integer_nonempty)

lemma scan_shorter:
  "scan_value n s = Some (v, r) \<Longrightarrow> length r < length s"
  "scan_members n s = Some (kvs, r) \<Longrightarrow> length r < length s"
  "scan_elements n s = Some (vs, r) \<Longrightarrow> length r < length s"
proof (induction n arbitrary: s v r kvs vs)
  case (Suc n)
  note ws = skip_ws_shorter
  {
    case 1
    then show ?case
      using Suc.IH(2)[of "skip_ws (tl s)"] Suc.IH(3)[of "skip_ws (tl s)"] ws [of "tl s"]
      by (fastforce split: list.splits if_splits option.splits
          dest: scan_string_shorter expect_shorter scan_scalar_shorter)
  next
    case 2
    then obtain r0 k r1 r2 v r3 where p: "expect 34 s = Some r0" "scan_string r0 = Some (k, r1)"
      "expect 58 (skip_ws r1) = Some r2" "scan_value n (skip_ws r2) = Some (v, r3)"
      and rest: "(\<exists>r4 x. expect 44 (skip_ws r3) = Some r4 \<and> scan_members n (skip_ws r4) = Some (x, r)) \<or>
        expect 125 (skip_ws r3) = Some r"
      by (auto split: option.splits prod.splits simp: bind_eq_Some_conv)
    have "length r3 < length s"
      using expect_shorter [OF p(1)] scan_string_shorter [OF p(2)] expect_shorter [OF p(3)]
        Suc.IH(1) [OF p(4)] ws [of r1] ws [of r2] by linarith
    then show ?case
      using rest ws [of r3] Suc.IH(2) expect_shorter [of _ "skip_ws r3"] ws
      by (metis less_le_trans less_imp_le order.strict_trans)
  next
    case 3
    then obtain v r3 where p: "scan_value n s = Some (v, r3)"
      and rest: "(\<exists>r4 x. expect 44 (skip_ws r3) = Some r4 \<and> scan_elements n (skip_ws r4) = Some (x, r)) \<or>
        expect 93 (skip_ws r3) = Some r"
      by (auto split: option.splits prod.splits)
    then show ?case
      using Suc.IH(1) [OF p] ws [of r3] Suc.IH(3) expect_shorter [of _ "skip_ws r3"] ws
      by (metis less_le_trans less_imp_le order.strict_trans)
  }
qed simp_all

lemma scan_fuel:
  "2 * length s < n \<Longrightarrow> 2 * length s < m \<Longrightarrow> scan_value n s = scan_value m s"
  "2 * length s + 1 < n \<Longrightarrow> 2 * length s + 1 < m \<Longrightarrow> scan_members n s = scan_members m s"
  "2 * length s + 1 < n \<Longrightarrow> 2 * length s + 1 < m \<Longrightarrow> scan_elements n s = scan_elements m s"
proof (induction n arbitrary: s m)
  case (Suc n)
  {
    case 1
    then obtain m' where m: "m = Suc m'" by (cases m) auto
    show ?case
    proof (cases s)
      case (Cons c cs)
      have "2 * length (skip_ws cs) + 1 < n" "2 * length (skip_ws cs) + 1 < m'"
        using 1 m Cons skip_ws_shorter [of cs] by auto
      then show ?thesis using Suc.IH(2,3) [of "skip_ws cs" m'] Cons m
        by (simp split: option.split)
    qed (simp add: m)
  next
    case 2
    then obtain m' where m: "m = Suc m'" by (cases m) auto
    have v: "scan_value n (skip_ws r2) = scan_value m' (skip_ws r2)"
      if "expect 34 s = Some r0" "scan_string r0 = Some (k, r1)" "expect 58 (skip_ws r1) = Some r2"
      for r0 k r1 r2
    proof (rule Suc.IH(1))
      have "length (skip_ws r2) < length s"
        using expect_shorter [OF that(1)] scan_string_shorter [OF that(2)] expect_shorter [OF that(3)]
          skip_ws_shorter [of r1] skip_ws_shorter [of r2] by linarith
      then show "2 * length (skip_ws r2) < n" "2 * length (skip_ws r2) < m'" using 2 m by auto
    qed
    have "scan_members n (skip_ws r4) = scan_members m' (skip_ws r4)"
      if "expect 34 s = Some r0" "scan_string r0 = Some (k, r1)" "expect 58 (skip_ws r1) = Some r2"
        "scan_value m' (skip_ws r2) = Some (x, r3)" "expect 44 (skip_ws r3) = Some r4"
      for r0 k r1 r2 x r3 r4
    proof (rule Suc.IH(2))
      have "length (skip_ws r4) < length s"
        using expect_shorter [OF that(1)] scan_string_shorter [OF that(2)] expect_shorter [OF that(3)]
          scan_shorter(1) [OF that(4)] expect_shorter [OF that(5)] skip_ws_shorter [of r1]
          skip_ws_shorter [of r2] skip_ws_shorter [of r3] skip_ws_shorter [of r4] by linarith
      then show "2 * length (skip_ws r4) + 1 < n" "2 * length (skip_ws r4) + 1 < m'" using 2 m by auto
    qed
    with v show ?case
      by (auto simp: m split: option.split prod.split bind_split)
  next
    case 3
    then obtain m' where m: "m = Suc m'" by (cases m) auto
    have v: "scan_value n s = scan_value m' s" by (rule Suc.IH(1)) (use 3 m in auto)
    have "scan_elements n (skip_ws r4) = scan_elements m' (skip_ws r4)"
      if "scan_value m' s = Some (x, r3)" "expect 44 (skip_ws r3) = Some r4" for x r3 r4
    proof (rule Suc.IH(3))
      have "length (skip_ws r4) < length s"
        using scan_shorter(1) [OF that(1)] expect_shorter [OF that(2)]
          skip_ws_shorter [of r3] skip_ws_shorter [of r4] by linarith
      then show "2 * length (skip_ws r4) + 1 < n" "2 * length (skip_ws r4) + 1 < m'" using 3 m by auto
    qed
    with v show ?case by (auto simp: m split: option.split prod.split)
  }
qed simp_all

text \<open>Any larger bound gives the same answer.\<close>

lemma json_loads_any_fuel:
  assumes "2 * length s < n"
  shows "json_loads s =
    (if expect 65279 s \<noteq> None then None
     else case scan_value n (skip_ws s) of
            None \<Rightarrow> None | Some (v, r) \<Rightarrow> if skip_ws r = [] then Some v else None)"
proof -
  have "scan_value (Suc (2 * length s)) (skip_ws s) = scan_value n (skip_ws s)"
    by (rule scan_fuel(1)) (use assms skip_ws_shorter [of s] in linarith)+
  then show ?thesis by (simp only: json_loads_def)
qed


section \<open>Reading what was written\<close>

text \<open>A text of Unicode characters: no surrogates.\<close>

definition valid_text :: "pytext \<Rightarrow> bool" where
  "valid_text s = list_all (\<lambda>c. c < 1114112 \<and> \<not> (55296 \<le> c \<and> c \<le> 57343)) s"

lemma hex_value_digit: "d < 16 \<Longrightarrow> hex_value (hex_digit d) = Some d"
  by (auto simp: hex_value_def hex_digit_def)

lemma read_hex4_hex4:
  assumes "n < 65536" shows "read_hex4 (hex4 n @ r) = Some (n, r)"
proof -
  have digits: "w * 4096 + y mod 16 * 256 + x mod 16 * 16 + n mod 16 = n"
    if "n = 16 * x + n mod 16" "x = 16 * y + x mod 16" "y = 16 * w + y mod 16" for w x y
    using that by linarith
  have parts: "n div 256 = n div 16 div 16" "n div 4096 = n div 16 div 16 div 16"
    by (simp_all add: div_mult2_eq [symmetric])
  have "n div 4096 < 16" using assms by (simp add: less_mult_imp_div_less)
  moreover have "n div 4096 * 4096 + n div 256 mod 16 * 256 + n div 16 mod 16 * 16 + n mod 16 = n"
    using digits [of "n div 16" "n div 16 div 16" "n div 16 div 16 div 16"] unfolding parts
    by (metis mult_div_mod_eq)
  ultimately show ?thesis by (simp add: hex4_def hex_value_digit)
qed

lemma read_unicode_bmp:
  assumes "c < 65536" and "\<not> (55296 \<le> c \<and> c \<le> 57343)"
  shows "read_unicode (hex4 c @ r) = Some (c, r)"
  using assms by (auto simp: read_unicode_def read_hex4_hex4)

lemma read_unicode_pair:
  assumes "65536 \<le> c" and "c < 1114112"
  shows "read_unicode (hex4 (55296 + (c - 65536) div 1024) @ [92, 117] @
      hex4 (56320 + (c - 65536) mod 1024) @ r) = Some (c, r)"
proof -
  have "(c - 65536) div 1024 \<le> 1023" using assms by (simp add: less_mult_imp_div_less less_Suc_eq_le [symmetric])
  moreover have "(c - 65536) mod 1024 \<le> 1023" using mod_less_divisor [of 1024 "c - 65536"] by linarith
  moreover have "65536 + (c - 65536) div 1024 * 1024 + (c - 65536) mod 1024 = c"
    using assms(1) div_mult_mod_eq [of "c - 65536" 1024] by linarith
  ultimately show ?thesis
    using assms by (simp add: read_unicode_def read_hex4_hex4 expect_def)
qed

lemma scan_escape:
  assumes "c < 1114112" and "\<not> (55296 \<le> c \<and> c \<le> 57343)"
  shows "scan_string (escape c @ r) = map_option (apfst ((#) c)) (scan_string r)"
  using assms read_unicode_bmp [of c r] read_unicode_pair [of c r]
  by (auto simp: escape_def unescape_def)

lemma scan_dumped:
  "valid_text s \<Longrightarrow> scan_string (concat (map escape s) @ 34 # r) = Some (s, r)"
  by (induction s) (auto simp: valid_text_def scan_escape)

end
