(* ===== verification/Async_Listener.thy ===== *)
theory Async_Listener
  imports Json_Text Async_Dispatch
begin

text \<open>
  The payload of a notification, as both integrations write it (\<open>src/dewey/listen_sync.py\<close>) and the
  asyncio listener reads it, that listener (\<open>src/dewey/sqlalchemy/listen.py\<close>), and the wake-up half of
  \<open>AsyncSQLAlchemyDispatchBackend\<close>.

  asyncpg is not under \<open>src\<close>: \<open>asyncpg_driver\<close> says which of its interfaces are there, the event
  loop what its awaited calls raise.  \<open>a_live\<close> are the connections checked out of the engine's pool,
  \<open>a_hooks\<close> those on which the listener's callback is registered.
\<close>

section \<open>Payloads\<close>

record work_notification =
  wn_kind :: pytext
  wn_id :: pytext
  wn_queue :: "pytext option"

text \<open>\<open>json.dumps\<close> of a dictionary of strings and \<open>None\<close>, with \<open>separators=(",", ":")\<close>.\<close>

definition dump_field :: "pytext \<times> pytext option \<Rightarrow> pytext" where
  "dump_field f =
     dump_string (fst f) @ 58 # (case snd f of None \<Rightarrow> text_of ''null'' | Some v \<Rightarrow> dump_string v)"

fun join_fields :: "pytext list \<Rightarrow> pytext" where
  "join_fields [] = []"
| "join_fields [f] = f"
| "join_fields (f # fs) = f @ 44 # join_fields fs"

definition dump_fields :: "(pytext \<times> pytext option) list \<Rightarrow> pytext" where
  "dump_fields fs = 123 # join_fields (map dump_field fs) @ [125]"

definition work_payload :: "pytext \<Rightarrow> pytext \<Rightarrow> pytext option \<Rightarrow> pytext" where
  "work_payload kind entry_id queue_name =
     dump_fields [(text_of ''kind'', Some kind), (text_of ''id'', Some entry_id), (text_of ''queue'', queue_name)]"

text \<open>\<open>data.get(key)\<close>: the last of equal keys.\<close>

definition jt_get :: "(pytext \<times> jtext) list \<Rightarrow> string \<Rightarrow> jtext option" where
  "jt_get kvs key = map_of (rev kvs) (text_of key)"

definition as_str :: "jtext option \<Rightarrow> pytext option" where
  "as_str v = (case v of Some (JtStr s) \<Rightarrow> Some s | _ \<Rightarrow> None)"

definition attribute_error :: exn where
  "attribute_error = py_exn (UserC ''AttributeError'' [ExceptionC]) ''object has no attribute get''"

definition parse_payload :: "pytext \<Rightarrow> work_notification result" where
  "parse_payload payload =
     (case json_loads payload of
        None \<Rightarrow> Inr \<lparr>wn_kind = text_of ''unknown'', wn_id = payload, wn_queue = None\<rparr>
      | Some (JtDict data) \<Rightarrow>
          Inr \<lparr>wn_kind = (case as_str (jt_get data ''kind'') of Some k \<Rightarrow> k | None \<Rightarrow> text_of ''unknown''),
               wn_id = (case as_str (jt_get data ''id'') of Some i \<Rightarrow> i | None \<Rightarrow> []),
               wn_queue = as_str (jt_get data ''queue'')\<rparr>
      | Some _ \<Rightarrow> Inl attribute_error)"

section \<open>The listener\<close>

record asyncpg_driver =
  ad_driver_connection :: bool
  ad_add_listener :: bool
  ad_remove_listener :: bool

record async_listener =
  a_live :: "nat list"
  a_next :: nat
  a_hooks :: "nat list"
  a_queue :: "work_notification list"
  a_conn :: "nat option"
  a_raw :: "nat option"
  a_driver :: "nat option"

definition listener_init :: "bool \<Rightarrow> 'z async_listener_scheme \<Rightarrow> unit result \<times> 'z async_listener_scheme" where
  "listener_init is_postgresql s =
     (if \<not> is_postgresql
      then (Inl (py_exn ValueErrorC ''AsyncPostgresWorkListener requires a PostgreSQL AsyncEngine''), s)
      else (Inr (), s\<lparr>a_queue := [], a_conn := None, a_raw := None, a_driver := None\<rparr>))"

definition listener_aenter :: "asyncpg_driver \<Rightarrow> ('z async_listener_scheme, unit) coro" where
  "listener_aenter d =
     co_bind (co_await (\<lambda>s. (Inr (a_next s), s\<lparr>a_live := a_live s @ [a_next s], a_next := Suc (a_next s)\<rparr>)))
       (\<lambda>conn.
     co_bind (co_local (\<lambda>s. (Inr (), s\<lparr>a_conn := Some conn\<rparr>))) (\<lambda>_.
     co_bind (co_await (\<lambda>s. (Inr conn, s))) (\<lambda>raw.
     co_bind (co_local (\<lambda>s. (Inr (), s\<lparr>a_raw := Some raw,
                a_driver := (if ad_driver_connection d then Some raw else None)\<rparr>))) (\<lambda>_.
     if \<not> ad_driver_connection d \<or> \<not> ad_add_listener d
     then
       co_bind (co_await (\<lambda>s. (Inr (), s\<lparr>a_live := removeAll conn (a_live s)\<rparr>))) (\<lambda>_.
       co_bind (co_local (\<lambda>s. (Inr (), s\<lparr>a_conn := None\<rparr>))) (\<lambda>_.
       co_raise (py_exn RuntimeErrorC
         ''AsyncPostgresWorkListener requires an asyncpg-backed SQLAlchemy engine'')))
     else co_await (\<lambda>s. (Inr (), s\<lparr>a_hooks := a_hooks s @ [raw]\<rparr>))))))"

definition listener_aexit :: "asyncpg_driver \<Rightarrow> ('z async_listener_scheme, unit) coro" where
  "listener_aexit d =
     co_bind (co_local (\<lambda>s. (Inr (a_driver s), s))) (\<lambda>drv.
     co_bind (case drv of
                Some c \<Rightarrow> if ad_remove_listener d
                          then co_await (\<lambda>s. (Inr (), s\<lparr>a_hooks := removeAll c (a_hooks s)\<rparr>))
                          else co_return ()
              | None \<Rightarrow> co_return ()) (\<lambda>_.
     co_bind (co_local (\<lambda>s. (Inr (a_conn s), s))) (\<lambda>held.
     co_bind (case held of
                Some c \<Rightarrow> co_await (\<lambda>s. (Inr (), s\<lparr>a_live := removeAll c (a_live s)\<rparr>))
              | None \<Rightarrow> co_return ()) (\<lambda>_.
     co_local (\<lambda>s. (Inr (), s\<lparr>a_driver := None, a_raw := None, a_conn := None\<rparr>))))))"

text \<open>The callback: \<open>put_nowait\<close>, \<open>QueueFull\<close> dropped.  What it raises goes to the event loop.\<close>

definition on_notify :: "int \<Rightarrow> pytext \<Rightarrow> 'z async_listener_scheme \<Rightarrow> unit result \<times> 'z async_listener_scheme" where
  "on_notify max_queue_size payload s =
     (case parse_payload payload of
        Inl e \<Rightarrow> (Inl e, s)
      | Inr n \<Rightarrow>
          if 0 < max_queue_size \<and> max_queue_size \<le> int (length (a_queue s)) then (Inr (), s)
          else (Inr (), s\<lparr>a_queue := a_queue s @ [n]\<rparr>))"

definition queue_timeout :: exn where
  "queue_timeout = py_exn (UserC ''TimeoutError'' [UserC ''OSError'' [ExceptionC]]) ''''"

text \<open>
  \<open>asyncio.wait_for(queue.get(), timeout)\<close>: what arrives before the deadline arrives while it is
  awaited; without time to run, \<open>get\<close> is cancelled before it starts.
\<close>

definition queue_get :: "rat \<Rightarrow> ('z async_listener_scheme, work_notification) coro" where
  "queue_get timeout = co_await (\<lambda>s.
     if timeout \<le> 0 then (Inl queue_timeout, s)
     else case a_queue s of [] \<Rightarrow> (Inl queue_timeout, s) | n # ns \<Rightarrow> (Inr n, s\<lparr>a_queue := ns\<rparr>))"

fun drain :: "work_notification list \<Rightarrow> work_notification list \<Rightarrow> work_notification list \<times> work_notification list" where
  "drain notifications [] = (notifications, [])"
| "drain notifications (n # ns) = drain (notifications @ [n]) ns"

definition listener_await :: "rat \<Rightarrow> ('z async_listener_scheme, work_notification list) coro" where
  "listener_await timeout =
     co_bind (co_except (\<lambda>e. isinstance e [exn_class queue_timeout])
                (co_bind (queue_get timeout) (\<lambda>n. co_return (Some n))) (\<lambda>_. co_return None)) (\<lambda>first.
     case first of
       None \<Rightarrow> co_return []
     | Some n \<Rightarrow> co_local (\<lambda>s. let (ns, q) = drain [n] (a_queue s) in (Inr ns, s\<lparr>a_queue := q\<rparr>)))"

section \<open>The backend\<close>

record async_wake = async_listener +
  aw_started :: bool
  aw_listener :: bool     \<comment> \<open>\<open>self._listener is not None\<close>\<close>
  aw_time :: rat
  aw_rows :: "heartbeats \<times> heartbeats"

definition async_wait_for_work ::
    "bool \<Rightarrow> asyncpg_driver \<Rightarrow> rat \<Rightarrow> ('z async_wake_scheme, bool) coro" where
  "async_wait_for_work is_postgresql d timeout =
     co_bind (co_local (\<lambda>s. (Inr (aw_started s), s))) (\<lambda>started.
     co_bind (if started then co_return ()
              else
                co_bind (co_local (\<lambda>s. (Inr (), s\<lparr>aw_started := True\<rparr>))) (\<lambda>_.
                co_bind (co_local (listener_init is_postgresql)) (\<lambda>_.
                co_except (\<lambda>e. isinstance e [ExceptionC])
                  (co_bind (listener_aenter d) (\<lambda>_. co_local (\<lambda>s. (Inr (), s\<lparr>aw_listener := True\<rparr>))))
                  (\<lambda>_. co_return ())))) (\<lambda>_.
     co_bind (co_local (\<lambda>s. (Inr (aw_listener s), s))) (\<lambda>listening.
     if listening
     then co_bind (listener_await timeout) (\<lambda>notifications. co_return (notifications \<noteq> []))
     else co_bind (co_await (\<lambda>s. (Inr (), s\<lparr>aw_time := aw_time s + max 0 timeout\<rparr>))) (\<lambda>_. co_return False))))"

definition async_close :: "asyncpg_driver \<Rightarrow> backend \<Rightarrow> ('z async_wake_scheme, unit) coro" where
  "async_close d b =
     co_bind (co_except (\<lambda>e. isinstance e [ExceptionC])
       (co_finally
         (co_bind (co_await (\<lambda>s. (Inr (), s\<lparr>aw_rows := (fst (aw_rows s),
            delete_where (\<lambda>h. hb_instance_id h = b_instance_id b) (snd (aw_rows s)))\<rparr>))) (\<lambda>_.
          co_await (\<lambda>s. (Inr (), s\<lparr>aw_rows := (snd (aw_rows s), snd (aw_rows s))\<rparr>))))
         (\<lambda>s. s\<lparr>aw_rows := (fst (aw_rows s), fst (aw_rows s))\<rparr>))
       (\<lambda>_. co_return ())) (\<lambda>_.
     co_bind (co_local (\<lambda>s. (Inr (aw_listener s), s))) (\<lambda>listening.
     if listening
     then co_bind (listener_aexit d) (\<lambda>_. co_local (\<lambda>s. (Inr (), s\<lparr>aw_listener := False\<rparr>)))
     else co_return ()))"

section \<open>Lemmas\<close>

lemma valid_text_of [simp]: "valid_text (text_of s)"
proof -
  have "(of_char c :: nat) < 1114112 \<and> \<not> (55296 \<le> (of_char c :: nat) \<and> (of_char c :: nat) \<le> 57343)" for c
    using nat_of_char_less_256 [of c] by linarith
  then show ?thesis by (simp add: valid_text_def text_of_def list_all_iff)
qed

lemma expect_Cons [simp]: "expect c (x # r) = (if x = c then Some r else None)"
  by (simp add: expect_def)

lemma skip_ws_quote [simp]: "skip_ws (34 # r) = 34 # r" "skip_ws (44 # r) = 44 # r"
    "skip_ws (58 # r) = 58 # r" "skip_ws (125 # r) = 125 # r" "skip_ws (110 # r) = 110 # r"
    "skip_ws (123 # r) = 123 # r" "skip_ws [] = []"
  by (simp_all add: skip_ws_def)

lemma drain_all [simp]: "drain ns q = (ns @ q, [])"
  by (induction ns q rule: drain.induct) simp_all

text \<open>One field of a payload, read back.\<close>

definition jt_field :: "pytext option \<Rightarrow> jtext" where
  "jt_field v = (case v of None \<Rightarrow> JtNull | Some s \<Rightarrow> JtStr s)"

lemma scan_field:
  assumes "valid_text k" and "\<And>s. v = Some s \<Longrightarrow> valid_text s"
  shows "scan_value (Suc n) ((case v of None \<Rightarrow> text_of ''null'' | Some v \<Rightarrow> dump_string v) @ r) = Some (jt_field v, r)"
proof (cases v)
  case None
  then show ?thesis by (simp add: text_of_def jt_field_def scan_scalar_def literal_def)
next
  case (Some s)
  then show ?thesis using assms(2) by (simp add: dump_string_def scan_dumped jt_field_def)
qed


lemma skip_field:
  "skip_ws ((case v of None \<Rightarrow> text_of ''null'' | Some v \<Rightarrow> dump_string v) @ r) =
     (case v of None \<Rightarrow> text_of ''null'' | Some v \<Rightarrow> dump_string v) @ r"
  "skip_ws (dump_field f @ r) = dump_field f @ r"
  by (auto simp: text_of_def dump_string_def dump_field_def split: option.split)

definition valid_field :: "pytext \<times> pytext option \<Rightarrow> bool" where
  "valid_field f \<longleftrightarrow> valid_text (fst f) \<and> (\<forall>s. snd f = Some s \<longrightarrow> valid_text s)"

lemma scan_member:
  assumes "valid_field f"
  shows "Option.bind (expect 34 (dump_field f @ r)) scan_string =
      Some (fst f, 58 # (case snd f of None \<Rightarrow> text_of ''null'' | Some v \<Rightarrow> dump_string v) @ r)"
  using assms
  by (simp add: dump_field_def valid_field_def dump_string_def scan_dumped)

lemma scan_members_field:
  assumes "valid_field f"
  shows "scan_members (Suc (Suc n)) (dump_field f @ 125 # r) = Some ([(fst f, jt_field (snd f))], r)"
    and "skip_ws r = r \<Longrightarrow> scan_members (Suc (Suc n)) (dump_field f @ 44 # r) =
      map_option (apfst ((#) (fst f, jt_field (snd f)))) (scan_members (Suc n) r)"
proof -
  have "scan_value (Suc n) ((case snd f of None \<Rightarrow> text_of ''null'' | Some v \<Rightarrow> dump_string v) @ r') =
      Some (jt_field (snd f), r')" for r'
    by (rule scan_field [where k = "fst f"]) (use assms in \<open>auto simp: valid_field_def\<close>)
  then show "scan_members (Suc (Suc n)) (dump_field f @ 125 # r) = Some ([(fst f, jt_field (snd f))], r)"
    "skip_ws r = r \<Longrightarrow> scan_members (Suc (Suc n)) (dump_field f @ 44 # r) =
      map_option (apfst ((#) (fst f, jt_field (snd f)))) (scan_members (Suc n) r)"
    by (simp_all add: scan_members.simps(2) [of "Suc n"] scan_member [OF assms] skip_field
        del: scan_members.simps scan_value.simps)
qed

lemma scan_dumped_fields:
  assumes "fs \<noteq> []" and "\<forall>f \<in> set fs. valid_field f"
  shows "scan_members (Suc (length fs + n)) (join_fields (map dump_field fs) @ 125 # r) =
    Some (map (apsnd jt_field) fs, r)"
  using assms
proof (induction fs arbitrary: n rule: list_nonempty_induct)
  case (single f)
  then show ?case
    by (simp add: scan_members_field(1) apsnd_def map_prod_def case_prod_beta del: scan_members.simps)
next
  case (cons f fs)
  obtain g gs where fs: "fs = g # gs" using cons.hyps by (cases fs) auto
  have "\<exists>t. join_fields (map dump_field fs) = dump_field g @ t" unfolding fs by (cases gs) auto
  then have "skip_ws (join_fields (map dump_field fs) @ 125 # r) = join_fields (map dump_field fs) @ 125 # r"
    by (auto simp: skip_field)
  moreover have "join_fields (map dump_field (f # fs)) = dump_field f @ 44 # join_fields (map dump_field fs)"
    unfolding fs by simp
  ultimately show ?case
    using cons.IH [of n] cons.prems
    by (simp add: scan_members_field(2) apsnd_def apfst_def map_prod_def case_prod_beta del: scan_members.simps)
qed

lemma loads_dumped_fields:
  assumes "fs \<noteq> []" and "\<forall>f \<in> set fs. valid_field f"
  shows "json_loads (dump_fields fs) = Some (JtDict (map (apsnd jt_field) fs))"
proof -
  let ?s = "dump_fields fs"
  obtain f gs where fs: "fs = f # gs" using assms(1) by (cases fs) auto
  have "join_fields (map dump_field fs) @ [125] = dump_field f @ (case gs of [] \<Rightarrow> [125] | _ \<Rightarrow> 44 # join_fields (map dump_field gs) @ [125])"
    unfolding fs by (cases gs) simp_all
  then have first: "skip_ws (join_fields (map dump_field fs) @ [125]) = join_fields (map dump_field fs) @ [125]"
      "expect 125 (join_fields (map dump_field fs) @ [125]) = None"
    by (auto simp: skip_field) (simp add: dump_field_def dump_string_def)
  have "json_loads ?s = (if expect 65279 ?s \<noteq> None then None
     else case scan_value (Suc (Suc (length fs + 2 * length ?s))) (skip_ws ?s) of
            None \<Rightarrow> None | Some (v, r) \<Rightarrow> if skip_ws r = [] then Some v else None)"
    by (rule json_loads_any_fuel) simp
  moreover have "scan_value (Suc (Suc (length fs + 2 * length ?s))) (skip_ws ?s) =
      Some (JtDict (map (apsnd jt_field) fs), [])"
    using scan_dumped_fields [OF assms, of "2 * length ?s" "[]"] first by (simp add: dump_fields_def)
  ultimately show ?thesis by (simp add: dump_fields_def)
qed

end
