(* ===== verification/Async_Listener_Properties.thy ===== *)
theory Async_Listener_Properties
  imports Async_Listener Claim_Properties
begin

text \<open>
  The asyncio wake-up: what a payload says after the round trip, what each branch of a wait returns,
  and what the listener holds of the engine's pool.
\<close>

section \<open>Payloads\<close>

definition printable :: "pytext \<Rightarrow> bool" where
  "printable s = list_all (\<lambda>c. 32 \<le> c \<and> c \<le> 126) s"

lemma printable_append [simp]:
  "printable (s @ t) = (printable s \<and> printable t)" "printable (c # t) = (32 \<le> c \<and> c \<le> 126 \<and> printable t)"
  "printable []"
  by (simp_all add: printable_def)

lemma hex_printable: "d < 16 \<Longrightarrow> 32 \<le> hex_digit d \<and> hex_digit d \<le> 126"
  by (simp add: hex_digit_def)

lemma escape_printable: "printable (escape c)"
  using hex_printable by (simp add: escape_def hex4_def)

lemma field_printable: "printable (dump_field f)"
proof -
  have "printable (concat (map escape s))" for s
    by (induction s) (simp_all add: escape_printable)
  then show ?thesis
    by (simp add: dump_field_def dump_string_def text_of_def split: option.split)
qed

text \<open>
  C24. The round trip of a notification.  Whatever the kind, the identifier and the queue are, as
  Unicode texts, the payload that a producer sends is printable ASCII, and the listener reads the same
  kind, identifier and queue from it.
\<close>

theorem payload_roundtrip:
  assumes "valid_text kind" and "valid_text entry_id" and "\<And>q. queue_name = Some q \<Longrightarrow> valid_text q"
  shows "parse_payload (work_payload kind entry_id queue_name) =
      Inr \<lparr>wn_kind = kind, wn_id = entry_id, wn_queue = queue_name\<rparr> \<and>
    printable (work_payload kind entry_id queue_name)"
proof
  show "printable (work_payload kind entry_id queue_name)"
    by (simp add: work_payload_def dump_fields_def field_printable)
  have "json_loads (work_payload kind entry_id queue_name) = Some (JtDict
      [(text_of ''kind'', JtStr kind), (text_of ''id'', JtStr entry_id), (text_of ''queue'', jt_field queue_name)])"
    unfolding work_payload_def
    by (subst loads_dumped_fields) (use assms in \<open>auto simp: valid_field_def jt_field_def\<close>)
  then show "parse_payload (work_payload kind entry_id queue_name) =
      Inr \<lparr>wn_kind = kind, wn_id = entry_id, wn_queue = queue_name\<rparr>"
    by (cases queue_name)
      (simp_all add: parse_payload_def jt_get_def as_str_def text_of_def jt_field_def)
qed

theorem payload_roundtrip_witness:
  "parse_payload (work_payload (text_of ''task'') [116, 34, 92, 233, 8364, 128512] (Some [10, 127])) =
     Inr \<lparr>wn_kind = text_of ''task'', wn_id = [116, 34, 92, 233, 8364, 128512], wn_queue = Some [10, 127]\<rparr>"
  by (rule payload_roundtrip [THEN conjunct1]) (auto simp: valid_text_def text_of_def)

section \<open>Waiting\<close>

text \<open>What happens at an await meanwhile touches the queue only: the callbacks of the listener.\<close>

definition delivering :: "async_wake event_loop \<Rightarrow> bool" where
  "delivering lp \<longleftrightarrow> (\<forall>k s. \<exists>q. lp_others lp k s = s\<lparr>a_queue := q\<rparr>)"

lemma delivering_keeps:
  assumes "delivering lp"
  shows "a_live (lp_others lp k s) = a_live s" "a_next (lp_others lp k s) = a_next s"
    "a_hooks (lp_others lp k s) = a_hooks s" "a_conn (lp_others lp k s) = a_conn s"
    "a_raw (lp_others lp k s) = a_raw s" "a_driver (lp_others lp k s) = a_driver s"
    "aw_started (lp_others lp k s) = aw_started s" "aw_listener (lp_others lp k s) = aw_listener s"
    "aw_time (lp_others lp k s) = aw_time s" "aw_rows (lp_others lp k s) = aw_rows s"
  using assms by (auto simp: delivering_def dest!: spec [of _ k] spec [of _ s])

text \<open>The callback is such a thing.\<close>

lemma on_notify_queue: "\<exists>q. snd (on_notify m p s) = s\<lparr>a_queue := q\<rparr>"
proof -
  have "s = s\<lparr>a_queue := a_queue s\<rparr>" by simp
  then show ?thesis unfolding on_notify_def by (auto split: sum.split intro: exI [of _ "a_queue s"])
qed

lemma timeout_caught [simp]: "isinstance queue_timeout [exn_class queue_timeout]"
    "\<not> isinstance (py_exn ValueErrorC m) [exn_class queue_timeout]"
  by (simp_all add: queue_timeout_def isinstance_def)

lemma runtime_error_caught [simp]: "isinstance (py_exn RuntimeErrorC m) [ExceptionC]"
  by (simp add: isinstance_def)

lemma wait_when_listening:
  assumes "aw_started s" "aw_listener s" "lp_interrupt lp k = None" "delivering lp"
  shows "async_wait_for_work pg d t lp (k, s) =
    (Inr (0 < t \<and> a_queue (lp_others lp k s) \<noteq> []), Suc k,
     (lp_others lp k s)\<lparr>a_queue := (if 0 < t then [] else a_queue (lp_others lp k s))\<rparr>)"
  using assms
  by (auto simp: async_wait_for_work_def listener_await_def queue_get_def co_defs Let_def
      delivering_keeps split: list.split)

lemma wait_when_polling:
  assumes "aw_started s" "\<not> aw_listener s" "lp_interrupt lp k = None" "delivering lp"
  shows "\<exists>q. async_wait_for_work pg d t lp (k, s) =
    (Inr False, Suc k, s\<lparr>a_queue := q, aw_time := aw_time s + max 0 t\<rparr>)"
  using assms unfolding delivering_def
  by (auto simp: async_wait_for_work_def co_defs Let_def dest!: spec [of _ k] spec [of _ s])

text \<open>The attempt to listen, made once; what it raises is an error of the driver.\<close>

definition errors_only :: "'s event_loop \<Rightarrow> bool" where
  "errors_only lp \<longleftrightarrow> (\<forall>k a e. lp_interrupt lp k = Some (a, e) \<longrightarrow> isinstance e [ExceptionC])"

definition start_async_listening :: "asyncpg_driver \<Rightarrow> (async_wake, unit) coro" where
  "start_async_listening d =
     co_except (\<lambda>e. isinstance e [ExceptionC])
       (co_bind (listener_aenter d) (\<lambda>_. co_local (\<lambda>s. (Inr (), s\<lparr>aw_listener := True\<rparr>))))
       (\<lambda>_. co_return ())"

definition can_listen :: "asyncpg_driver \<Rightarrow> async_wake event_loop \<Rightarrow> nat \<Rightarrow> bool" where
  "can_listen d lp k \<longleftrightarrow> ad_driver_connection d \<and> ad_add_listener d \<and>
     lp_interrupt lp k = None \<and> lp_interrupt lp (Suc k) = None \<and> lp_interrupt lp (Suc (Suc k)) = None"

lemma start_async_listening_ok:
  assumes "can_listen d lp k" and "delivering lp"
  shows "\<exists>s'. start_async_listening d lp (k, s) = (Inr (), k + 3, s') \<and> aw_listener s' \<and>
    aw_started s' = aw_started s \<and> aw_time s' = aw_time s \<and> a_live s' = a_live s @ [a_next s] \<and>
    a_hooks s' = a_hooks s @ [a_next s] \<and> a_conn s' = Some (a_next s) \<and> a_driver s' = Some (a_next s)"
  using assms
  by (simp add: start_async_listening_def listener_aenter_def can_listen_def co_defs Let_def delivering_keeps)

lemma start_async_listening_fails:
  assumes "\<not> can_listen d lp k" and "delivering lp" and "errors_only lp"
  shows "\<exists>k' s'. start_async_listening d lp (k, s) = (Inr (), k', s') \<and> aw_listener s' = aw_listener s \<and>
    aw_started s' = aw_started s \<and> aw_time s' = aw_time s"
  using assms
  by (auto simp: start_async_listening_def listener_aenter_def can_listen_def errors_only_def co_defs Let_def
      delivering_keeps split: option.splits prod.splits) 

lemma first_wait:
  assumes "\<not> aw_started s" and "start_async_listening d lp (k, s\<lparr>aw_started := True, a_queue := [], a_conn := None,
      a_raw := None, a_driver := None\<rparr>) = (Inr (), k', s')" and "aw_started s'"
  shows "async_wait_for_work True d t lp (k, s) = async_wait_for_work True d t lp (k', s')"
  using assms
  by (simp add: async_wait_for_work_def start_async_listening_def [symmetric] listener_init_def co_bind_def
      co_local_def co_return_def)

lemma first_wait_starts:
  assumes "delivering lp" and "errors_only lp" and fresh: "\<not> aw_started s" "\<not> aw_listener s"
  shows "\<exists>k' s'. async_wait_for_work True d t lp (k, s) = async_wait_for_work True d t lp (k', s') \<and>
        aw_started s' \<and> aw_listener s' = can_listen d lp k \<and> aw_time s' = aw_time s"
proof -
  let ?s = "s\<lparr>aw_started := True, a_queue := [], a_conn := None, a_raw := None, a_driver := None\<rparr>"
  have "\<exists>k' s'. start_async_listening d lp (k, ?s) = (Inr (), k', s') \<and> aw_started s' \<and>
      aw_listener s' = can_listen d lp k \<and> aw_time s' = aw_time s"
    using start_async_listening_ok [OF _ assms(1), of d k ?s] start_async_listening_fails [OF _ assms(1,2), of d k ?s] fresh
    by (cases "can_listen d lp k") fastforce+
  then show ?thesis using first_wait [OF fresh(1)] by blast
qed

text \<open>
  C23. What a wait does, on every branch.  Without PostgreSQL the first wait raises \<open>ValueError\<close>.  On
  PostgreSQL the first wait tries to listen, exactly once: whatever the driver raises or lacks, it goes
  on as a later wait does, listening when nothing failed and polling otherwise.  A wait that listens
  returns \<open>True\<close> when it had time and a notification was there by then, and takes them all; without
  time it takes none.  One that polls sleeps for the timeout and returns \<open>False\<close>.
\<close>

theorem async_wake_up:
  assumes "delivering lp" and "errors_only lp"
  shows "(\<not> aw_started s \<longrightarrow> async_wait_for_work False d t lp (k, s) =
      (Inl (py_exn ValueErrorC ''AsyncPostgresWorkListener requires a PostgreSQL AsyncEngine''), k,
       s\<lparr>aw_started := True\<rparr>)) \<and>
    (\<not> aw_started s \<and> \<not> aw_listener s \<longrightarrow>
      (\<exists>k' s'. async_wait_for_work True d t lp (k, s) = async_wait_for_work True d t lp (k', s') \<and>
        aw_started s' \<and> aw_listener s' = can_listen d lp k \<and> aw_time s' = aw_time s)) \<and>
    (aw_started s \<and> aw_listener s \<and> lp_interrupt lp k = None \<longrightarrow>
      async_wait_for_work pg d t lp (k, s) =
        (Inr (0 < t \<and> a_queue (lp_others lp k s) \<noteq> []), Suc k,
         (lp_others lp k s)\<lparr>a_queue := (if 0 < t then [] else a_queue (lp_others lp k s))\<rparr>)) \<and>
    (aw_started s \<and> \<not> aw_listener s \<and> lp_interrupt lp k = None \<longrightarrow>
      (\<exists>q. async_wait_for_work pg d t lp (k, s) =
        (Inr False, Suc k, s\<lparr>a_queue := q, aw_time := aw_time s + max 0 t\<rparr>)))"
proof (intro conjI impI)
  show "async_wait_for_work False d t lp (k, s) =
      (Inl (py_exn ValueErrorC ''AsyncPostgresWorkListener requires a PostgreSQL AsyncEngine''), k,
       s\<lparr>aw_started := True\<rparr>)" if "\<not> aw_started s"
    using that by (simp add: async_wait_for_work_def listener_init_def co_defs)
qed (use first_wait_starts wait_when_listening wait_when_polling assms in \<open>blast+\<close>)

definition quiet_loop :: "async_wake event_loop" where
  "quiet_loop = \<lparr>lp_others = \<lambda>_ s. s, lp_interrupt = \<lambda>_. None\<rparr>"

definition new_async_wake :: async_wake where
  "new_async_wake = \<lparr>a_live = [], a_next = 0, a_hooks = [], a_queue = [], a_conn = None, a_raw = None,
     a_driver = None, aw_started = False, aw_listener = False, aw_time = 0, aw_rows = ([], [])\<rparr>"

definition asyncpg :: asyncpg_driver where
  "asyncpg = \<lparr>ad_driver_connection = True, ad_add_listener = True, ad_remove_listener = True\<rparr>"

lemma quiet_loop_ok: "delivering quiet_loop" "errors_only quiet_loop"
proof -
  have "s = s\<lparr>a_queue := a_queue s\<rparr>" for s :: async_wake by simp
  then show "delivering quiet_loop" unfolding delivering_def quiet_loop_def by (simp, blast)
qed (simp add: errors_only_def quiet_loop_def)

definition hello :: pytext where
  "hello = dump_fields [(text_of ''kind'', Some (text_of ''task''))]"

lemma hello_loads: "parse_payload hello = Inr \<lparr>wn_kind = text_of ''task'', wn_id = [], wn_queue = None\<rparr>"
proof -
  have "json_loads hello = Some (JtDict [(text_of ''kind'', JtStr (text_of ''task''))])"
    unfolding hello_def by (subst loads_dumped_fields) (simp_all add: valid_field_def jt_field_def)
  then show ?thesis by (simp add: parse_payload_def jt_get_def as_str_def text_of_def)
qed

theorem async_wake_up_witness:
  "async_wait_for_work True asyncpg 5 quiet_loop (3, snd (on_notify 1000 hello
      (new_async_wake\<lparr>aw_started := True, aw_listener := True\<rparr>))) =
    (Inr True, 4, new_async_wake\<lparr>aw_started := True, aw_listener := True\<rparr>)"
  using async_wake_up [OF quiet_loop_ok, where k = 3 and t = 5 and d = asyncpg and pg = True and
      s = "new_async_wake\<lparr>aw_started := True, aw_listener := True, a_queue :=
        [\<lparr>wn_kind = text_of ''task'', wn_id = [], wn_queue = None\<rparr>]\<rparr>"]
  by (simp add: on_notify_def hello_loads new_async_wake_def quiet_loop_def)

section \<open>Connections\<close>

text \<open>
  The connection of the listener.  A backend that listens and is closed gives the connection back
  to the pool and unregisters its callback.  When \<open>add_listener\<close> raises, the wait goes on polling, and
  the connection stays checked out, also after the backend is closed.
\<close>

lemma async_listener_connections:
  assumes "delivering lp" and "\<not> aw_started s" and "\<not> aw_listener s" and "a_next s \<notin> set (a_live s @ a_hooks s)"
    and calm: "\<And>j. j \<noteq> k + 2 \<Longrightarrow> lp_interrupt lp j = None"
    and add: "lp_interrupt lp (k + 2) = (if broken then Some (False, e) else None)"
    and "isinstance e [ExceptionC]"
    and wait: "async_wait_for_work True asyncpg t lp (k, s) = (r, k', s')"
    and close: "async_close asyncpg b lp (k', s') = (c, k'', s'')"
  shows "c = Inr ()" and "a_hooks s'' = a_hooks s" and "\<not> aw_listener s''"
    and "a_live s'' = a_live s @ (if broken then [a_next s] else [])"
proof -
  let ?s = "s\<lparr>aw_started := True, a_queue := [], a_conn := None, a_raw := None, a_driver := None\<rparr>"
  let ?live = "a_live s @ [a_next s]" and ?hooks = "if broken then a_hooks s else a_hooks s @ [a_next s]"
  have driver [simp]: "ad_driver_connection asyncpg" "ad_add_listener asyncpg" "ad_remove_listener asyncpg"
    by (simp_all add: asyncpg_def)
  have add': "lp_interrupt lp (Suc (Suc k)) = (if broken then Some (False, e) else None)" using add by simp
  have "\<exists>s1. start_async_listening asyncpg lp (k, ?s) = (Inr (), k + 3, s1) \<and> aw_started s1 \<and>
      aw_listener s1 = (\<not> broken) \<and> a_live s1 = ?live \<and> a_hooks s1 = ?hooks \<and>
      a_conn s1 = Some (a_next s) \<and> a_driver s1 = Some (a_next s)"
    using assms(1,3,7) calm [of k] calm [of "Suc k"] add'
    by (cases broken)
      (simp_all add: start_async_listening_def listener_aenter_def co_defs Let_def delivering_keeps)
  then obtain s1 where s1: "start_async_listening asyncpg lp (k, ?s) = (Inr (), k + 3, s1)" "aw_started s1"
      "aw_listener s1 = (\<not> broken)" "a_live s1 = ?live" "a_hooks s1 = ?hooks"
      "a_conn s1 = Some (a_next s)" "a_driver s1 = Some (a_next s)" by blast
  have k': "lp_interrupt lp (k + 3) = None" using calm by simp
  let ?after = "\<lambda>s'. a_live s' = ?live \<and> a_hooks s' = ?hooks \<and> aw_listener s' = (\<not> broken) \<and>
      a_conn s' = Some (a_next s) \<and> a_driver s' = Some (a_next s)"
  have "\<exists>q v s2. async_wait_for_work True asyncpg t lp (k + 3, s1) = (Inr q, Suc (k + 3), s2) \<and> ?after s2"
  proof (cases broken)
    case True
    then show ?thesis using wait_when_polling [OF s1(2) _ k' assms(1), of True asyncpg t] s1 by auto
  next
    case False
    then show ?thesis
      using wait_when_listening [OF s1(2) _ k' assms(1), of True asyncpg t] s1 assms(1)
      by (simp add: delivering_keeps)
  qed
  then have s': "k' = k + 4 \<and> ?after s'" using wait first_wait [OF assms(2) s1(1,2)] by auto
  have calm': "lp_interrupt lp (k' + j) = None" for j using calm s' by simp
  show "c = Inr ()" "a_hooks s'' = a_hooks s" "\<not> aw_listener s''"
    "a_live s'' = a_live s @ (if broken then [a_next s] else [])"
    using close s' assms(1,4) calm' [of 0] calm' [of 1] calm' [of 2] calm' [of 3]
    by (auto simp: async_close_def listener_aexit_def co_defs Let_def delivering_keeps split: if_splits)
qed


definition broken_loop :: "async_wake event_loop" where
  "broken_loop = quiet_loop\<lparr>lp_interrupt := \<lambda>j. if j = 2 then Some (False, py_exn RuntimeErrorC ''down'') else None\<rparr>"

lemma broken_loop_ok: "delivering broken_loop"
  using quiet_loop_ok(1) by (simp add: broken_loop_def delivering_def)

end
