(* ===== verification/Dj_Config.thy ===== *)
theory Dj_Config
  imports Py_Runtime
begin

text \<open>
  The settings contract of \<open>src/dewey/django/conf.py\<close> and the system checks of
  \<open>src/dewey/django/checks.py\<close>.

  \<open>settings.DEWEY\<close> is what a project wrote, of any type; a callable is a number.  Django is not under
  \<open>src\<close>: \<open>import_string\<close>, the routers and the import of the Huey wiring are arguments.  Messages are
  abbreviated.
\<close>

section \<open>Settings\<close>

datatype setting =
    SNone | SBool bool | SInt int | SFloat pyfloat | SStr string
  | SList "setting list" | SDict "(string \<times> setting) list" | SCallable nat

type_synonym config = "(string \<times> setting) list"

text \<open>\<open>bool(value)\<close>\<close>

definition truthy :: "setting \<Rightarrow> bool" where
  "truthy v =
     (case v of
        SNone \<Rightarrow> False | SBool b \<Rightarrow> b | SInt n \<Rightarrow> n \<noteq> 0 | SFloat x \<Rightarrow> x \<noteq> Fin 0 | SStr s \<Rightarrow> s \<noteq> []
      | SList xs \<Rightarrow> xs \<noteq> [] | SDict kvs \<Rightarrow> kvs \<noteq> [] | SCallable _ \<Rightarrow> True)"

definition default_settings :: config where
  "default_settings =
     [(''DISPATCH'', SNone), (''QUEUES'', SNone), (''BATCH_SIZE'', SInt 100),
      (''IDLE_POLL_SECONDS'', SFloat (Fin 5)), (''SWEEP_INTERVAL_SECONDS'', SFloat (Fin 60)),
      (''DISPATCH_TIMEOUT_SECONDS'', SInt 300), (''STUCK_THRESHOLD_MINUTES'', SInt 10),
      (''SWEEP_LIMIT'', SInt 100), (''DATABASE'', SStr ''default''), (''WORKER_DATABASE'', SNone)]"

definition improperly_configured :: "string \<Rightarrow> exn" where
  "improperly_configured msg = py_exn (UserC ''ImproperlyConfigured'' [ExceptionC]) msg"

definition get_settings :: "setting option \<Rightarrow> config result" where
  "get_settings dewey =
     (let configured = (case dewey of None \<Rightarrow> SDict [] | Some v \<Rightarrow> if truthy v then v else SDict [])
      in case configured of
           SDict kvs \<Rightarrow>
             if list_ex (\<lambda>k. k \<notin> set (map fst default_settings)) (map fst kvs)
             then Inl (improperly_configured ''Unknown DEWEY setting(s)'')
             else Inr (map (\<lambda>(k, d). (k, case map_of kvs k of Some v \<Rightarrow> v | None \<Rightarrow> d)) default_settings)
         | _ \<Rightarrow> Inl (improperly_configured ''DEWEY must be a dict''))"

text \<open>\<open>config[key]\<close>; every key the code reads is there.\<close>

definition cfg :: "config \<Rightarrow> string \<Rightarrow> setting" where
  "cfg c key = (case map_of c key of Some v \<Rightarrow> v | None \<Rightarrow> SNone)"

definition callable :: "setting \<Rightarrow> bool" where
  "callable v = (case v of SCallable _ \<Rightarrow> True | _ \<Rightarrow> False)"

definition import_error :: pyclass where
  "import_error = UserC ''ImportError'' [ExceptionC]"

definition get_dispatch_fn :: "(setting \<Rightarrow> setting result) \<Rightarrow> setting option \<Rightarrow> setting result" where
  "get_dispatch_fn import_string dewey =
     (case get_settings dewey of
        Inl e \<Rightarrow> Inl e
      | Inr config \<Rightarrow>
          let path = cfg config ''DISPATCH''
          in if \<not> truthy path then Inl (improperly_configured ''DEWEY[DISPATCH] is not set'')
             else if callable path then Inr path
             else case import_string path of
                    Inl e \<Rightarrow>
                      if isinstance e [import_error]
                      then Inl (improperly_configured ''DEWEY[DISPATCH] could not be imported'')
                      else Inl e
                  | Inr dispatch \<Rightarrow>
                      if \<not> callable dispatch
                      then Inl (improperly_configured ''DEWEY[DISPATCH] is not callable'')
                      else Inr dispatch)"

section \<open>System checks\<close>

datatype level = ErrorLevel | WarningLevel

record finding =
  f_id :: string
  f_level :: level

text \<open>\<open>settings.DATABASES\<close>: the engine of every alias, empty when it has none.\<close>

definition is_postgresql_alias :: "(string \<times> string) list \<Rightarrow> string \<Rightarrow> bool" where
  "is_postgresql_alias databases alias =
     (map_of databases alias \<in>
        {Some ''django.db.backends.postgresql'', Some ''django.db.backends.postgresql_psycopg2''})"

definition check_alias :: "(string \<times> string) list \<Rightarrow> setting \<Rightarrow> finding list" where
  "check_alias databases alias =
     (case alias of
        SNone \<Rightarrow> []
      | SStr a \<Rightarrow>
          if a \<notin> set (map fst databases) then [\<lparr>f_id = ''dewey.E002'', f_level = ErrorLevel\<rparr>]
          else if \<not> is_postgresql_alias databases a then [\<lparr>f_id = ''dewey.E003'', f_level = ErrorLevel\<rparr>]
          else []
      | _ \<Rightarrow> [\<lparr>f_id = ''dewey.E002'', f_level = ErrorLevel\<rparr>])"

text \<open>\<open>isinstance(x, (int, float)) and not x <= 0\<close>: a \<open>bool\<close> is an \<open>int\<close>, and no comparison holds of NaN.\<close>

definition positive_number :: "setting \<Rightarrow> bool" where
  "positive_number v =
     (case v of
        SBool b \<Rightarrow> b | SInt n \<Rightarrow> \<not> n \<le> 0
      | SFloat x \<Rightarrow> \<not> (float_lt x (Fin 0) \<or> x = Fin 0) | _ \<Rightarrow> False)"

definition check_dispatch :: "(setting \<Rightarrow> setting result) \<Rightarrow> setting option \<Rightarrow> config \<Rightarrow> finding list result" where
  "check_dispatch import_string dewey config =
     (if \<not> truthy (cfg config ''DISPATCH'') then Inr [\<lparr>f_id = ''dewey.W003'', f_level = WarningLevel\<rparr>]
      else case get_dispatch_fn import_string dewey of
             Inl e \<Rightarrow>
               if isinstance e [ExceptionC] then Inr [\<lparr>f_id = ''dewey.E004'', f_level = ErrorLevel\<rparr>] else Inl e
           | Inr _ \<Rightarrow> Inr [])"

definition check_sweep_interval :: "config \<Rightarrow> finding list" where
  "check_sweep_interval config =
     (if cfg config ''SWEEP_INTERVAL_SECONDS'' = SNone
      then [\<lparr>f_id = ''dewey.W001'', f_level = WarningLevel\<rparr>]
      else if \<not> positive_number (cfg config ''SWEEP_INTERVAL_SECONDS'')
      then [\<lparr>f_id = ''dewey.E005'', f_level = ErrorLevel\<rparr>] else [])"

text \<open>\<open>wiring\<close>: importing \<open>dewey.contrib.django_huey\<close>, and whether its processor is registered.\<close>

definition check_wiring :: "bool result \<Rightarrow> config \<Rightarrow> finding list result" where
  "check_wiring wiring config =
     (if cfg config ''DISPATCH'' \<noteq> SStr ''dewey.contrib.django_huey.dispatch'' then Inr []
      else case wiring of
             Inl e \<Rightarrow>
               if isinstance e [ExceptionC] then Inr [\<lparr>f_id = ''dewey.E006'', f_level = ErrorLevel\<rparr>] else Inl e
           | Inr registered \<Rightarrow>
               if registered then Inr [] else Inr [\<lparr>f_id = ''dewey.E006'', f_level = ErrorLevel\<rparr>])"

definition check_dewey_configuration ::
    "setting option \<Rightarrow> (string \<times> string) list \<Rightarrow> setting \<Rightarrow> (setting \<Rightarrow> setting result) \<Rightarrow> bool result
     \<Rightarrow> finding list result" where
  "check_dewey_configuration dewey databases producer_alias import_string wiring =
     (case get_settings dewey of
        Inl e \<Rightarrow>
          if isinstance e [ExceptionC] then Inr [\<lparr>f_id = ''dewey.E001'', f_level = ErrorLevel\<rparr>] else Inl e
      | Inr config \<Rightarrow>
          let aliases = check_alias databases producer_alias @ check_alias databases (cfg config ''DATABASE'') @
                check_alias databases (cfg config ''WORKER_DATABASE'')
          in case check_dispatch import_string dewey config of
               Inl e \<Rightarrow> Inl e
             | Inr dispatch \<Rightarrow>
                 let dispatcher_alias = cfg config ''DATABASE'';
                     split = (if producer_alias = dispatcher_alias \<and> dispatcher_alias \<noteq> SStr ''default''
                              then [\<lparr>f_id = ''dewey.W002'', f_level = WarningLevel\<rparr>] else [])
                 in case check_wiring wiring config of
                      Inl e \<Rightarrow> Inl e
                    | Inr huey \<Rightarrow> Inr (aliases @ dispatch @ check_sweep_interval config @ split @ huey))"

section \<open>Lemmas\<close>

text \<open>What a project configured; the empty dictionary for everything that is false.\<close>

definition configured_settings :: "setting option \<Rightarrow> config" where
  "configured_settings dewey = (case dewey of Some (SDict kvs) \<Rightarrow> kvs | _ \<Rightarrow> [])"

lemma map_of_merge:
  "map_of (map (\<lambda>(k, d). (k, f k d)) l) k = map_option (f k) (map_of l k)"
  by (induction l) auto

lemma default_keys: "distinct (map fst default_settings)"
  by (simp add: default_settings_def)

lemma get_settings_Inr:
  "get_settings dewey = Inr c \<longleftrightarrow>
     (dewey = None \<or> (\<exists>v. dewey = Some v \<and> (\<not> truthy v \<or> (\<exists>kvs. v = SDict kvs)))) \<and>
     set (map fst (configured_settings dewey)) \<subseteq> set (map fst default_settings) \<and>
     c = map (\<lambda>(k, d). (k, case map_of (configured_settings dewey) k of Some v \<Rightarrow> v | None \<Rightarrow> d)) default_settings"
proof -
  have "truthy (SDict kvs) \<longleftrightarrow> kvs \<noteq> []" for kvs by (simp add: truthy_def)
  then show ?thesis
    unfolding get_settings_def Let_def configured_settings_def
    by (cases dewey) (auto simp: list_ex_iff split: setting.splits)
qed

lemma get_settings_keys: "get_settings dewey = Inr c \<Longrightarrow> map fst c = map fst default_settings"
  unfolding get_settings_Inr by (auto simp: comp_def)

lemma get_settings_value:
  assumes "get_settings dewey = Inr c" and "(k, d) \<in> set default_settings"
  shows "cfg c k = (case map_of (configured_settings dewey) k of Some v \<Rightarrow> v | None \<Rightarrow> d)"
proof -
  have "map_of default_settings k = Some d" using default_keys assms(2) by simp
  then show ?thesis using assms(1) unfolding get_settings_Inr by (simp add: cfg_def map_of_merge)
qed

end
