(* ===== verification/Py_Text.thy ===== *)
theory Py_Text
  imports Dewey_Prelude
begin

text \<open>
  What the code uses of Python's \<open>str\<close>, on characters up to \<open>U+00FF\<close>: whitespace, \<open>split\<close>, \<open>strip\<close>,
  \<open>lower\<close>, \<open>in\<close>, \<open>startswith\<close>, \<open>endswith\<close>, \<open>splitlines\<close>, \<open>replace\<close> and \<open>rsplit\<close>.
\<close>

fun split_on :: "char \<Rightarrow> string \<Rightarrow> string list" where
  "split_on c [] = [[]]"
| "split_on c (x # xs) =
     (if x = c then [] # split_on c xs
      else case split_on c xs of [] \<Rightarrow> [[x]] | p # ps \<Rightarrow> (x # p) # ps)"

definition is_space :: "char \<Rightarrow> bool" where
  "is_space c = (let n = of_char c :: nat in n \<in> {9..13} \<or> n \<in> {28..32} \<or> n = 133 \<or> n = 160)"

definition strip :: "string \<Rightarrow> string" where
  "strip s = rev (dropWhile is_space (rev (dropWhile is_space s)))"

definition lower_char :: "char \<Rightarrow> char" where
  "lower_char c = (let n = of_char c :: nat in
     if (65 \<le> n \<and> n \<le> 90) \<or> (192 \<le> n \<and> n \<le> 222 \<and> n \<noteq> 215) then char_of (n + 32) else c)"

definition lower_text :: "string \<Rightarrow> string" where
  "lower_text s = map lower_char s"

definition starts :: "string \<Rightarrow> string \<Rightarrow> bool" where
  "starts p s = (take (length p) s = p)"

definition ends_with :: "string \<Rightarrow> string \<Rightarrow> bool" where
  "ends_with s suffix = (drop (length s - length suffix) s = suffix)"

text \<open>\<open>p in s\<close>\<close>

fun contains :: "string \<Rightarrow> string \<Rightarrow> bool" where
  "contains p [] = (p = [])"
| "contains p (c # cs) = (starts p (c # cs) \<or> contains p cs)"

text \<open>\<open>s.rsplit(c, 1)\<close>: \<open>None\<close> when there is no \<open>c\<close>.\<close>

definition rsplit1 :: "char \<Rightarrow> string \<Rightarrow> (string \<times> string) option" where
  "rsplit1 c s =
     (if c \<notin> set s then None
      else let tail = rev (takeWhile (\<lambda>x. x \<noteq> c) (rev s))
           in Some (take (length s - length tail - 1) s, tail))"

definition line_break :: "char \<Rightarrow> bool" where
  "line_break c = (let n = of_char c :: nat in n \<in> {10..13} \<or> n \<in> {28..30} \<or> n = 133)"

text \<open>\<open>s.splitlines()\<close>: a carriage return and the line feed after it are one break.\<close>

function splitlines :: "string \<Rightarrow> string list" where
  "splitlines s =
     (if s = [] then []
      else let line = takeWhile (\<lambda>c. \<not> line_break c) s;
               rest = dropWhile (\<lambda>c. \<not> line_break c) s
           in case rest of
                [] \<Rightarrow> [line]
              | b # r \<Rightarrow>
                  line # splitlines (if b = CHR 0x0D \<and> r \<noteq> [] \<and> hd r = CHR 0x0A then tl r else r))"
  by pat_completeness auto
termination
proof (relation "measure length", simp, goal_cases)
  case (1 s line rest b r)
  then have "length (b # r) \<le> length s" using length_dropWhile_le [of _ s] by metis
  then show ?case by (cases r) auto
qed

declare splitlines.simps [simp del]

end
