(* ===== verification/Dj_Commands.thy ===== *)
theory Dj_Commands
  imports Dj_Config Dj_Dispatch Dj_Queries Dispatcher Py_Io Py_Text
begin

text \<open>
  The management commands of \<open>src/dewey/django/management/commands\<close>: what \<open>dewey_dispatcher\<close> makes of
  its options and settings and how it runs once, and the findings of \<open>dewey_doctor\<close>.
\<close>

section \<open>The dispatcher command\<close>

text \<open>\<open>[part.strip() for part in s.split(",") if part.strip()]\<close>\<close>

definition split_queues :: "string \<Rightarrow> string list" where
  "split_queues s = filter (\<lambda>q. q \<noteq> []) (map strip (split_on (CHR '','') s))"

record dispatcher_options =
  o_queues :: "string option"
  o_batch_size :: "int option"
  o_idle_poll_seconds :: "rat option"
  o_sweep_interval_seconds :: "rat option"
  o_once :: bool

record dispatcher_arguments =
  da_queues :: setting
  da_stuck_threshold_minutes :: setting
  da_dispatch_timeout_seconds :: setting
  da_sweep_limit :: setting
  da_using :: setting
  da_dispatch_fn :: setting
  da_batch_size :: setting
  da_idle_poll_seconds :: setting
  da_sweep_interval_seconds :: setting

definition equals_zero :: "setting \<Rightarrow> bool" where
  "equals_zero v = (v = SBool False \<or> v = SInt 0 \<or> v = SFloat (Fin 0))"

definition command_arguments ::
    "(setting \<Rightarrow> setting result) \<Rightarrow> setting option \<Rightarrow> dispatcher_options \<Rightarrow> dispatcher_arguments result" where
  "command_arguments import_string dewey options =
     (case get_settings dewey of
        Inl e \<Rightarrow> Inl e
      | Inr config \<Rightarrow>
          (case get_dispatch_fn import_string dewey of
             Inl e \<Rightarrow> Inl e
           | Inr dispatch_fn \<Rightarrow>
               let queues = (case o_queues options of
                     Some s \<Rightarrow> if s \<noteq> [] then SList (map SStr (split_queues s)) else cfg config ''QUEUES''
                   | None \<Rightarrow> cfg config ''QUEUES'');
                   given = (case o_sweep_interval_seconds options of
                     Some x \<Rightarrow> SFloat (Fin x) | None \<Rightarrow> cfg config ''SWEEP_INTERVAL_SECONDS'')
               in Inr \<lparr>da_queues = queues,
                    da_stuck_threshold_minutes = cfg config ''STUCK_THRESHOLD_MINUTES'',
                    da_dispatch_timeout_seconds = cfg config ''DISPATCH_TIMEOUT_SECONDS'',
                    da_sweep_limit = cfg config ''SWEEP_LIMIT'', da_using = cfg config ''DATABASE'',
                    da_dispatch_fn = dispatch_fn,
                    da_batch_size = (case o_batch_size options of
                      Some n \<Rightarrow> if n \<noteq> 0 then SInt n else cfg config ''BATCH_SIZE''
                    | None \<Rightarrow> cfg config ''BATCH_SIZE''),
                    da_idle_poll_seconds = (case o_idle_poll_seconds options of
                      Some x \<Rightarrow> if x \<noteq> 0 then SFloat (Fin x) else cfg config ''IDLE_POLL_SECONDS''
                    | None \<Rightarrow> cfg config ''IDLE_POLL_SECONDS''),
                    da_sweep_interval_seconds = (if equals_zero given then SNone else given)\<rparr>))"

text \<open>
  The names in a \<open>QUEUES\<close> setting or option: an iterable of strings, a string being the iterable of its
  letters.  An item that is no string is left out of the model.
\<close>

fun string_items :: "setting list \<Rightarrow> string list option" where
  "string_items [] = Some []"
| "string_items (SStr s # xs) = map_option ((#) s) (string_items xs)"
| "string_items (_ # xs) = None"

definition queue_names :: "setting \<Rightarrow> string list option" where
  "queue_names v =
     (case v of
        SList xs \<Rightarrow> string_items xs | SStr s \<Rightarrow> Some (map (\<lambda>c. [c]) s) | SDict kvs \<Rightarrow> Some (map fst kvs) | _ \<Rightarrow> None)"

text \<open>\<open>handle\<close> with \<open>--once\<close>: one recovery pass, one batch, and the close of the backend.\<close>

definition run_once :: "'s dispatch_io \<Rightarrow> dispatcher \<times> 's \<Rightarrow> nat result \<times> dispatcher \<times> 's" where
  "run_once io \<sigma> =
     (case maybe_sweep io \<sigma> of
        (Inl e, \<sigma>1) \<Rightarrow> (Inl e, \<sigma>1)
      | (Inr _, \<sigma>1) \<Rightarrow>
          (case dispatch_batch io \<sigma>1 of
             (Inl e, \<sigma>2) \<Rightarrow> (Inl e, \<sigma>2)
           | (Inr dispatched, \<sigma>2) \<Rightarrow>
               (case op_close io (snd \<sigma>2) of
                  (Inl e, s) \<Rightarrow> (Inl e, fst \<sigma>2, s)
                | (Inr _, s) \<Rightarrow> (Inr dispatched, fst \<sigma>2, s))))"

definition handle_dispatcher ::
    "'s dispatch_io \<Rightarrow> bool \<Rightarrow> dispatcher \<times> 's \<Rightarrow> (unit result \<times> dispatcher \<times> 's) option" where
  "handle_dispatcher io once \<sigma> =
     (if once then Some (case run_once io \<sigma> of (Inl e, \<sigma>') \<Rightarrow> (Inl e, \<sigma>') | (Inr _, \<sigma>') \<Rightarrow> (Inr (), \<sigma>'))
      else run io None \<sigma>)"

section \<open>The doctor\<close>

text \<open>What Django tells about a database: each question may raise.\<close>

record database_view =
  dv_connect :: "unit result"
  dv_vendor :: string
  dv_tables :: "string list result"
  dv_applied :: "(string \<times> string) list result"
  dv_heartbeats :: "heartbeats result"

definition from_result :: "'a result \<Rightarrow> (finding list, 'a) io" where
  "from_result r = (case r of Inl e \<Rightarrow> io_raise e | Inr x \<Rightarrow> io_return x)"

definition add_finding :: "string \<Rightarrow> level \<Rightarrow> (finding list, unit) io" where
  "add_finding i l = io_put (\<lambda>fs. fs @ [\<lparr>f_id = i, f_level = l\<rparr>])"

definition add_when :: "bool \<Rightarrow> string \<Rightarrow> (finding list, unit) io" where
  "add_when b i = (if b then add_finding i ErrorLevel else io_return ())"

text \<open>\<open>requested\<close>: the queues asked for, \<open>None\<close> for the whole backlog.\<close>

definition requested_queues :: "string option \<Rightarrow> config \<Rightarrow> string list option result" where
  "requested_queues queues_option config =
     (case queues_option of
        Some s \<Rightarrow>
          if s \<noteq> [] then Inr (Some (split_queues s))
          else if truthy (cfg config ''QUEUES'')
          then (case queue_names (cfg config ''QUEUES'') of
                  Some qs \<Rightarrow> Inr (Some qs) | None \<Rightarrow> Inl (py_exn TypeErrorC ''object is not iterable''))
          else Inr None
      | None \<Rightarrow>
          if truthy (cfg config ''QUEUES'')
          then (case queue_names (cfg config ''QUEUES'') of
                  Some qs \<Rightarrow> Inr (Some qs) | None \<Rightarrow> Inl (py_exn TypeErrorC ''object is not iterable''))
          else Inr None)"

definition doctor_heartbeats ::
    "setting \<Rightarrow> string list option \<Rightarrow> datetime \<Rightarrow> database_view \<Rightarrow> (finding list, unit) io" where
  "doctor_heartbeats alias requested now db =
     io_bind (from_result (dv_heartbeats db)) (\<lambda>rows.
     io_bind (from_result (django_get_dispatchers
         (case alias of SStr a \<Rightarrow> Some a | _ \<Rightarrow> None) requested default_heartbeat_stale_seconds now rows)) (\<lambda>fresh.
     let fresh' = (if requested = None then filter (\<lambda>h. hb_queues h = None) fresh else fresh)
     in add_when (fresh' = []) ''dewey.doctor.dispatcher_heartbeat''))"

definition doctor_database ::
    "setting option \<Rightarrow> string option \<Rightarrow> (setting \<Rightarrow> database_view result) \<Rightarrow> datetime \<Rightarrow> (finding list, unit) io" where
  "doctor_database dewey queues_option connections now =
     io_bind (from_result (get_settings dewey)) (\<lambda>config.
     io_bind (add_when (\<not> truthy (cfg config ''DISPATCH'')) ''dewey.doctor.dispatch'') (\<lambda>_.
     let alias = cfg config ''DATABASE'' in
     io_bind (from_result (connections alias)) (\<lambda>db.
     io_bind (from_result (dv_connect db)) (\<lambda>_.
     io_bind (add_when (dv_vendor db \<noteq> ''postgresql'') ''dewey.doctor.database_backend'') (\<lambda>_.
     io_bind (from_result (dv_tables db)) (\<lambda>tables.
     io_bind (add_when (''task_entries'' \<notin> set tables) ''dewey.doctor.schema'') (\<lambda>_.
     io_bind (add_when (''dewey_dispatcher_heartbeats'' \<notin> set tables) ''dewey.doctor.heartbeat_schema'') (\<lambda>_.
     io_bind (from_result (dv_applied db)) (\<lambda>applied.
     io_bind (add_when ((''dewey'', ''0002_task_expiry_and_dispatcher_heartbeat'') \<notin> set applied)
                ''dewey.doctor.migrations'') (\<lambda>_.
     io_bind (from_result (requested_queues queues_option config)) (\<lambda>requested.
     doctor_heartbeats alias requested now db)))))))))))"

definition doctor ::
    "finding list \<Rightarrow> setting option \<Rightarrow> string option \<Rightarrow> (setting \<Rightarrow> database_view result) \<Rightarrow> datetime
     \<Rightarrow> string list \<Rightarrow> unit result \<times> finding list" where
  "doctor checks dewey queues_option connections now task_types =
     io_bind (io_put (\<lambda>fs. fs @ checks)) (\<lambda>_.
     io_bind (io_except is_exception (doctor_database dewey queues_option connections now)
                (\<lambda>_. add_finding ''dewey.doctor.database'' ErrorLevel)) (\<lambda>_.
     io_bind (if task_types = [] then add_finding ''dewey.doctor.handlers'' WarningLevel else io_return ()) (\<lambda>_.
     io_bind (io_get (\<lambda>fs. fs)) (\<lambda>findings.
     if list_ex (\<lambda>f. f_level f = ErrorLevel) findings
     then io_raise (py_exn (UserC ''CommandError'' [ExceptionC]) ''Dewey doctor found readiness errors'')
     else io_return ())))) []"

end
