(* ===== verification/Setup_Properties.thy ===== *)
theory Setup_Properties
  imports Dj_Commands
begin

text \<open>
  Configuration and readiness: what the settings are worth once they are read, what the system checks
  establish, and when \<open>dewey_doctor\<close> reports that a deployment is ready.
\<close>

section \<open>Findings\<close>

definition clean :: "finding list \<Rightarrow> bool" where
  "clean fs \<longleftrightarrow> \<not> list_ex (\<lambda>f. f_level f = ErrorLevel) fs"

lemma clean_append [simp]: "clean (xs @ ys) = (clean xs \<and> clean ys)" "clean []"
    "clean (f # fs) = (f_level f \<noteq> ErrorLevel \<and> clean fs)"
  by (auto simp: clean_def)

text \<open>A statement that only adds findings; it passes when it returns and no finding is an error.\<close>

definition more_findings :: "finding list \<Rightarrow> finding list \<Rightarrow> bool" where
  "more_findings fs fs' \<longleftrightarrow> (\<exists>gs. fs' = fs @ gs)"

lemma more_order: "reflp more_findings" "transp more_findings"
  unfolding more_findings_def reflp_def transp_def by auto

lemmas more_intros = keeps_return [OF more_order(1)] keeps_raise [OF more_order(1)]
  keeps_get [OF more_order(1)] keeps_bind [OF more_order(2)] keeps_except [OF more_order(2)]

lemma more_calls:
  "keeps_io more_findings (from_result r)" "keeps_io more_findings (add_finding i l)"
  "keeps_io more_findings (add_when b i)"
proof -
  show add: "keeps_io more_findings (add_finding i l)" for i l
    by (auto simp: keeps_io_def add_finding_def io_put_def more_findings_def)
  show "keeps_io more_findings (from_result r)" "keeps_io more_findings (add_when b i)"
    by (auto simp: from_result_def add_when_def add intro!: more_intros split: sum.split)
qed

definition passes :: "(finding list, 'a) io \<Rightarrow> finding list \<Rightarrow> bool" where
  "passes m fs \<longleftrightarrow> (case m fs of (Inl _, _) \<Rightarrow> False | (Inr _, fs') \<Rightarrow> clean fs')"

lemma passes_clean: "keeps_io more_findings m \<Longrightarrow> passes m fs \<Longrightarrow> clean fs"
  by (cases "m fs") (auto simp: passes_def more_findings_def split: sum.splits dest!: keepsIO)

lemma passes_result: "passes (io_bind (from_result r) f) fs \<longleftrightarrow> (\<exists>x. r = Inr x \<and> passes (f x) fs)"
  by (cases r) (simp_all add: from_result_def io_bind_def io_raise_def io_return_def passes_def)

lemma passes_add:
  assumes "keeps_io more_findings (f ())"
  shows "passes (io_bind (add_when b i) f) fs \<longleftrightarrow> \<not> b \<and> passes (f ()) fs"
proof (cases b)
  case True
  then have "passes (io_bind (add_when b i) f) fs \<Longrightarrow> clean (fs @ [\<lparr>f_id = i, f_level = ErrorLevel\<rparr>])"
    using passes_clean [OF assms, of "fs @ [\<lparr>f_id = i, f_level = ErrorLevel\<rparr>]"]
    by (simp add: passes_def add_when_def add_finding_def io_bind_def io_put_def)
  then show ?thesis using True by auto
qed (simp add: passes_def add_when_def io_bind_def io_return_def)

lemma passes_add_last: "passes (add_when b i) fs \<longleftrightarrow> \<not> b \<and> clean fs"
  by (simp add: passes_def add_when_def add_finding_def io_put_def io_return_def)

lemma doctor_heartbeats_more: "keeps_io more_findings (doctor_heartbeats alias requested now db)"
  unfolding doctor_heartbeats_def Let_def by (intro more_intros more_calls)

lemma doctor_database_more: "keeps_io more_findings (doctor_database dewey qo connections now)"
  unfolding doctor_database_def Let_def by (intro more_intros more_calls doctor_heartbeats_more)

section \<open>Readiness\<close>

text \<open>A heartbeat that answers for what was asked: fresh, of this database, and serving the queues.\<close>

definition answers :: "string \<Rightarrow> string list option \<Rightarrow> datetime \<Rightarrow> heartbeat_row \<Rightarrow> bool" where
  "answers alias requested now h \<longleftrightarrow>
     is_fresh h now default_heartbeat_stale_seconds = Inr True \<and> hb_database h = alias \<and>
     (case requested of None \<Rightarrow> hb_queues h = None | Some qs \<Rightarrow> serves h (Some qs))"

lemma serves_all [simp]: "serves h None" "serves h (Some [])"
  by (simp_all add: serves_def split: option.split)

lemma get_dispatchers_set:
  assumes "seconds_before now w = Inr cutoff"
  shows "\<exists>fresh. django_get_dispatchers (Some a) requested w now rows = Inr fresh \<and>
    set fresh = {h \<in> set rows. cutoff \<le> hb_last_seen_at h \<and> hb_database h = a \<and> serves h requested}"
  using assms by (auto simp: django_get_dispatchers_def Let_def split: option.split list.split)

lemma doctor_heartbeats_passes:
  "passes (doctor_heartbeats (SStr a) requested now db) fs \<longleftrightarrow>
     clean fs \<and> (\<exists>rows. dv_heartbeats db = Inr rows \<and> (\<exists>h \<in> set rows. answers a requested now h))"
proof -
  let ?w = default_heartbeat_stale_seconds
  have "passes (io_bind (from_result (django_get_dispatchers (Some a) requested ?w now rows))
        (\<lambda>fresh. let fresh' = (if requested = None then filter (\<lambda>h. hb_queues h = None) fresh else fresh)
           in add_when (fresh' = []) ''dewey.doctor.dispatcher_heartbeat'')) fs \<longleftrightarrow>
      clean fs \<and> (\<exists>h \<in> set rows. answers a requested now h)" for rows
  proof (cases "seconds_before now ?w")
    case (Inl e)
    then show ?thesis by (simp add: passes_result django_get_dispatchers_def answers_def is_fresh_def)
  next
    case (Inr cutoff)
    then obtain fresh where fresh: "django_get_dispatchers (Some a) requested ?w now rows = Inr fresh"
      "set fresh = {h \<in> set rows. cutoff \<le> hb_last_seen_at h \<and> hb_database h = a \<and> serves h requested}"
      using get_dispatchers_set by blast
    have "fresh = [] \<longleftrightarrow> set fresh = {}" by simp
    then show ?thesis
      using Inr fresh
      by (cases requested)
        (auto simp: passes_result passes_add_last answers_def is_fresh_def filter_empty_conv Let_def)
  qed
  then show ?thesis by (auto simp: doctor_heartbeats_def passes_result)
qed

definition ready_database :: "string \<Rightarrow> string list option \<Rightarrow> datetime \<Rightarrow> database_view \<Rightarrow> bool" where
  "ready_database alias requested now db \<longleftrightarrow>
     dv_connect db = Inr () \<and> dv_vendor db = ''postgresql'' \<and>
     (\<exists>tables. dv_tables db = Inr tables \<and> {''task_entries'', ''dewey_dispatcher_heartbeats''} \<subseteq> set tables) \<and>
     (\<exists>applied. dv_applied db = Inr applied \<and>
        (''dewey'', ''0002_task_expiry_and_dispatcher_heartbeat'') \<in> set applied) \<and>
     (\<exists>rows. dv_heartbeats db = Inr rows \<and> (\<exists>h \<in> set rows. answers alias requested now h))"

lemma doctor_database_passes:
  assumes "\<And>config. get_settings dewey = Inr config \<Longrightarrow> cfg config ''DATABASE'' = SStr a"
  shows "passes (doctor_database dewey qo connections now) fs \<longleftrightarrow>
    clean fs \<and> (\<exists>config db requested. get_settings dewey = Inr config \<and> truthy (cfg config ''DISPATCH'') \<and>
      connections (SStr a) = Inr db \<and> requested_queues qo config = Inr requested \<and>
      ready_database a requested now db)"
proof -
  note more = more_intros more_calls doctor_heartbeats_more
  have "passes (doctor_database dewey qo connections now) fs \<longleftrightarrow>
    (\<exists>config. get_settings dewey = Inr config \<and> truthy (cfg config ''DISPATCH'') \<and>
      (\<exists>db. connections (cfg config ''DATABASE'') = Inr db \<and> (\<exists>u. dv_connect db = Inr u) \<and>
        dv_vendor db = ''postgresql'' \<and>
        (\<exists>tables. dv_tables db = Inr tables \<and> ''task_entries'' \<in> set tables \<and>
           ''dewey_dispatcher_heartbeats'' \<in> set tables \<and>
           (\<exists>applied. dv_applied db = Inr applied \<and>
              (''dewey'', ''0002_task_expiry_and_dispatcher_heartbeat'') \<in> set applied \<and>
              (\<exists>requested. requested_queues qo config = Inr requested \<and>
                 passes (doctor_heartbeats (cfg config ''DATABASE'') requested now db) fs)))))"
    unfolding doctor_database_def Let_def
    by (simp only: passes_result passes_add more simp_thms not_not ex_simps conj_assoc)
  then show ?thesis
    using assms by (auto simp: doctor_heartbeats_passes ready_database_def)
qed

text \<open>
  C31. When the doctor reports that a deployment is ready.  It does so exactly when no system check
  found an error, the settings are accepted and name a transport, the dispatcher's database can be
  reached, is PostgreSQL, has both tables and the last migration, and a dispatcher of that database
  reported itself within the last 45 seconds: one for all queues when no queue was asked for, one that
  serves every queue asked for otherwise.
\<close>

theorem doctor_ready:
  assumes "\<And>config. get_settings dewey = Inr config \<Longrightarrow> cfg config ''DATABASE'' = SStr a"
  shows "fst (doctor checks dewey qo connections now task_types) = Inr () \<longleftrightarrow>
    clean checks \<and> (\<exists>config db requested. get_settings dewey = Inr config \<and>
      truthy (cfg config ''DISPATCH'') \<and> connections (SStr a) = Inr db \<and>
      requested_queues qo config = Inr requested \<and> ready_database a requested now db)"
proof -
  obtain r fs where db: "doctor_database dewey qo connections now checks = (r, fs)" by (metis surj_pair)
  have "fst (doctor checks dewey qo connections now task_types) = Inr () \<longleftrightarrow>
      passes (doctor_database dewey qo connections now) checks"
    using db
    by (cases r)
      (auto simp: doctor_def passes_def io_defs add_finding_def clean_def split: if_splits)
  also note doctor_database_passes [OF assms]
  finally show ?thesis .
qed

definition sample_project :: setting where
  "sample_project = SDict [(''DISPATCH'', SCallable 0)]"

definition sample_view :: database_view where
  "sample_view = \<lparr>dv_connect = Inr (), dv_vendor = ''postgresql'',
     dv_tables = Inr [''task_entries'', ''dewey_dispatcher_heartbeats''],
     dv_applied = Inr [(''dewey'', ''0002_task_expiry_and_dispatcher_heartbeat'')],
     dv_heartbeats = Inr [\<lparr>hb_instance_id = ''i'', hb_version = ''1'', hb_backend = ''django'',
       hb_database = ''default'', hb_queues = Some [''mail''], hb_started_at = 0, hb_last_seen_at = 90 * second\<rparr>]\<rparr>"

lemma sample_settings:
  "get_settings (Some sample_project) = Inr ((''DISPATCH'', SCallable 0) # tl default_settings)"
  by (simp add: get_settings_def sample_project_def truthy_def default_settings_def)

lemma sample_answers:
  "answers ''default'' (Some []) (100 * second) \<lparr>hb_instance_id = ''i'', hb_version = ''1'', hb_backend = ''django'',
     hb_database = ''default'', hb_queues = Some [''mail''], hb_started_at = 0, hb_last_seen_at = 90 * second\<rparr>"
proof -
  have "seconds_before (100 * second) default_heartbeat_stale_seconds = Inr (55 * second)" by code_simp
  then show ?thesis by (simp add: answers_def is_fresh_def del: arith_simps)
qed

theorem doctor_ready_witness:
  "fst (doctor [] (Some sample_project) (Some '','') (\<lambda>_. Inr sample_view) (100 * second) []) = Inr ()"
proof -
  have "split_queues '','' = []" by (simp add: split_queues_def strip_def)
  then show ?thesis
    by (subst doctor_ready [where a = "''default''"])
      (auto simp: sample_settings cfg_def default_settings_def truthy_def requested_queues_def
        ready_database_def sample_view_def sample_answers [simplified])
qed

section \<open>Settings\<close>


text \<open>
  What passing the system checks establishes.  They report no error exactly when the settings are
  accepted, the aliases of the producer, the dispatcher and the worker (where there is one) are
  PostgreSQL databases of the project, the transport is unset or can be imported and called, the
  sweep interval is a positive number or none, and the Huey wiring, where it is the transport, has
  registered its processor.
\<close>

definition postgresql_alias :: "(string \<times> string) list \<Rightarrow> setting \<Rightarrow> bool" where
  "postgresql_alias databases v \<longleftrightarrow> v = SNone \<or> (\<exists>a. v = SStr a \<and> is_postgresql_alias databases a)"

lemma check_alias_clean: "clean (check_alias databases v) \<longleftrightarrow> postgresql_alias databases v"
  by (auto simp: check_alias_def postgresql_alias_def is_postgresql_alias_def clean_def
      split: setting.split dest!: map_of_SomeD intro: rev_image_eqI)

lemma checks_sound:
  "(\<exists>fs. check_dewey_configuration dewey databases producer import_string wiring = Inr fs \<and> clean fs) \<longleftrightarrow>
   (\<exists>config. get_settings dewey = Inr config \<and>
      postgresql_alias databases producer \<and> postgresql_alias databases (cfg config ''DATABASE'') \<and>
      postgresql_alias databases (cfg config ''WORKER_DATABASE'') \<and>
      (\<not> truthy (cfg config ''DISPATCH'') \<or> (\<exists>f. get_dispatch_fn import_string dewey = Inr f)) \<and>
      (cfg config ''SWEEP_INTERVAL_SECONDS'' = SNone \<or> positive_number (cfg config ''SWEEP_INTERVAL_SECONDS'')) \<and>
      (cfg config ''DISPATCH'' \<noteq> SStr ''dewey.contrib.django_huey.dispatch'' \<or> wiring = Inr True))"
proof (cases "get_settings dewey")
  case (Inl e)
  then show ?thesis by (simp add: check_dewey_configuration_def)
next
  case (Inr config)
  have wiring: "(\<exists>fs. check_wiring wiring config = Inr fs \<and> clean fs) \<longleftrightarrow>
      cfg config ''DISPATCH'' \<noteq> SStr ''dewey.contrib.django_huey.dispatch'' \<or> wiring = Inr True"
    by (auto simp: check_wiring_def split: sum.splits)
  have dispatch: "(\<exists>fs. check_dispatch import_string dewey config = Inr fs \<and> clean fs) \<longleftrightarrow>
      \<not> truthy (cfg config ''DISPATCH'') \<or> (\<exists>f. get_dispatch_fn import_string dewey = Inr f)"
    by (auto simp: check_dispatch_def split: sum.splits)
  have sweep: "clean (check_sweep_interval config) \<longleftrightarrow>
      cfg config ''SWEEP_INTERVAL_SECONDS'' = SNone \<or> positive_number (cfg config ''SWEEP_INTERVAL_SECONDS'')"
    by (simp add: check_sweep_interval_def)
  have "(\<exists>fs. check_dewey_configuration dewey databases producer import_string wiring = Inr fs \<and> clean fs) \<longleftrightarrow>
    clean (check_alias databases producer) \<and> clean (check_alias databases (cfg config ''DATABASE'')) \<and>
    clean (check_alias databases (cfg config ''WORKER_DATABASE'')) \<and>
    (\<exists>fs. check_dispatch import_string dewey config = Inr fs \<and> clean fs) \<and>
    clean (check_sweep_interval config) \<and> (\<exists>fs. check_wiring wiring config = Inr fs \<and> clean fs)"
    using Inr
    by (cases "check_dispatch import_string dewey config"; cases "check_wiring wiring config")
      (auto simp: check_dewey_configuration_def Let_def)
  then show ?thesis using Inr unfolding wiring dispatch sweep check_alias_clean by simp
qed

end
