(* ===== verification/Huey_Adapter.thy ===== *)
theory Huey_Adapter
  imports Dj_Config Dj_Executor Py_Io
begin

text \<open>
  The transport: \<open>src/dewey/adapters/huey.py\<close> and the wiring of \<open>src/dewey/contrib/django_huey.py\<close>.

  Huey is not under \<open>src\<close>.  \<open>hy_tasks\<close> is its registry of task names with their retries, which refuses
  a name twice; \<open>hy_queue\<close> what was enqueued; \<open>broker i\<close> what enqueueing \<open>i\<close> raises.  \<open>hy_stash\<close> is the
  attribute the wiring leaves on the Huey instance, which survives a reload of the module.  A processing
  function is a number.
\<close>

section \<open>The adapter\<close>

record huey_adapter =
  ha_task_name :: string
  ha_process_task :: "nat option"

record huey =
  hy_tasks :: "(string \<times> nat) list"
  hy_queue :: "(string \<times> string) list"
  hy_stash :: "huey_adapter option"

definition adapter_init :: "string \<Rightarrow> huey_adapter" where
  "adapter_init task_name = \<lparr>ha_task_name = task_name, ha_process_task = None\<rparr>"

text \<open>\<open>huey.task(name=..., retries=...)(f)\<close>\<close>

definition huey_task :: "string \<Rightarrow> nat \<Rightarrow> huey \<Rightarrow> unit result \<times> huey" where
  "huey_task name retries h =
     (if name \<in> set (map fst (hy_tasks h))
      then (Inl (py_exn ValueErrorC ''Attempting to register a task with the same identifier''), h)
      else (Inr (), h\<lparr>hy_tasks := hy_tasks h @ [(name, retries)]\<rparr>))"

definition huey_register :: "nat \<Rightarrow> (huey_adapter \<times> huey, unit) io" where
  "huey_register process_fn \<sigma> =
     (if ha_process_task (fst \<sigma>) \<noteq> None
      then (Inl (py_exn RuntimeErrorC ''HueyAdapter.register() was called twice in this process''), \<sigma>)
      else case huey_task (ha_task_name (fst \<sigma>)) 0 (snd \<sigma>) of
             (Inl e, h) \<Rightarrow> (Inl e, fst \<sigma>, h)
           | (Inr _, h) \<Rightarrow> (Inr (), (fst \<sigma>)\<lparr>ha_process_task := Some process_fn\<rparr>, h))"

definition huey_dispatch :: "(string \<Rightarrow> exn option) \<Rightarrow> huey_adapter \<Rightarrow> string \<Rightarrow> (huey, unit) io" where
  "huey_dispatch broker a task_id h =
     (if ha_process_task a = None
      then (Inl (py_exn RuntimeErrorC ''HueyAdapter.register() must be called before dispatch()''), h)
      else case broker task_id of
             Some e \<Rightarrow> (Inl e, h)
           | None \<Rightarrow> (Inr (), h\<lparr>hy_queue := hy_queue h @ [(ha_task_name a, task_id)]\<rparr>))"

section \<open>The wiring\<close>

text \<open>What importing the module finds: Django, its settings, Huey, and Huey's Django integration.\<close>

record wiring_env =
  we_has_django :: bool
  we_configured :: bool
  we_huey_setting :: bool
  we_missing :: "string option"   \<comment> \<open>the missing module when \<open>huey.exceptions\<close> is imported\<close>
  we_djhuey :: "unit result"
  we_dewey :: "setting option"
  we_databases :: "string list"

fun top_package :: "string \<Rightarrow> string" where
  "top_package [] = []"
| "top_package (c # cs) = (if c = CHR ''.'' then [] else c # top_package cs)"

definition module_not_found :: "string \<Rightarrow> exn" where
  "module_not_found msg = py_exn (UserC ''ModuleNotFoundError'' [import_error]) msg"

definition resolve_worker_database :: "setting option \<Rightarrow> string list \<Rightarrow> string option result" where
  "resolve_worker_database dewey databases =
     (case get_settings dewey of
        Inl e \<Rightarrow> Inl e
      | Inr config \<Rightarrow>
          (case cfg config ''WORKER_DATABASE'' of
             SNone \<Rightarrow> Inr None
           | SStr alias \<Rightarrow>
               if alias \<notin> set databases
               then Inl (improperly_configured ''DEWEY[WORKER_DATABASE] is not a DATABASES alias'')
               else Inr (Some alias)
           | _ \<Rightarrow> Inl (improperly_configured ''DEWEY[WORKER_DATABASE] must be a database alias string or None'')))"

definition wiring_guards :: "wiring_env \<Rightarrow> unit result" where
  "wiring_guards we =
     (if \<not> we_has_django we then Inl (module_not_found ''dewey.contrib.django_huey needs Django'')
      else if \<not> we_configured we
      then Inl (improperly_configured ''dewey.contrib.django_huey needs configured Django settings'')
      else if \<not> we_huey_setting we
      then Inl (improperly_configured ''dewey.contrib.django_huey needs a HUEY setting'')
      else case we_missing we of
        Some name \<Rightarrow>
          if top_package name \<noteq> ''huey'' then Inl (module_not_found name)
          else Inl (improperly_configured ''dewey.contrib.django_huey needs Huey'')
      | None \<Rightarrow>
          (case we_djhuey we of
             Inr _ \<Rightarrow> Inr ()
           | Inl e \<Rightarrow>
               if isinstance e [exn_class (improperly_configured '''')]
               then Inl (improperly_configured ''huey.contrib.djhuey could not initialize'')
               else if isinstance e [UserC ''ConfigurationError'' [ExceptionC], UserC ''SystemExit'' [BaseExceptionC]]
               then Inl (improperly_configured ''huey.contrib.djhuey could not build a Huey instance'')
               else Inl e))"

definition wiring_task_name :: string where
  "wiring_task_name = ''dewey_process_task''"

text \<open>Importing or reloading the module; \<open>worker\<close> is its processing function.\<close>

definition import_wiring :: "nat \<Rightarrow> wiring_env \<Rightarrow> (huey, huey_adapter) io" where
  "import_wiring worker we h =
     (case wiring_guards we of
        Inl e \<Rightarrow> (Inl e, h)
      | Inr _ \<Rightarrow>
          (case resolve_worker_database (we_dewey we) (we_databases we) of
             Inl e \<Rightarrow> (Inl e, h)
           | Inr _ \<Rightarrow>
               (case hy_stash h of
                  Some a \<Rightarrow> (Inr a, h)
                | None \<Rightarrow>
                    (case huey_register worker (adapter_init wiring_task_name, h) of
                       (Inl e, _, h') \<Rightarrow> (Inl e, h')
                     | (Inr _, a, h') \<Rightarrow> (Inr a, h'\<lparr>hy_stash := Some a\<rparr>)))))"

text \<open>\<open>_process\<close>: the worker's alias goes to \<open>process_task\<close>; \<open>routed\<close> is the choice of the routers.\<close>

definition wiring_alias :: "wiring_env \<Rightarrow> string \<Rightarrow> string result" where
  "wiring_alias we routed =
     (case resolve_worker_database (we_dewey we) (we_databases we) of
        Inl e \<Rightarrow> Inl e | Inr using_alias \<Rightarrow> Inr (resolve_db_alias routed using_alias))"

section \<open>A process\<close>

text \<open>What a process does: import or reload the wiring, and dispatch through the module.\<close>

datatype wiring_use = ImportWiring wiring_env | Send string

definition use_wiring ::
    "nat \<Rightarrow> (string \<Rightarrow> exn option) \<Rightarrow> huey \<times> huey_adapter option \<Rightarrow> wiring_use \<Rightarrow> huey \<times> huey_adapter option" where
  "use_wiring worker broker \<sigma> u =
     (case u of
        ImportWiring we \<Rightarrow>
          (case import_wiring worker we (fst \<sigma>) of
             (Inl e, h) \<Rightarrow> (h, snd \<sigma>) | (Inr a, h) \<Rightarrow> (h, Some a))
      | Send i \<Rightarrow>
          (case snd \<sigma> of
             None \<Rightarrow> \<sigma>
           | Some a \<Rightarrow> (snd (huey_dispatch broker a i (fst \<sigma>)), snd \<sigma>)))"

definition importable :: "wiring_env \<Rightarrow> bool" where
  "importable we \<longleftrightarrow>
     wiring_guards we = Inr () \<and> (\<exists>a. resolve_worker_database (we_dewey we) (we_databases we) = Inr a)"

text \<open>The identifiers the broker took: those sent after the first import that succeeded.\<close>

fun taken :: "(string \<Rightarrow> exn option) \<Rightarrow> bool \<Rightarrow> wiring_use list \<Rightarrow> string list" where
  "taken broker wired [] = []"
| "taken broker wired (ImportWiring we # us) = taken broker (wired \<or> importable we) us"
| "taken broker wired (Send i # us) =
     (if wired \<and> broker i = None then i # taken broker wired us else taken broker wired us)"

definition wired_adapter :: "nat \<Rightarrow> huey_adapter" where
  "wired_adapter worker = \<lparr>ha_task_name = wiring_task_name, ha_process_task = Some worker\<rparr>"

lemma import_wiring_first:
  assumes "hy_stash h = None" and "wiring_task_name \<notin> set (map fst (hy_tasks h))"
  shows "importable we \<Longrightarrow> import_wiring worker we h =
      (Inr (wired_adapter worker), h\<lparr>hy_tasks := hy_tasks h @ [(wiring_task_name, 0)],
         hy_stash := Some (wired_adapter worker)\<rparr>)"
    and "\<not> importable we \<Longrightarrow> \<exists>e. import_wiring worker we h = (Inl e, h)"
  using assms
  by (auto simp: import_wiring_def importable_def huey_register_def huey_task_def adapter_init_def
      wired_adapter_def split: sum.splits)

lemma import_wiring_again:
  assumes "hy_stash h = Some a"
  shows "importable we \<Longrightarrow> import_wiring worker we h = (Inr a, h)"
    and "\<not> importable we \<Longrightarrow> \<exists>e. import_wiring worker we h = (Inl e, h)"
  using assms by (auto simp: import_wiring_def importable_def split: sum.splits)

lemma wired_uses:
  assumes "hy_stash h = Some (wired_adapter worker)" and "m = Some (wired_adapter worker)"
  shows "foldl (use_wiring worker broker) (h, m) us =
    (h\<lparr>hy_queue := hy_queue h @ map (Pair wiring_task_name) (taken broker True us)\<rparr>, m)"
  using assms
proof (induction us arbitrary: h)
  case (Cons u us)
  show ?case
  proof (cases u)
    case (ImportWiring we)
    have "use_wiring worker broker (h, m) u = (h, m)"
      using import_wiring_again(1) [OF Cons.prems(1), where we = we and worker = worker]
        import_wiring_again(2) [OF Cons.prems(1), where we = we and worker = worker] Cons.prems ImportWiring
      by (cases "importable we") (auto simp: use_wiring_def)
    then show ?thesis using Cons.IH [OF Cons.prems] ImportWiring by simp
  next
    case (Send i)
    have "use_wiring worker broker (h, m) u =
        (if broker i = None then h\<lparr>hy_queue := hy_queue h @ [(wiring_task_name, i)]\<rparr> else h, m)"
      using Cons.prems Send
      by (auto simp: use_wiring_def huey_dispatch_def wired_adapter_def)
    then show ?thesis
      using Cons.IH [of "h\<lparr>hy_queue := hy_queue h @ [(wiring_task_name, i)]\<rparr>"] Cons.IH [of h] Cons.prems Send
      by (cases "broker i") simp_all
  qed
qed simp

text \<open>
  C33. One processor per process.  Whatever a process does, in whatever order it imports and reloads the
  wiring, in environments that allow it or do not, and however the broker fails: Huey's registry gains
  the processor once, with no retries, and only if some import succeeded; and the broker has, once
  each and in order, the identifiers sent since then that it took.
\<close>

theorem one_processor:
  assumes "hy_stash h = None" and "wiring_task_name \<notin> set (map fst (hy_tasks h))"
  shows "foldl (use_wiring worker broker) (h, None) us =
    (if \<exists>we. ImportWiring we \<in> set us \<and> importable we
     then (h\<lparr>hy_tasks := hy_tasks h @ [(wiring_task_name, 0)], hy_stash := Some (wired_adapter worker),
             hy_queue := hy_queue h @ map (Pair wiring_task_name) (taken broker False us)\<rparr>,
           Some (wired_adapter worker))
     else (h, None))"
proof (induction us)
  case Nil
  then show ?case by simp
next
  case (Cons u us)
  show ?case
  proof (cases u)
    case (ImportWiring we)
    show ?thesis
    proof (cases "importable we")
      case True
      then have "use_wiring worker broker (h, None) u =
          (h\<lparr>hy_tasks := hy_tasks h @ [(wiring_task_name, 0)], hy_stash := Some (wired_adapter worker)\<rparr>,
           Some (wired_adapter worker))"
        using import_wiring_first(1) [OF assms True, where worker = worker] ImportWiring by (simp add: use_wiring_def)
      then show ?thesis using True ImportWiring by (auto simp: wired_uses)
    next
      case False
      then have "use_wiring worker broker (h, None) u = (h, None)"
        using import_wiring_first(2) [OF assms False, where worker = worker] ImportWiring by (auto simp: use_wiring_def)
      then show ?thesis using False ImportWiring Cons.IH by auto
    qed
  next
    case (Send i)
    then have "use_wiring worker broker (h, None) u = (h, None)" by (simp add: use_wiring_def)
    then show ?thesis using Send Cons.IH by auto
  qed
qed

definition sample_wiring :: wiring_env where
  "sample_wiring = \<lparr>we_has_django = True, we_configured = True, we_huey_setting = True, we_missing = None,
     we_djhuey = Inr (), we_dewey = None, we_databases = [''default'']\<rparr>"

lemma sample_wiring_importable: "importable sample_wiring"
  by (simp add: importable_def wiring_guards_def sample_wiring_def resolve_worker_database_def
      get_settings_def cfg_def default_settings_def)

theorem one_processor_witness:
  "foldl (use_wiring 7 (\<lambda>i. if i = ''b'' then Some (py_exn RuntimeErrorC ''down'') else None))
     (\<lparr>hy_tasks = [], hy_queue = [], hy_stash = None\<rparr>, None)
     [Send ''a'', ImportWiring sample_wiring, Send ''b'', ImportWiring sample_wiring, Send ''c''] =
   (\<lparr>hy_tasks = [(wiring_task_name, 0)], hy_queue = [(wiring_task_name, ''c'')],
     hy_stash = Some (wired_adapter 7)\<rparr>, Some (wired_adapter 7))"
  by (subst one_processor) (auto simp: sample_wiring_importable)

end
