(* ===== verification/Dj_Package.thy ===== *)
theory Dj_Package
  imports Py_Runtime
begin

text \<open>
  The lazy names of \<open>src/dewey/django/__init__.py\<close>.

  \<open>p_globals\<close> is the namespace of the package, \<open>p_loaded\<close> the submodules in \<open>sys.modules\<close>.  Python's
  import system runs a submodule once, importing first what it imports, and binds it in the namespace
  of the package; \<open>__getattr__\<close> runs only for a name that is not bound there.  \<open>broken m\<close> is what
  running the submodule \<open>m\<close> raises.
\<close>

section \<open>Submodules\<close>

datatype pkg_value = Submodule string | Attribute string string

record django_package =
  p_globals :: "string \<Rightarrow> pkg_value option"
  p_loaded :: "string list"

text \<open>What the submodules import of the package, from the \<open>import\<close> statements at their top level.\<close>

definition imports_of :: "string \<Rightarrow> string list" where
  "imports_of m =
     (if m = ''executor'' then [''listen'', ''models'']
      else if m = ''sweep'' then [''models'']
      else if m = ''queries'' then [''models'']
      else if m = ''dispatch'' then [''models'', ''sweep'']
      else [])"

text \<open>A submodule that is there already is not bound again.\<close>

definition load_one :: "(string \<Rightarrow> exn option) \<Rightarrow> string \<Rightarrow> django_package \<Rightarrow> unit result \<times> django_package" where
  "load_one broken m p =
     (if m \<in> set (p_loaded p) then (Inr (), p)
      else case broken m of
             Some e \<Rightarrow> (Inl e, p)
           | None \<Rightarrow> (Inr (), p\<lparr>p_loaded := p_loaded p @ [m],
                                p_globals := (p_globals p)(m \<mapsto> Submodule m)\<rparr>))"

fun load_all :: "(string \<Rightarrow> exn option) \<Rightarrow> string list \<Rightarrow> django_package \<Rightarrow> unit result \<times> django_package" where
  "load_all broken [] p = (Inr (), p)"
| "load_all broken (m # ms) p =
     (case load_one broken m p of (Inl e, p') \<Rightarrow> (Inl e, p') | (Inr _, p') \<Rightarrow> load_all broken ms p')"

definition import_module :: "(string \<Rightarrow> exn option) \<Rightarrow> string \<Rightarrow> django_package \<Rightarrow> unit result \<times> django_package" where
  "import_module broken m p =
     (if m \<in> set (p_loaded p) then (Inr (), p) else load_all broken (imports_of m @ [m]) p)"

section \<open>The lazy names\<close>

text \<open>\<open>_LAZY\<close>, each module without its prefix \<open>dewey.django.\<close>\<close>

definition lazy_names :: "(string \<times> string) list" where
  "lazy_names =
     [(''create_task'', ''executor''), (''create_or_get_task'', ''executor''), (''process_task'', ''executor''),
      (''sweep'', ''sweep''), (''sweep_failed'', ''sweep''), (''sweep_stuck'', ''sweep''),
      (''sweep_dispatching'', ''sweep''), (''sweep_expired'', ''sweep''),
      (''get_stats'', ''queries''), (''get_pending'', ''queries''), (''get_dispatching'', ''queries''),
      (''get_dispatchers'', ''queries''), (''get_processing'', ''queries''), (''get_stuck'', ''queries''),
      (''get_failed'', ''queries''), (''get_dead'', ''queries''), (''get_expired'', ''queries''),
      (''get_task'', ''queries''), (''get_recent'', ''queries''), (''retry_task'', ''queries''),
      (''bulk_retry'', ''queries''), (''kill_task'', ''queries''), (''purge_completed'', ''queries'')]"

definition no_attribute :: exn where
  "no_attribute = py_exn (UserC ''AttributeError'' [ExceptionC]) ''module has no attribute''"

text \<open>\<open>needs_django e\<close>: the name of the missing module is \<open>django\<close> or in it.\<close>

definition lazy_getattr ::
    "(string \<Rightarrow> exn option) \<Rightarrow> (exn \<Rightarrow> bool) \<Rightarrow> string \<Rightarrow> django_package \<Rightarrow> pkg_value result \<times> django_package" where
  "lazy_getattr broken needs_django name p =
     (case map_of lazy_names name of
        None \<Rightarrow> (Inl no_attribute, p)
      | Some module_path \<Rightarrow>
          (case import_module broken module_path p of
             (Inl e, p') \<Rightarrow>
               if isinstance e [UserC ''ModuleNotFoundError'' [UserC ''ImportError'' [ExceptionC]]] \<and> needs_django e
               then (Inl (py_exn (UserC ''ModuleNotFoundError'' [UserC ''ImportError'' [ExceptionC]])
                       ''dewey.django needs Django, which is not installed''), p')
               else (Inl e, p')
           | (Inr _, p') \<Rightarrow>
               (let v = Attribute module_path name
                in (Inr v, p'\<lparr>p_globals := (p_globals p')(name \<mapsto> v)\<rparr>))))"

text \<open>\<open>dewey.django.name\<close>, or \<open>from dewey.django import name\<close> of a public name\<close>

definition resolve_name ::
    "(string \<Rightarrow> exn option) \<Rightarrow> (exn \<Rightarrow> bool) \<Rightarrow> string \<Rightarrow> django_package \<Rightarrow> pkg_value result \<times> django_package" where
  "resolve_name broken needs_django name p =
     (case p_globals p name of Some v \<Rightarrow> (Inr v, p) | None \<Rightarrow> lazy_getattr broken needs_django name p)"

definition fresh_package :: django_package where
  "fresh_package = \<lparr>p_globals = \<lambda>_. None, p_loaded = []\<rparr>"

section \<open>A process\<close>

text \<open>What the code of a process does with the package: read names, import submodules.\<close>

datatype pkg_use = ReadName string | ImportSubmodule string

definition submodules :: "string list" where
  "submodules = [''apps'', ''checks'', ''conf'', ''dispatch'', ''executor'', ''listen'', ''management'',
     ''migrations'', ''models'', ''queries'', ''sweep'']"

definition present :: "string \<Rightarrow> exn option" where
  "present m =
     (if m \<in> set submodules then None
      else Some (py_exn (UserC ''ModuleNotFoundError'' [UserC ''ImportError'' [ExceptionC]]) m))"

definition use_package :: "django_package \<Rightarrow> pkg_use \<Rightarrow> django_package" where
  "use_package p u =
     (case u of
        ReadName n \<Rightarrow> snd (resolve_name present (\<lambda>_. False) n p)
      | ImportSubmodule m \<Rightarrow> snd (import_module present m p))"

text \<open>The uses that run the submodule \<open>sweep\<close>, when nothing did before.\<close>

definition runs_sweep :: "pkg_use \<Rightarrow> bool" where
  "runs_sweep u =
     (case u of
        ReadName n \<Rightarrow> map_of lazy_names n = Some ''sweep''
      | ImportSubmodule m \<Rightarrow> m \<in> {''sweep'', ''dispatch''})"

section \<open>What the namespace holds\<close>

lemma load_all_effect:
  assumes "set ms \<subseteq> set submodules"
  shows "fst (load_all present ms p) = Inr ()"
    and "set (p_loaded (snd (load_all present ms p))) = set (p_loaded p) \<union> set ms"
    and "p_globals (snd (load_all present ms p)) x =
      (if x \<in> set ms \<and> x \<notin> set (p_loaded p) then Some (Submodule x) else p_globals p x)"
  using assms
  by (induction ms arbitrary: p) (auto simp: load_one_def present_def split: if_splits)

lemma imports_are_submodules: "set (imports_of m) \<subseteq> set submodules"
  by (auto simp: imports_of_def submodules_def)

lemma import_module_effect:
  assumes "m \<in> set submodules"
  shows "fst (import_module present m p) = Inr ()"
    and "set (p_loaded (snd (import_module present m p))) =
      (if m \<in> set (p_loaded p) then set (p_loaded p) else set (p_loaded p) \<union> set (imports_of m) \<union> {m})"
    and "p_globals (snd (import_module present m p)) x =
      (if m \<notin> set (p_loaded p) \<and> x \<in> set (imports_of m @ [m]) \<and> x \<notin> set (p_loaded p)
       then Some (Submodule x) else p_globals p x)"
proof -
  have ms: "set (imports_of m @ [m]) \<subseteq> set submodules" using assms imports_are_submodules by auto
  note eff = load_all_effect [OF ms, of p]
  show "fst (import_module present m p) = Inr ()"
    "set (p_loaded (snd (import_module present m p))) =
      (if m \<in> set (p_loaded p) then set (p_loaded p) else set (p_loaded p) \<union> set (imports_of m) \<union> {m})"
    "p_globals (snd (import_module present m p)) x =
      (if m \<notin> set (p_loaded p) \<and> x \<in> set (imports_of m @ [m]) \<and> x \<notin> set (p_loaded p)
       then Some (Submodule x) else p_globals p x)"
    using eff by (auto simp: import_module_def simp del: load_all.simps)
qed

text \<open>A submodule that is not there is not imported.\<close>

lemma import_module_absent:
  assumes "m \<notin> set submodules" and "set (p_loaded p) \<subseteq> set submodules"
  shows "snd (import_module present m p) = p"
proof -
  have "imports_of m = []" using assms(1) by (auto simp: imports_of_def submodules_def)
  then show ?thesis using assms by (auto simp: import_module_def load_one_def present_def)
qed

lemma lazy_modules:
  "map_of lazy_names n = Some m \<Longrightarrow> m \<in> {''executor'', ''sweep'', ''queries''}"
  by (auto simp: lazy_names_def split: if_splits)

lemma lazy_name_is_no_submodule:
  "map_of lazy_names n = Some m \<Longrightarrow> n \<noteq> ''sweep'' \<Longrightarrow> n \<notin> set submodules"
  by (auto simp: lazy_names_def submodules_def split: if_splits)

definition first_sweep :: "pkg_use list \<Rightarrow> pkg_value option" where
  "first_sweep us =
     map_option (\<lambda>u. if u = ReadName ''sweep'' then Attribute ''sweep'' ''sweep'' else Submodule ''sweep'')
       (find runs_sweep us)"

definition package_inv :: "pkg_use list \<Rightarrow> django_package \<Rightarrow> bool" where
  "package_inv us p \<longleftrightarrow>
     set (p_loaded p) \<subseteq> set submodules \<and>
     (\<forall>n m. map_of lazy_names n = Some m \<longrightarrow> n \<noteq> ''sweep'' \<longrightarrow>
        p_globals p n = None \<or> (p_globals p n = Some (Attribute m n) \<and> m \<in> set (p_loaded p))) \<and>
     (''sweep'' \<in> set (p_loaded p) \<longleftrightarrow> (\<exists>u \<in> set us. runs_sweep u)) \<and>
     (''dispatch'' \<in> set (p_loaded p) \<longrightarrow> ''sweep'' \<in> set (p_loaded p)) \<and>
     p_globals p ''sweep'' = first_sweep us"

lemma first_sweep_snoc:
  "first_sweep (us @ [u]) =
     (if \<exists>u \<in> set us. runs_sweep u then first_sweep us
      else if runs_sweep u
      then Some (if u = ReadName ''sweep'' then Attribute ''sweep'' ''sweep'' else Submodule ''sweep'') else None)"
proof (cases "find runs_sweep us")
  case None
  then have "\<not> (\<exists>u \<in> set us. runs_sweep u)" by (auto simp: find_None_iff)
  with None show ?thesis by (simp add: first_sweep_def find_snoc)
next
  case (Some v)
  then have "\<exists>u \<in> set us. runs_sweep u" by (auto simp: find_Some_iff)
  with Some show ?thesis by (simp add: first_sweep_def find_snoc)
qed

lemma first_sweep_None: "first_sweep us = None \<longleftrightarrow> \<not> (\<exists>u \<in> set us. runs_sweep u)"
  by (auto simp: first_sweep_def find_None_iff)

lemma who_imports:
  "''sweep'' \<in> set (imports_of m @ [m]) \<longleftrightarrow> m \<in> {''sweep'', ''dispatch''}"
  "''dispatch'' \<in> set (imports_of m @ [m]) \<longleftrightarrow> m = ''dispatch''"
  by (auto simp: imports_of_def)

text \<open>The import of a submodule keeps what the lazy names are bound to, but for \<open>sweep\<close>.\<close>

lemma import_keeps_inv:
  assumes inv: "package_inv us p" and m: "m \<in> set submodules"
  defines "p' \<equiv> snd (import_module present m p)"
  shows "set (p_loaded p') \<subseteq> set submodules"
    and "m \<in> set (p_loaded p')" and "set (p_loaded p) \<subseteq> set (p_loaded p')"
    and "map_of lazy_names n = Some k \<Longrightarrow> n \<noteq> ''sweep'' \<Longrightarrow> p_globals p' n = p_globals p n"
    and "''sweep'' \<in> set (p_loaded p') \<longleftrightarrow> ''sweep'' \<in> set (p_loaded p) \<or> m \<in> {''sweep'', ''dispatch''}"
    and "''dispatch'' \<in> set (p_loaded p') \<Longrightarrow> ''sweep'' \<in> set (p_loaded p')"
    and "p_globals p' ''sweep'' =
      (if ''sweep'' \<notin> set (p_loaded p) \<and> m \<in> {''sweep'', ''dispatch''} then Some (Submodule ''sweep'')
       else p_globals p ''sweep'')"
proof -
  note eff = import_module_effect [OF m, of p, folded p'_def]
  show "set (p_loaded p') \<subseteq> set submodules" "m \<in> set (p_loaded p')" "set (p_loaded p) \<subseteq> set (p_loaded p')"
    using inv m imports_are_submodules [of m] eff(2) by (auto simp: package_inv_def)
  show "p_globals p' n = p_globals p n" if "map_of lazy_names n = Some k" "n \<noteq> ''sweep''"
    using lazy_name_is_no_submodule [OF that] m imports_are_submodules [of m] eff(3) [of n] by auto
  have loaded: "x \<in> set (p_loaded p') \<longleftrightarrow>
      x \<in> set (p_loaded p) \<or> (m \<notin> set (p_loaded p) \<and> x \<in> set (imports_of m @ [m]))" for x
    unfolding eff(2) by (cases "m \<in> set (p_loaded p)") (simp_all add: disj_commute disj_left_commute)
  have dispatch: "''dispatch'' \<in> set (p_loaded p) \<Longrightarrow> ''sweep'' \<in> set (p_loaded p)"
    using inv unfolding package_inv_def by blast
  have here: "m \<in> set (p_loaded p) \<Longrightarrow> m \<in> {''sweep'', ''dispatch''} \<Longrightarrow> ''sweep'' \<in> set (p_loaded p)"
    using dispatch by blast
  show sweep: "''sweep'' \<in> set (p_loaded p') \<longleftrightarrow> ''sweep'' \<in> set (p_loaded p) \<or> m \<in> {''sweep'', ''dispatch''}"
    unfolding loaded who_imports using here by blast
  show "''sweep'' \<in> set (p_loaded p')" if "''dispatch'' \<in> set (p_loaded p')"
    using that dispatch unfolding sweep loaded [of "''dispatch''"] who_imports(2) by blast
  show "p_globals p' ''sweep'' =
      (if ''sweep'' \<notin> set (p_loaded p) \<and> m \<in> {''sweep'', ''dispatch''} then Some (Submodule ''sweep'')
       else p_globals p ''sweep'')"
    unfolding eff(3) [of "''sweep''"] who_imports(1) using here
    by (cases "''sweep'' \<in> set (p_loaded p)"; cases "m \<in> {''sweep'', ''dispatch''}";
        cases "m \<in> set (p_loaded p)") (simp_all only: simp_thms if_True if_False)
qed

lemma invD:
  assumes "package_inv us p"
  shows "set (p_loaded p) \<subseteq> set submodules"
    and "map_of lazy_names n = Some k \<Longrightarrow> n \<noteq> ''sweep'' \<Longrightarrow>
      p_globals p n = None \<or> (p_globals p n = Some (Attribute k n) \<and> k \<in> set (p_loaded p))"
    and "''sweep'' \<in> set (p_loaded p) \<longleftrightarrow> (\<exists>u \<in> set us. runs_sweep u)"
    and "''dispatch'' \<in> set (p_loaded p) \<Longrightarrow> ''sweep'' \<in> set (p_loaded p)"
    and "p_globals p ''sweep'' = first_sweep us"
  using assms unfolding package_inv_def by blast+

lemma inv_same:
  assumes "first_sweep us' = first_sweep us" and "package_inv us p" shows "package_inv us' p"
proof -
  have "(\<exists>u \<in> set us'. runs_sweep u) \<longleftrightarrow> (\<exists>u \<in> set us. runs_sweep u)"
    using assms(1) first_sweep_None [of us] first_sweep_None [of us'] by metis
  with assms show ?thesis unfolding package_inv_def by metis
qed

lemma import_step:
  assumes "package_inv us p" shows "package_inv (us @ [ImportSubmodule m]) (use_package p (ImportSubmodule m))"
proof (cases "m \<in> set submodules")
  case True
  note keeps = import_keeps_inv [OF assms True]
  let ?p = "snd (import_module present m p)"
  have runs: "runs_sweep (ImportSubmodule m) \<longleftrightarrow> m \<in> {''sweep'', ''dispatch''}" by (simp add: runs_sweep_def)
  show ?thesis
    unfolding package_inv_def use_package_def pkg_use.case
  proof (intro conjI allI impI)
    show "set (p_loaded ?p) \<subseteq> set submodules" by (rule keeps(1))
    show "p_globals ?p n = None \<or> p_globals ?p n = Some (Attribute k n) \<and> k \<in> set (p_loaded ?p)"
      if "map_of lazy_names n = Some k" "n \<noteq> ''sweep''" for n k
      using invD(2) [OF assms that] keeps(4) [OF that] keeps(3) by auto
    show "''sweep'' \<in> set (p_loaded ?p) \<longleftrightarrow> (\<exists>u \<in> set (us @ [ImportSubmodule m]). runs_sweep u)"
      unfolding keeps(5) invD(3) [OF assms] using runs by auto
    show "''sweep'' \<in> set (p_loaded ?p)" if "''dispatch'' \<in> set (p_loaded ?p)" using keeps(6) that .
    show "p_globals ?p ''sweep'' = first_sweep (us @ [ImportSubmodule m])"
      unfolding keeps(7) invD(3,5) [OF assms] first_sweep_snoc runs
      using first_sweep_None [of us] by simp
  qed
next
  case False
  then have "\<not> runs_sweep (ImportSubmodule m)" by (auto simp: submodules_def runs_sweep_def)
  then have "first_sweep (us @ [ImportSubmodule m]) = first_sweep us" "use_package p (ImportSubmodule m) = p"
    using import_module_absent [OF False invD(1) [OF assms]] first_sweep_None [of us]
    by (auto simp: use_package_def first_sweep_snoc)
  then show ?thesis using inv_same [OF _ assms] by simp
qed

lemma read_step:
  assumes "package_inv us p"
  shows "package_inv (us @ [ReadName n]) (use_package p (ReadName n))"
    and "map_of lazy_names n = Some k \<Longrightarrow> fst (resolve_name present f n p) =
      Inr (if n = ''sweep'' then (case first_sweep us of None \<Rightarrow> Attribute k n | Some v \<Rightarrow> v) else Attribute k n)"
proof -
  have runs: "runs_sweep (ReadName n) \<longleftrightarrow> map_of lazy_names n = Some ''sweep''" by (simp add: runs_sweep_def)
  have sweep: "map_of lazy_names ''sweep'' = Some ''sweep''" by (simp add: lazy_names_def)
  show "package_inv (us @ [ReadName n]) (use_package p (ReadName n))"
  proof (cases "p_globals p n = None \<and> map_of lazy_names n \<noteq> None")
    case False
    have "runs_sweep (ReadName n) \<Longrightarrow> \<exists>u \<in> set us. runs_sweep u"
      using False invD(2) [OF assms, of n "''sweep''"] invD(3,5) [OF assms] first_sweep_None [of us]
      unfolding runs by (cases "n = ''sweep''") auto
    then have "first_sweep (us @ [ReadName n]) = first_sweep us"
      using first_sweep_None [of us] by (auto simp: first_sweep_snoc)
    moreover have "use_package p (ReadName n) = p"
      using False by (auto simp: use_package_def resolve_name_def lazy_getattr_def split: option.split)
    ultimately show ?thesis using inv_same [OF _ assms] by simp
  next
    case True
    then obtain m where m: "map_of lazy_names n = Some m" "p_globals p n = None" by auto
    then have sub: "m \<in> set submodules" using lazy_modules by (fastforce simp: submodules_def)
    note keeps = import_keeps_inv [OF assms sub]
    let ?q = "snd (import_module present m p)"
    have p': "use_package p (ReadName n) = ?q\<lparr>p_globals := (p_globals ?q)(n \<mapsto> Attribute m n)\<rparr>"
      using m import_module_effect(1) [OF sub, of p]
      by (cases "import_module present m p") (simp add: use_package_def resolve_name_def lazy_getattr_def Let_def)
    have m_sweep: "m \<in> {''sweep'', ''dispatch''} \<longleftrightarrow> m = ''sweep''" using lazy_modules [OF m(1)] by auto
    have runs': "runs_sweep (ReadName n) \<longleftrightarrow> m = ''sweep''" using m runs by simp
    show ?thesis
      unfolding package_inv_def p'
    proof (intro conjI allI impI, goal_cases)
      case 1 then show ?case using keeps(1) by simp
    next
      case (2 n' k)
      then show ?case using invD(2) [OF assms 2] keeps(4) [OF 2] keeps(2,3) m(1) by auto
    next
      case 3
      then show ?case
        using keeps(5) invD(3) [OF assms] unfolding m_sweep by (auto simp: runs')
    next
      case 4 then show ?case using keeps(6) by simp
    next
      case 5
      show ?case
      proof (cases "n = ''sweep''")
        case True
        then have "m = ''sweep''" "first_sweep us = None" using m sweep invD(5) [OF assms] by auto
        then show ?thesis using True first_sweep_None [of us] runs' by (simp add: first_sweep_snoc)
      next
        case False
        then show ?thesis
          using keeps(7) invD(3,5) [OF assms] first_sweep_None [of us] unfolding m_sweep
          by (simp add: first_sweep_snoc runs')
      qed
    qed
  qed
  show "fst (resolve_name present f n p) =
      Inr (if n = ''sweep'' then (case first_sweep us of None \<Rightarrow> Attribute k n | Some v \<Rightarrow> v) else Attribute k n)"
    if k: "map_of lazy_names n = Some k"
  proof (cases "p_globals p n")
    case None
    have sub: "k \<in> set submodules" using lazy_modules [OF k] by (auto simp: submodules_def)
    have "fst (resolve_name present f n p) = Inr (Attribute k n)"
      using None k import_module_effect(1) [OF sub, of p]
      by (cases "import_module present k p") (simp add: resolve_name_def lazy_getattr_def Let_def)
    then show ?thesis using None invD(5) [OF assms] by auto
  next
    case (Some v)
    then show ?thesis
      using invD(2) [OF assms k] invD(5) [OF assms] by (cases "n = ''sweep''") (auto simp: resolve_name_def)
  qed
qed

lemma package_inv_uses: "package_inv us (foldl use_package fresh_package us)"
proof (induction us rule: rev_induct)
  case Nil
  then show ?case by (simp add: package_inv_def fresh_package_def first_sweep_def)
next
  case (snoc u us)
  then show ?case using import_step read_step(1) by (cases u) simp_all
qed

section \<open>Which object a public name is\<close>

text \<open>
  The public names of \<open>dewey.django\<close>.  Whatever a process read and imported before, in whatever
  order, every public name but \<open>sweep\<close> is the attribute of that name of its module.  \<open>sweep\<close> is the
  function only when nothing ran the submodule before the first reading of \<open>dewey.django.sweep\<close>: once
  another sweep function was read, or the submodule or the dispatch backend imported, it is the
  submodule.
\<close>

lemma lazy_names_resolve:
  fixes us :: "pkg_use list"
  defines "p \<equiv> foldl use_package fresh_package us"
  assumes "map_of lazy_names n = Some m"
  shows "fst (resolve_name present nd n p) = Inr
    (if n = ''sweep'' then
       (case find runs_sweep us of
          Some u \<Rightarrow> if u = ReadName ''sweep'' then Attribute m n else Submodule n
        | None \<Rightarrow> Attribute m n)
     else Attribute m n)"
proof -
  have "map_of lazy_names ''sweep'' = Some ''sweep''" by (simp add: lazy_names_def)
  then show ?thesis
    using read_step(2) [OF package_inv_uses [of us] assms(2), of nd, folded p_def] assms(2)
    by (auto simp: first_sweep_def split: option.split)
qed

end
