(* ===== verification/Dj_Backend.thy ===== *)
theory Dj_Backend
  imports Sa_Backend Dj_Dispatch Dj_Commands
begin

text \<open>
  The Django backend under the dispatcher: the site of \<open>Sa_Backend\<close> with the operations of
  \<open>DjangoDispatchBackend\<close> for those of the SQLAlchemy backend.  The contract follows from the SQLAlchemy
  operations and the agreement of the two up to modification times.
\<close>

section \<open>The calls\<close>

definition dj_claim :: "site \<Rightarrow> nat \<Rightarrow> world \<Rightarrow> string list result \<times> world" where
  "dj_claim v n w =
     (let k = w_calls w; w1 = tick v w in
      if v_database_down v k then (Inl database_error, w1)
      else let (ids, db) = django_claim (v_backend v) (v_clk v k) (v_locked v k) alone n (w_db w1)
           in (Inr ids, w1\<lparr>w_db := db, w_handed := filter (\<lambda>i. i \<notin> set ids) (w_handed w1)\<rparr>))"

definition dj_release :: "site \<Rightarrow> string list \<Rightarrow> world \<Rightarrow> unit result \<times> world" where
  "dj_release v ids w =
     (let k = w_calls w; w1 = tick v w in
      if v_database_down v k then (Inl database_error, w1)
      else (Inr (), w1\<lparr>w_db := django_release ids (w_db w1)\<rparr>))"

definition dj_sweep :: "site \<Rightarrow> world \<Rightarrow> sweep_result result \<times> world" where
  "dj_sweep v w =
     (let k = w_calls w; w1 = tick v w in
      if v_database_down v k then (Inl database_error, w1)
      else let (result, db) = django_run_sweep (v_backend v) (\<lambda>j n. v_clk v k (3 * j + n)) (v_locked v k 0)
                 (\<lambda>_. alone) (w_db w1)
           in (Inr result, w1\<lparr>w_db := db\<rparr>))"

definition dj_heartbeat :: "site \<Rightarrow> world \<Rightarrow> unit result \<times> world" where
  "dj_heartbeat v w =
     (let k = w_calls w; w1 = tick v w in
      if v_database_down v k then (Inl database_error, w1)
      else (Inr (), w1\<lparr>w_heartbeats :=
             django_heartbeat (v_version v) (v_backend v) (v_clk v k 0) (w_heartbeats w1)\<rparr>))"

definition dj_next_due :: "site \<Rightarrow> world \<Rightarrow> datetime option result \<times> world" where
  "dj_next_due v w =
     (let k = w_calls w; w1 = tick v w in
      if v_database_down v k then (Inl database_error, w1)
      else (Inr (django_next_due (v_backend v) (v_clk v k 0) (w_db w1)), w1))"

definition dj_close :: "site \<Rightarrow> world \<Rightarrow> unit result \<times> world" where
  "dj_close v w =
     (let k = w_calls w; w1 = tick v w
      in (Inr (), w1\<lparr>w_heartbeats :=
             django_close_heartbeat (\<not> v_database_down v k) (v_backend v) (w_heartbeats w1)\<rparr>))"

definition dj_io :: "site \<Rightarrow> world dispatch_io" where
  "dj_io v = (site_io v)
     \<lparr>op_claim := dj_claim v, op_release := dj_release v, op_run_sweep := dj_sweep v,
      op_heartbeat := Some (dj_heartbeat v), op_next_due := Some (dj_next_due v), op_close := dj_close v\<rparr>"

section \<open>The contract\<close>

lemma dispatching_agree: "agree a b \<Longrightarrow> dispatching a = dispatching b"
proof -
  assume "agree a b"
  then have "map row_id (filter (\<lambda>r. status r = DISPATCHING) a) = map row_id (filter (\<lambda>r. status r = DISPATCHING) b)"
    by (rule agree_filter_ids) simp
  then have "set (map row_id (filter (\<lambda>r. status r = DISPATCHING) a)) =
      set (map row_id (filter (\<lambda>r. status r = DISPATCHING) b))" by simp
  then show ?thesis by (simp add: dispatching_def)
qed

text \<open>The Django backend is a PostgreSQL one, whatever it is told.\<close>

abbreviation on_pg :: "backend \<Rightarrow> backend" where
  "on_pg b \<equiv> b\<lparr>b_postgresql := True\<rparr>"

lemma django_claim_on_pg: "django_claim (on_pg b) = django_claim b"
  by (intro ext) (simp add: django_claim_def)

lemma django_claim_as_claim:
  assumes "ledger_wf db"
  shows "fst (django_claim b clk locked alone n db) = fst (claim (on_pg b) clk locked alone n db)"
    and "dispatching (snd (django_claim b clk locked alone n db)) =
      dispatching (snd (claim (on_pg b) clk locked alone n db))"
    and "ledger_wf (snd (django_claim b clk locked alone n db))"
proof -
  have a: "fst (django_claim (on_pg b) clk locked alone n db)
        = candidates (on_pg b) clk locked n (claim_view (on_pg b) clk locked alone n db) \<and>
      agree (snd (claim (on_pg b) clk locked alone n db)) (snd (django_claim (on_pg b) clk locked alone n db))"
    by (rule django_claim_agrees) simp_all
  then show "fst (django_claim b clk locked alone n db) = fst (claim (on_pg b) clk locked alone n db)"
    "dispatching (snd (django_claim b clk locked alone n db)) =
      dispatching (snd (claim (on_pg b) clk locked alone n db))"
    using claim_alone [OF assms, of "on_pg b" clk locked n] by (auto simp: django_claim_on_pg dest: dispatching_agree)
  show "ledger_wf (snd (django_claim b clk locked alone n db))"
    using row_invariant.inv_django_claim [OF bare.row_invariant_axioms, of db b clk locked n] assms by (simp add: table_ok_bare)
qed

lemma django_release_quiet:
  assumes "ledger_wf db"
  shows "dispatching (django_release ids db) \<subseteq> dispatching db - set ids" and "ledger_wf (django_release ids db)"
proof -
  have "dispatching (release (\<lambda>_. 0) ids db) = dispatching (django_release ids db)"
    by (rule dispatching_agree [OF django_release_agrees [OF agree_refl]])
  then show "dispatching (django_release ids db) \<subseteq> dispatching db - set ids"
    using release_dispatching [of "\<lambda>_. 0" ids db] by simp
  show "ledger_wf (django_release ids db)"
    using row_invariant.inv_django_release [OF bare.row_invariant_axioms, of db ids] assms by (simp add: table_ok_bare)
qed

lemma django_run_sweep_quiet:
  assumes "ledger_wf db"
  shows "dispatching (snd (django_run_sweep b clks lk (\<lambda>_. alone) db)) \<subseteq> dispatching db"
    and "ledger_wf (snd (django_run_sweep b clks lk (\<lambda>_. alone) db))"
proof -
  let ?t = "begin_transaction db []"
  have db: "working ?t = db" by (simp add: begin_transaction_def)
  have "agree (working (snd (sweep True clks lk (\<lambda>_. alone) m n limit ?t)))
      (snd (django_sweep clks lk (\<lambda>_. alone) m n limit db))" for m n limit
    using django_sweep_agrees [of ?t db clks clks] ledger_wf_distinct [OF assms] db by simp
  then show "dispatching (snd (django_run_sweep b clks lk (\<lambda>_. alone) db)) \<subseteq> dispatching db"
    using sweep_dispatching_set [of True clks lk _ _ _ ?t] db dispatching_agree
    by (fastforce simp: django_run_sweep_def)
  show "ledger_wf (snd (django_run_sweep b clks lk (\<lambda>_. alone) db))"
    using row_invariant.inv_django_sweep [OF bare.row_invariant_axioms, of db clks lk] assms by (simp add: django_run_sweep_def table_ok_bare)
qed

interpretation dj: dispatch_backend "dj_io v" world_valid world_mine w_sent for v
proof unfold_locales
  fix s :: world and n ids s'
  assume valid: "world_valid s" and c: "op_claim (dj_io v) n s = (Inr ids, s')"
  let ?w = "tick v s"
  let ?r = "django_claim (v_backend v) (v_clk v (w_calls s)) (v_locked v (w_calls s)) alone n (w_db ?w)"
  let ?c = "claim (on_pg (v_backend v)) (v_clk v (w_calls s)) (v_locked v (w_calls s)) alone n (w_db ?w)"
  have r: "ids = fst ?r" "s' = ?w\<lparr>w_db := snd ?r, w_handed := filter (\<lambda>i. i \<notin> set ids) (w_handed ?w)\<rparr>"
    using c by (auto simp: dj_io_def dj_claim_def Let_def split: if_splits prod.splits)
  have wf: "ledger_wf (w_db ?w)" using valid_tick [OF valid] by (simp add: world_valid_def)
  note as_claim = django_claim_as_claim [OF wf]
  have "dispatching (snd ?r) \<subseteq> dispatching (w_db ?w) \<union> set ids"
    unfolding r as_claim(1,2) by (rule claim_dispatching)
  moreover have "distinct ids" "length ids \<le> n"
    unfolding r as_claim(1) using claim_valid(2) [OF wf] claim_length [of _ _ _ alone n] by simp_all
  ultimately show "world_valid s' \<and> distinct ids \<and> length ids \<le> n \<and>
      world_mine s' \<subseteq> world_mine s \<union> set ids \<and> w_sent s' = w_sent s"
    using as_claim(3) tick_changed [OF valid, of v] unfolding r(2)
    by (auto simp: world_valid_def world_mine_def)
next
  fix s :: world and ids u s'
  assume valid: "world_valid s" and c: "op_release (dj_io v) ids s = (Inr u, s')"
  have r: "s' = (tick v s)\<lparr>w_db := django_release ids (w_db (tick v s))\<rparr>"
    using c by (auto simp: dj_io_def dj_release_def Let_def split: if_splits)
  have wf: "ledger_wf (w_db (tick v s))" using valid_tick [OF valid] by (simp add: world_valid_def)
  show "world_valid s' \<and> world_mine s' \<subseteq> world_mine s - set ids \<and> w_sent s' = w_sent s"
    using tick_changed [OF valid, of v] django_release_quiet [OF wf, of ids]
    unfolding r by (auto simp: world_valid_def world_mine_def)
next
  fix s :: world and i s'
  assume "world_valid s" and "op_dispatch_fn (dj_io v) i s = (None, s')"
  then show "world_valid s' \<and> world_mine s' \<subseteq> world_mine s - {i} \<and> w_sent s' = w_sent s @ [i]"
    using sa.send_ok [of s v i s'] by (simp add: dj_io_def)
next
  fix s :: world and i e s'
  assume "world_valid s" and "op_dispatch_fn (dj_io v) i s = (Some e, s')"
  then show "unchanged world_valid world_mine w_sent s s'"
    using sa.send_err [of s v i e s'] by (simp add: dj_io_def)
next
  fix s :: world and r1 s'
  assume valid: "world_valid s" and c: "op_run_sweep (dj_io v) s = (r1, s')"
  show "unchanged world_valid world_mine w_sent s s'"
  proof (rule quiet_after_tick [OF valid])
    assume "world_valid (tick v s)"
    then show "unchanged world_valid world_mine w_sent (tick v s) s'"
      using c django_run_sweep_quiet [of "w_db (tick v s)" "v_backend v"
          "\<lambda>j n. v_clk v (w_calls s) (3 * j + n)" "v_locked v (w_calls s) 0"]
      by (auto simp: dj_io_def dj_sweep_def Let_def unchanged_def world_valid_def world_mine_def
          prod_eq_iff split: if_splits prod.splits dest: subsetD)
  qed
qed (auto simp: dj_io_def site_io_def dj_claim_def dj_release_def dj_heartbeat_def dj_next_due_def Let_def
    split: if_splits prod.splits intro: tick_quiet tick_beats_quiet)

interpretation dj: resilient_backend "dj_io v" world_valid world_mine w_sent w_calls for v
  by unfold_locales
    (auto simp: dj_io_def site_io_def site_dispatch_def dj_claim_def dj_release_def dj_heartbeat_def
      dj_next_due_def dj_sweep_def tick_def Let_def split: if_splits prod.splits)

end
