(* ===== verification/Dj_Dispatcher_Properties.thy ===== *)
theory Dj_Dispatcher_Properties
  imports Dj_Backend Dispatcher_Properties
begin

text \<open>
  The \<open>dewey_dispatcher\<close> command: the loop and the single pass over the Django backend.  They are the
  facts of the contract, interpreted on \<open>dj_io\<close>.
\<close>

lemma dj_close_io: "op_close (dj_io v) w = (Inr (), (tick v w)\<lparr>w_heartbeats :=
    django_close_heartbeat (\<not> v_database_down v (w_calls w)) (v_backend v) (w_heartbeats (tick v w))\<rparr>)"
  by (simp add: dj_io_def dj_close_def Let_def)

lemma dj_close_accounts:
  assumes "accounted world_valid world_mine (d, w)" and "op_close (dj_io v) w = (r, w')"
  shows "accounted world_valid world_mine (d, w')" and "r = Inr ()" and "w_sent w' = w_sent w"
proof -
  have w': "w' = (tick v w)\<lparr>w_heartbeats :=
      django_close_heartbeat (\<not> v_database_down v (w_calls w)) (v_backend v) (w_heartbeats (tick v w))\<rparr>"
    and "r = Inr ()" using assms(2) by (simp_all add: dj_close_io)
  have "world_valid w" using assms(1) by (simp add: accounted_def)
  then have "unchanged world_valid world_mine w_sent w w'" unfolding w' by (rule tick_beats_quiet)
  then show "accounted world_valid world_mine (d, w')" "r = Inr ()" "w_sent w' = w_sent w"
    using assms(1) \<open>r = Inr ()\<close> by (auto simp: accounted_def unchanged_def)
qed

lemma fresh_accounted:
  assumes "world_valid w" and "world_mine w = {}"
    and "dispatcher_init batch idle iv base cap db_cap hb = Inr d"
  shows "accounted world_valid world_mine (d, w)" and "pending_release d = []" and "batch_size d = nat batch"
  using assms dispatcher_init_fields [OF assms(3)] by (simp_all add: accounted_def)

lemma accounted_rows:
  assumes "accounted world_valid world_mine (d, w)" and "r \<in> set (w_db w)" and "status r = DISPATCHING"
  shows "row_id r \<in> set (w_handed w) \<or> row_id r \<in> set (pending_release d)"
  using assms unfolding accounted_def by (auto simp: mine_settled)

lemma django_loop_keeps_claims:
  assumes "world_valid w" and "world_mine w = {}"
    and "dispatcher_init batch idle iv base cap db_cap hb = Inr d"
  shows "\<exists>d' w'. run (dj_io v) (Some n) (d, w) = Some (Inr (), d', w') \<and>
      (\<forall>r \<in> set (w_db w'). status r = DISPATCHING \<longrightarrow>
         row_id r \<in> set (w_handed w') \<or> row_id r \<in> set (pending_release d'))"
proof -
  note start = fresh_accounted [OF assms]
  obtain d1 w1 where l: "loop_bounded (dj_io v) n (d, w) = (Inr (), d1, w1)"
    using dj.loop_returns [of v n "(d, w)"] by auto
  have a1: "accounted world_valid world_mine (d1, w1)" using dj.loop_accounts [OF start(1) l] by simp
  obtain u w2 where c: "op_close (dj_io v) w1 = (u, w2)" by (metis surj_pair)
  show ?thesis
    using dj_close_accounts [OF a1 c] accounted_rows l c
    by (intro exI [of _ d1] exI [of _ w2]) (auto simp: run_def finally_close_def)
qed

lemma django_once_keeps_claims:
  assumes "world_valid w" and "world_mine w = {}"
    and "dispatcher_init batch idle iv base cap db_cap hb = Inr d"
  shows "\<exists>q d' w'. handle_dispatcher (dj_io v) True (d, w) = Some (q, d', w') \<and>
      (\<forall>r \<in> set (w_db w'). status r = DISPATCHING \<longrightarrow>
         row_id r \<in> set (w_handed w') \<or> row_id r \<in> set (pending_release d')) \<and>
      (q \<noteq> Inr () \<longrightarrow> w_sent w' = w_sent w \<and> pending_release d' = [])"
proof -
  note start = fresh_accounted [OF assms]
  obtain x \<sigma>1 where s: "maybe_sweep (dj_io v) (d, w) = (x, \<sigma>1)" by (metis surj_pair)
  obtain b where x: "x = Inr b" using dj.maybe_sweep_steps [OF s] by blast
  have "world_valid (snd (d, w))" using assms(1) by simp
  note quiet = dj.maybe_sweep_quiet [OF this s]
  have \<sigma>1: "accounted world_valid world_mine \<sigma>1" "pending_release (fst \<sigma>1) = []" "w_sent (snd \<sigma>1) = w_sent w"
    using dj.quiet_accounted [OF quiet start(1)] quiet start(2) by (simp_all add: same_debts_def unchanged_def)
  obtain y d2 w3 where b: "dispatch_batch (dj_io v) \<sigma>1 = (y, d2, w3)" by (metis surj_pair)
  show ?thesis
  proof (cases y)
    case (Inl e)
    then have e: "dispatch_batch (dj_io v) \<sigma>1 = (Inl e, d2, w3)" using b by simp
    have "caught e" using dj.dispatch_batch_steps [OF e] by simp
    note err = dj.dispatch_batch_error [OF \<sigma>1(1,2) e this]
    have "pending_release d2 = []"
      using dispatch_batch_caught [OF e \<open>caught e\<close>] \<sigma>1(2) by simp
    then show ?thesis
      using err accounted_rows [of d2 w3] \<sigma>1(3)
      by (intro exI [of _ "Inl e"] exI [of _ d2] exI [of _ w3])
        (simp add: handle_dispatcher_def run_once_def s x e)
  next
    case (Inr m)
    then have m: "dispatch_batch (dj_io v) \<sigma>1 = (Inr m, d2, w3)" using b by simp
    have a2: "accounted world_valid world_mine (d2, w3)"
      using dj.dispatch_batch_accounts [OF \<sigma>1(1,2) m] by simp
    obtain u' w4 where c': "op_close (dj_io v) w3 = (u', w4)" by (metis surj_pair)
    show ?thesis
      using dj_close_accounts [OF a2 c'] accounted_rows [of d2 w4]
      by (intro exI [of _ "Inr ()"] exI [of _ d2] exI [of _ w4])
        (simp add: handle_dispatcher_def run_once_def s x m c')
  qed
qed

text \<open>
  C30. The command over the Django backend.  Whatever the outages, and whatever workers and operators do
  meanwhile, any number of passes of the loop ends normally with every \<open>DISPATCHING\<close> task handed to the
  transport or remembered for release.  So does \<open>--once\<close>, except that an error of the claim ends it
  before anything was sent; what it remembers then is lost with the process, and it remembers
  something only when the database refused the release.
\<close>

theorem django_command_keeps_claims:
  assumes "world_valid w" and "world_mine w = {}"
    and "dispatcher_init batch idle iv base cap db_cap hb = Inr d"
  shows "(\<exists>d' w'. run (dj_io v) (Some n) (d, w) = Some (Inr (), d', w') \<and>
      (\<forall>r \<in> set (w_db w'). status r = DISPATCHING \<longrightarrow>
         row_id r \<in> set (w_handed w') \<or> row_id r \<in> set (pending_release d'))) \<and>
    (\<exists>q d' w'. handle_dispatcher (dj_io v) True (d, w) = Some (q, d', w') \<and>
      (\<forall>r \<in> set (w_db w'). status r = DISPATCHING \<longrightarrow>
         row_id r \<in> set (w_handed w') \<or> row_id r \<in> set (pending_release d')) \<and>
      (q \<noteq> Inr () \<longrightarrow> w_sent w' = w_sent w \<and> pending_release d' = []))"
  using django_loop_keeps_claims [OF assms] django_once_keeps_claims [OF assms] by (rule conjI)

text \<open>A site where the broker refuses the second send and the database the release after it.\<close>

definition refusing_site :: site where
  "refusing_site = sample_site\<lparr>v_database_down := (\<lambda>k. k = 3), v_transport_down := (\<lambda>k. k = 2),
     v_outside := (\<lambda>_. [])\<rparr>"

theorem django_command_keeps_claims_witness:
  "\<exists>d. dispatcher_init 2 5 None 1 30 5 15 = Inr d \<and>
    (\<exists>q d' w'. handle_dispatcher (dj_io refusing_site) True (d, sample_world) = Some (q, d', w') \<and>
      list_all (\<lambda>r. if status r = DISPATCHING
         then row_id r \<in> set (w_handed w') \<union> set (pending_release d') else True) (w_db w'))"
proof -
  obtain d where d: "dispatcher_init 2 5 None 1 30 5 15 = Inr d" by (simp add: dispatcher_init_def)
  from django_command_keeps_claims [THEN conjunct2, OF sample_world_valid d, of refusing_site] d
  show ?thesis by (auto simp: list_all_iff)
qed

lemma once_strands:
  "\<exists>d' w'. handle_dispatcher (dj_io refusing_site) True (sample_dispatcher, sample_world) =
      Some (Inr (), d', w') \<and> pending_release d' = [''c'']"
proof -
  have "map_option (\<lambda>(q, d', w'). (q, pending_release d'))
      (handle_dispatcher (dj_io refusing_site) True (sample_dispatcher, sample_world)) = Some (Inr (), [''c''])"
    by code_simp
  then show ?thesis by (auto split: prod.splits)
qed

end
