(* ===== verification/Admission_Lock.thy ===== *)
theory Admission_Lock
  imports Py_Text "HOL-Library.Multiset"
begin

text \<open>
  The lock file and the requirements, as \<open>src/scripts/dependency_admission.py\<close> validates them before a
  release.

  The tables of \<open>uv.lock\<close> and \<open>pyproject.toml\<close> are records of the fields the script reads;
  \<open>pk_rest\<close> is everything else of a package.  \<open>parse_iso\<close> is \<open>datetime.fromisoformat\<close>: \<open>None\<close> is its
  \<open>ValueError\<close>.  An error keeps what it is about, not its text.
\<close>

section \<open>Tables\<close>

record artifact =
  at_url :: "string option"
  at_hash :: "string option"
  at_upload_time :: "string option"

record package =
  pk_name :: string
  pk_version :: string
  pk_source :: "(string \<times> string) list"
  pk_sdist :: "artifact option"
  pk_wheels :: "artifact list"
  pk_rest :: string

record admission_table =
  ta_project_package :: "string option"
  ta_build_group :: "string option"
  ta_parser_group :: "string option"
  ta_cooldown_days :: "int option"
  ta_hotfix_label :: "string option"

record pyproject =
  pj_name :: string
  pj_build_requires :: "string list"
  pj_dependencies :: "string list"
  pj_optional :: "(string \<times> string list) list"
  pj_groups :: "(string \<times> string list) list"
  pj_admission :: admission_table

datatype admission_error =
    NoPackages | NotEditable string | WrongSource string | NoArtifacts string
  | WrongHost string string | NoDigest string string | NoTimestamp string string
  | DirectRequirement string string | BuildGroupDiffers string | NotPinned string | NotLocked string
  | NoParserPin string | ParserNotPinned string | ParserNotLocked string

section \<open>The lock file\<close>

definition pypi_registry :: string where
  "pypi_registry = ''https://pypi.org/simple''"

definition pypi_files :: string where
  "pypi_files = ''https://files.pythonhosted.org/packages/''"

definition default_cooldown_days :: int where
  "default_cooldown_days = 7"

definition default_hotfix_label :: string where
  "default_hotfix_label = ''dependency-hotfix''"

record admission_settings =
  as_project_package :: string
  as_build_group :: string
  as_parser_group :: string
  as_cooldown_days :: int
  as_hotfix_label :: string

definition admission_config :: "pyproject \<Rightarrow> admission_settings" where
  "admission_config project =
     (let configured = pj_admission project
      in \<lparr>as_project_package = (case ta_project_package configured of None \<Rightarrow> pj_name project | Some p \<Rightarrow> p),
          as_build_group = (case ta_build_group configured of None \<Rightarrow> ''build'' | Some g \<Rightarrow> g),
          as_parser_group = (case ta_parser_group configured of None \<Rightarrow> ''admission'' | Some g \<Rightarrow> g),
          as_cooldown_days = (case ta_cooldown_days configured of None \<Rightarrow> default_cooldown_days | Some d \<Rightarrow> d),
          as_hotfix_label = (case ta_hotfix_label configured of None \<Rightarrow> default_hotfix_label | Some l \<Rightarrow> l)\<rparr>)"

definition hex_char :: "char \<Rightarrow> bool" where
  "hex_char c = (c \<in> set ''0123456789abcdef'')"

text \<open>\<open>^sha256:[0-9a-f]{64}$\<close> and \<open>^[0-9a-f]{40}$\<close>, matched in full\<close>

definition sha256_match :: "string \<Rightarrow> bool" where
  "sha256_match s \<longleftrightarrow> starts ''sha256:'' s \<and> length s = 7 + 64 \<and> list_all hex_char (drop 7 s)"

definition full_commit_match :: "string \<Rightarrow> bool" where
  "full_commit_match s \<longleftrightarrow> length s = 40 \<and> list_all hex_char s"

text \<open>\<open>value.replace("Z", "+00:00")\<close>\<close>

definition utc_offset :: "string \<Rightarrow> string" where
  "utc_offset s = concat (map (\<lambda>c. if c = CHR ''Z'' then ''+00:00'' else [c]) s)"

definition source_is :: "package \<Rightarrow> (string \<times> string) list \<Rightarrow> bool" where
  "source_is p s \<longleftrightarrow> set (pk_source p) = set s"

definition artifacts_of :: "package \<Rightarrow> artifact list" where
  "artifacts_of p = (case pk_sdist p of None \<Rightarrow> [] | Some a \<Rightarrow> [a]) @ pk_wheels p"

definition text_or_empty :: "string option \<Rightarrow> string" where
  "text_or_empty t = (case t of None \<Rightarrow> [] | Some s \<Rightarrow> s)"

definition validate_artifact :: "(string \<Rightarrow> int option) \<Rightarrow> string \<Rightarrow> artifact \<Rightarrow> admission_error list" where
  "validate_artifact parse_iso name a =
     (let url = text_or_empty (at_url a); digest = text_or_empty (at_hash a);
          upload_time = text_or_empty (at_upload_time a)
      in (if \<not> starts pypi_files url then [WrongHost name url] else []) @
         (if \<not> sha256_match digest then [NoDigest name digest] else []) @
         (if parse_iso (utc_offset upload_time) = None then [NoTimestamp name upload_time] else []))"

definition validate_package :: "(string \<Rightarrow> int option) \<Rightarrow> string \<Rightarrow> package \<Rightarrow> admission_error list" where
  "validate_package parse_iso project_package p =
     (let name = pk_name p; artifacts = artifacts_of p
      in (if name = project_package
          then (if \<not> source_is p [(''editable'', ''.'')] then [NotEditable name] else [])
          else if \<not> source_is p [(''registry'', pypi_registry)] then [WrongSource name] else []) @
         (if name \<noteq> project_package \<and> artifacts = [] then [NoArtifacts name] else []) @
         concat (map (validate_artifact parse_iso name) artifacts))"

definition validate_lock :: "(string \<Rightarrow> int option) \<Rightarrow> string \<Rightarrow> package list \<Rightarrow> admission_error list" where
  "validate_lock parse_iso project_package packages =
     (if packages = [] then [NoPackages] else concat (map (validate_package parse_iso project_package) packages))"

section \<open>Requirements\<close>

definition requirement_groups :: "pyproject \<Rightarrow> (string \<times> string list) list" where
  "requirement_groups project =
     [(''build-system'', pj_build_requires project), (''project'', pj_dependencies project)] @
     map (\<lambda>(n, rs). (''extra:'' @ n, rs)) (pj_optional project) @
     map (\<lambda>(n, rs). (''group:'' @ n, rs)) (pj_groups project)"

definition iter_requirements :: "(string \<times> string list) list \<Rightarrow> (string \<times> string) list" where
  "iter_requirements groups = concat (map (\<lambda>(g, rs). map (Pair g) rs) groups)"

text \<open>\<open>re.sub(r"[-_.]+", "-", name).lower()\<close>\<close>

definition is_separator :: "char \<Rightarrow> bool" where
  "is_separator c = (c \<in> set ''-_.'')"

function collapse_separators :: "string \<Rightarrow> string" where
  "collapse_separators [] = []"
| "collapse_separators (c # cs) =
     (if is_separator c then CHR ''-'' # collapse_separators (dropWhile is_separator cs)
      else c # collapse_separators cs)"
  by pat_completeness auto
termination
  by (relation "measure length") (auto intro: le_less_trans [OF length_dropWhile_le])

definition normalize_name :: "string \<Rightarrow> string" where
  "normalize_name name = lower_text (collapse_separators name)"

text \<open>\<open>^([A-Za-z0-9_.-]+)==([^;\s]+)$\<close>, matched in full: no character of the name is \<open>=\<close>\<close>

definition name_char :: "char \<Rightarrow> bool" where
  "name_char c = (let n = of_char c :: nat in
     (48 \<le> n \<and> n \<le> 57) \<or> (65 \<le> n \<and> n \<le> 90) \<or> (97 \<le> n \<and> n \<le> 122) \<or> is_separator c)"

definition exact_requirement :: "string \<Rightarrow> (string \<times> string) option" where
  "exact_requirement s =
     (let name = takeWhile name_char s; rest = dropWhile name_char s; version = drop 2 rest
      in if name \<noteq> [] \<and> starts ''=='' rest \<and> version \<noteq> [] \<and>
            list_all (\<lambda>c. c \<noteq> CHR '';'' \<and> \<not> is_space c) version
         then Some (name, version) else None)"

definition direct_requirement :: "string \<Rightarrow> bool" where
  "direct_requirement r =
     (contains '' @ '' r \<or>
      list_ex (\<lambda>m. contains m (lower_text r)) [''git+'', ''http://'', ''https://'', ''file:''])"

definition locked_versions :: "package list \<Rightarrow> (string \<times> string) list" where
  "locked_versions packages = map (\<lambda>p. (normalize_name (pk_name p), pk_version p)) packages"

definition group_of :: "pyproject \<Rightarrow> string \<Rightarrow> string list" where
  "group_of project g = (case map_of (pj_groups project) g of None \<Rightarrow> [] | Some rs \<Rightarrow> rs)"

definition validate_build_pin :: "(string \<times> string) list \<Rightarrow> string \<Rightarrow> admission_error list" where
  "validate_build_pin locked r =
     (case exact_requirement r of
        None \<Rightarrow> [NotPinned r]
      | Some (n, v) \<Rightarrow> if (normalize_name n, v) \<notin> set locked then [NotLocked r] else [])"

definition validate_parser_pin :: "(string \<times> string) list \<Rightarrow> string \<Rightarrow> string list \<Rightarrow> admission_error list" where
  "validate_parser_pin locked parser_group requirements =
     (case requirements of
        [r] \<Rightarrow>
          (case exact_requirement r of
             None \<Rightarrow> [ParserNotPinned parser_group]
           | Some (n, v) \<Rightarrow>
               if normalize_name n \<noteq> ''pyyaml'' then [ParserNotPinned parser_group]
               else if (''pyyaml'', v) \<notin> set locked then [ParserNotLocked r] else [])
      | _ \<Rightarrow> [NoParserPin parser_group])"

definition validate_requirements :: "pyproject \<Rightarrow> package list \<Rightarrow> admission_error list" where
  "validate_requirements project packages =
     (let config = admission_config project; locked = locked_versions packages;
          build_requirements = pj_build_requires project
      in concat (map (\<lambda>(g, r). if direct_requirement r then [DirectRequirement g r] else [])
                  (iter_requirements (requirement_groups project))) @
         (if mset build_requirements \<noteq> mset (group_of project (as_build_group config))
          then [BuildGroupDiffers (as_build_group config)] else []) @
         concat (map (validate_build_pin locked) build_requirements) @
         validate_parser_pin locked (as_parser_group config) (group_of project (as_parser_group config)))"

section \<open>Facts\<close>

lemma concat_Nil [simp]: "concat (map f xs) = [] \<longleftrightarrow> (\<forall>x \<in> set xs. f x = [])"
  by auto

lemma exact_requirement_text:
  assumes "exact_requirement s = Some (n, v)" shows "s = n @ ''=='' @ v"
proof -
  have n: "n = takeWhile name_char s" and v: "v = drop 2 (dropWhile name_char s)"
    and eq: "take 2 (dropWhile name_char s) = ''==''"
    using assms
    by (auto simp: exact_requirement_def Let_def starts_def numeral_2_eq_2 simp del: drop_Suc_Cons
        split: if_splits)
  have "s = n @ dropWhile name_char s" by (simp add: n)
  also have "dropWhile name_char s = ''=='' @ v" unfolding v eq [symmetric] by simp
  finally show ?thesis .
qed

section \<open>What is admitted\<close>

definition artifact_admitted :: "(string \<Rightarrow> int option) \<Rightarrow> artifact \<Rightarrow> bool" where
  "artifact_admitted parse_iso a \<longleftrightarrow>
     (\<exists>path. at_url a = Some (pypi_files @ path)) \<and>
     (\<exists>digest. at_hash a = Some (''sha256:'' @ digest) \<and> length digest = 64 \<and> list_all hex_char digest) \<and>
     (\<exists>time. parse_iso (utc_offset (text_or_empty (at_upload_time a))) = Some time)"

definition package_admitted :: "(string \<Rightarrow> int option) \<Rightarrow> string \<Rightarrow> package \<Rightarrow> bool" where
  "package_admitted parse_iso project_package p \<longleftrightarrow>
     (if pk_name p = project_package then set (pk_source p) = {(''editable'', ''.'')}
      else set (pk_source p) = {(''registry'', pypi_registry)} \<and> artifacts_of p \<noteq> []) \<and>
     list_all (artifact_admitted parse_iso) (artifacts_of p)"

lemma starts_append: "starts p s \<longleftrightarrow> (\<exists>t. s = p @ t)"
  by (auto simp: starts_def) (metis append_take_drop_id)

lemma validate_artifact_ok: "validate_artifact parse_iso name a = [] \<longleftrightarrow> artifact_admitted parse_iso a"
proof -
  have url: "starts pypi_files (text_or_empty (at_url a)) \<longleftrightarrow> (\<exists>path. at_url a = Some (pypi_files @ path))"
    by (cases "at_url a") (simp_all add: text_or_empty_def starts_append pypi_files_def)
  have "sha256_match h \<longleftrightarrow> (\<exists>digest. h = ''sha256:'' @ digest \<and> length digest = 64 \<and> list_all hex_char digest)" for h
    unfolding sha256_match_def starts_append by auto
  then have digest: "sha256_match (text_or_empty (at_hash a)) \<longleftrightarrow>
      (\<exists>digest. at_hash a = Some (''sha256:'' @ digest) \<and> length digest = 64 \<and> list_all hex_char digest)"
    by (cases "at_hash a") (simp_all add: text_or_empty_def)
  show ?thesis
    by (simp only: validate_artifact_def Let_def artifact_admitted_def url [symmetric] digest [symmetric]) auto
qed

lemma validate_package_ok: "validate_package parse_iso project p = [] \<longleftrightarrow> package_admitted parse_iso project p"
  by (auto simp: validate_package_def package_admitted_def Let_def source_is_def validate_artifact_ok list_all_iff)

text \<open>
  Exactly what an admitted lock file guarantees.  It has packages; the project's own is editable in
  place; every other one comes from the canonical registry and has an artifact; and every artifact
  is a file of PyPI's host with a full SHA-256 digest and a valid upload time.
\<close>

lemma lock_admitted:
  "validate_lock parse_iso project_package packages = [] \<longleftrightarrow>
     packages \<noteq> [] \<and> list_all (package_admitted parse_iso project_package) packages"
  by (auto simp: validate_lock_def validate_package_ok list_all_iff)

text \<open>
  What admitted requirements guarantee: none is a direct reference, every requirement of the build
  backend is an exact pin of a locked version, and the YAML parser is pinned and locked.
\<close>

lemma requirements_admitted:
  assumes "validate_requirements project packages = []"
  shows "\<forall>(g, r) \<in> set (iter_requirements (requirement_groups project)). \<not> direct_requirement r"
    and "\<forall>r \<in> set (pj_build_requires project). \<exists>n v. r = n @ ''=='' @ v \<and>
      (normalize_name n, v) \<in> set (locked_versions packages)"
    and "\<exists>n v. group_of project (as_parser_group (admission_config project)) = [n @ ''=='' @ v] \<and>
      normalize_name n = ''pyyaml'' \<and> (''pyyaml'', v) \<in> set (locked_versions packages)"
proof -
  have pin: "validate_build_pin locked r = [] \<Longrightarrow> \<exists>n v. r = n @ ''=='' @ v \<and> (normalize_name n, v) \<in> set locked"
    for locked r
    by (auto simp: validate_build_pin_def split: option.splits if_splits) (use exact_requirement_text in fastforce)
  show "\<forall>(g, r) \<in> set (iter_requirements (requirement_groups project)). \<not> direct_requirement r"
    "\<forall>r \<in> set (pj_build_requires project). \<exists>n v. r = n @ ''=='' @ v \<and>
      (normalize_name n, v) \<in> set (locked_versions packages)"
    using assms pin
    by (auto simp: validate_requirements_def Let_def split: if_splits)
  have "validate_parser_pin locked g rs = [] \<Longrightarrow> \<exists>n v. rs = [n @ ''=='' @ v] \<and>
      normalize_name n = ''pyyaml'' \<and> (''pyyaml'', v) \<in> set locked" for locked g rs
    by (auto simp: validate_parser_pin_def split: list.splits option.splits if_splits)
      (use exact_requirement_text in fastforce)
  then show "\<exists>n v. group_of project (as_parser_group (admission_config project)) = [n @ ''=='' @ v] \<and>
      normalize_name n = ''pyyaml'' \<and> (''pyyaml'', v) \<in> set (locked_versions packages)"
    using assms by (auto simp: validate_requirements_def Let_def)
qed

end
