(* ===== verification/Admission_Actions.thy ===== *)
theory Admission_Actions
  imports Admission_Lock Py_Runtime
begin

text \<open>
  The workflow files, as \<open>src/scripts/dependency_admission.py\<close> looks for GitHub Actions that are not
  pinned to a commit.

  PyYAML is not under \<open>src\<close>: a composed document is a list of nodes, an alias the number of a node that
  is there already, so the nodes form a graph, cycles included.  The nodes have the line they start at,
  from 0.
\<close>

section \<open>The walk\<close>

datatype yaml_kind =
    ScalarNode string string | MappingNode "(nat \<times> nat) list" | SequenceNode "nat list" | OtherNode

record yaml_node =
  yn_line :: nat
  yn_kind :: yaml_kind

type_synonym yaml_doc = "yaml_node list"

definition node_kind :: "yaml_doc \<Rightarrow> nat \<Rightarrow> yaml_kind" where
  "node_kind doc n = (if n < length doc then yn_kind (doc ! n) else OtherNode)"

definition node_line :: "yaml_doc \<Rightarrow> nat \<Rightarrow> nat" where
  "node_line doc n = (if n < length doc then yn_line (doc ! n) else 0)"

definition yaml_str :: string where
  "yaml_str = ''tag:yaml.org,2002:str''"

text \<open>What the walk records: an entry with its line from 1 and its value, when that is a string, or an error.\<close>

datatype walk_event = UsesEntry nat "string option" | RecursiveAlias nat

definition uses_reference :: "yaml_doc \<Rightarrow> nat \<Rightarrow> string option" where
  "uses_reference doc v =
     (case node_kind doc v of ScalarNode tag s \<Rightarrow> if tag = yaml_str then Some s else None | _ \<Rightarrow> None)"

definition uses_entry :: "yaml_doc \<Rightarrow> nat \<Rightarrow> nat \<Rightarrow> walk_event list" where
  "uses_entry doc k v =
     (case node_kind doc k of
        ScalarNode tag s \<Rightarrow> if s = ''uses'' then [UsesEntry (node_line doc k + 1) (uses_reference doc v)] else []
      | _ \<Rightarrow> [])"

lemma inactive_decreases:
  assumes "n < length doc" and "n \<notin> set active"
  shows "card ({..<length doc} - set (n # active)) < card ({..<length doc} - set active)"
  using assms by (intro psubset_card_mono) auto

text \<open>A node number that is not there does not occur; it is left like a scalar.\<close>

function walk :: "yaml_doc \<Rightarrow> nat list \<Rightarrow> nat \<Rightarrow> walk_event list" where
  "walk doc active n =
     (if n \<in> set active then [RecursiveAlias (node_line doc n + 1)]
      else if length doc \<le> n then []
      else case yn_kind (doc ! n) of
             MappingNode kvs \<Rightarrow>
               concat (map (\<lambda>(k, v). uses_entry doc k v @ walk doc (n # active) k @ walk doc (n # active) v) kvs)
           | SequenceNode vs \<Rightarrow> concat (map (walk doc (n # active)) vs)
           | _ \<Rightarrow> [])"
  by pat_completeness auto
termination
  by (relation "measure (\<lambda>(doc, active, n). card ({..<length doc} - set active))")
    (simp_all add: inactive_decreases del: set_simps)

declare walk.simps [simp del]

section \<open>Reading one workflow\<close>

datatype action_error =
    InvalidYaml nat | NotMapping | RecursiveAliases nat | NonCanonical nat | Disagrees nat | MutableRef nat string

text \<open>\<open>yaml.compose\<close>: the document and its root, or the line of the error.\<close>

definition yaml_uses_nodes ::
    "nat + (yaml_doc \<times> nat) \<Rightarrow> (nat \<times> string option) list \<times> action_error list" where
  "yaml_uses_nodes composed =
     (case composed of
        Inl line \<Rightarrow> ([], [InvalidYaml line])
      | Inr (doc, start) \<Rightarrow>
          (case node_kind doc start of
             MappingNode _ \<Rightarrow>
               let events = walk doc [] start
               in (List.map_filter (\<lambda>e. case e of UsesEntry l r \<Rightarrow> Some (l, r) | _ \<Rightarrow> None) events,
                   List.map_filter (\<lambda>e. case e of RecursiveAlias l \<Rightarrow> Some (RecursiveAliases l) | _ \<Rightarrow> None) events)
           | _ \<Rightarrow> ([], [NotMapping])))"

text \<open>
  \<open>^\s*(?:-\s*)?uses:\s+([^\s#]+)(?:\s+#.*)?$\<close>: neither a space nor the group can give characters back, so
  each part takes all it can.
\<close>

definition action_pin :: "string \<Rightarrow> string option" where
  "action_pin line =
     (let s1 = dropWhile is_space line;
          s2 = (case s1 of [] \<Rightarrow> [] | c # cs \<Rightarrow> if c = CHR ''-'' then dropWhile is_space cs else s1);
          s3 = drop 5 s2;
          s4 = dropWhile is_space s3;
          reference = takeWhile (\<lambda>c. \<not> is_space c \<and> c \<noteq> CHR ''#'') s4;
          rest = dropWhile (\<lambda>c. \<not> is_space c \<and> c \<noteq> CHR ''#'') s4
      in if starts ''uses:'' s2 \<and> s4 \<noteq> s3 \<and> reference \<noteq> [] \<and>
            (rest = [] \<or> (is_space (hd rest) \<and> starts ''#'' (dropWhile is_space rest)))
         then Some reference else None)"

record action_state =
  ac_actions :: "((string \<times> nat) \<times> string) list"
  ac_occurrences :: "string \<Rightarrow> nat"
  ac_errors :: "action_error list"
  ac_reported :: "nat list"

text \<open>One entry; \<open>None\<close> is the \<open>IndexError\<close> of a line that is not there.\<close>

definition parse_entry :: "string list \<Rightarrow> nat \<times> string option \<Rightarrow> action_state \<Rightarrow> action_state option" where
  "parse_entry text_lines entry st =
     (let number = fst entry in
      if length text_lines \<le> number - 1 then None
      else Some (
        case (action_pin (text_lines ! (number - 1)), snd entry) of
          (Some reference, Some semantic) \<Rightarrow>
            if reference \<noteq> semantic then st\<lparr>ac_errors := ac_errors st @ [Disagrees number]\<rparr>
            else if starts ''./'' reference then st
            else
              (case rsplit1 (CHR ''@'') reference of
                 None \<Rightarrow> st\<lparr>ac_errors := ac_errors st @ [MutableRef number reference]\<rparr>
               | Some (action, commit) \<Rightarrow>
                   if \<not> full_commit_match commit
                   then st\<lparr>ac_errors := ac_errors st @ [MutableRef number reference]\<rparr>
                   else
                     let occurrence = ac_occurrences st action + 1
                     in st\<lparr>ac_occurrences := (ac_occurrences st)(action := occurrence),
                           ac_actions := ac_actions st @ [((action, occurrence), commit)]\<rparr>)
        | _ \<Rightarrow>
            if number \<in> set (ac_reported st) then st
            else st\<lparr>ac_errors := ac_errors st @ [NonCanonical number],
                    ac_reported := ac_reported st @ [number]\<rparr>))"

fun parse_entries :: "string list \<Rightarrow> (nat \<times> string option) list \<Rightarrow> action_state \<Rightarrow> action_state option" where
  "parse_entries text_lines [] st = Some st"
| "parse_entries text_lines (e # es) st =
     Option.bind (parse_entry text_lines e st) (parse_entries text_lines es)"

definition parse_actions ::
    "nat + (yaml_doc \<times> nat) \<Rightarrow> string \<Rightarrow> (((string \<times> nat) \<times> string) list \<times> action_error list) option" where
  "parse_actions composed text =
     (let (entries, errors) = yaml_uses_nodes composed
      in map_option (\<lambda>st. (ac_actions st, ac_errors st))
           (parse_entries (splitlines text) entries
              \<lparr>ac_actions = [], ac_occurrences = \<lambda>_. 0, ac_errors = errors, ac_reported = []\<rparr>))"

section \<open>The walk sees everything\<close>

text \<open>The children of a node, and what can be reached from it.\<close>

definition children :: "yaml_doc \<Rightarrow> nat \<Rightarrow> nat list" where
  "children doc n =
     (case node_kind doc n of
        MappingNode kvs \<Rightarrow> concat (map (\<lambda>(k, v). [k, v]) kvs) | SequenceNode vs \<Rightarrow> vs | _ \<Rightarrow> [])"

definition edges :: "yaml_doc \<Rightarrow> nat set \<Rightarrow> (nat \<times> nat) set" where
  "edges doc A = {(m, c). c \<in> set (children doc m) \<and> m \<notin> A \<and> c \<notin> A}"

text \<open>The entries of a mapping.\<close>

definition own_events :: "yaml_doc \<Rightarrow> nat \<Rightarrow> walk_event set" where
  "own_events doc n =
     (case node_kind doc n of MappingNode kvs \<Rightarrow> (\<Union>(k, v) \<in> set kvs. set (uses_entry doc k v)) | _ \<Rightarrow> {})"

lemma walk_parts:
  assumes "n \<notin> set active"
  shows "set (walk doc active n) = own_events doc n \<union> (\<Union>c \<in> set (children doc n). set (walk doc (n # active) c))"
  using assms
  by (subst walk.simps)
    (auto simp: own_events_def children_def node_kind_def case_prod_beta split: yaml_kind.split)

text \<open>A path that leaves a node leaves it for the last time through one of its children.\<close>

lemma last_exit:
  assumes "(n, m) \<in> (edges doc A)\<^sup>*" and "m \<noteq> n"
  shows "\<exists>c. c \<in> set (children doc n) \<and> c \<notin> A \<and> c \<noteq> n \<and> (c, m) \<in> (edges doc (insert n A))\<^sup>*"
  using assms
proof (induction rule: rtrancl_induct)
  case (step y z)
  then show ?case
  proof (cases "y = n")
    case True
    then show ?thesis using step.hyps(2) step.prems by (intro exI [of _ z]) (auto simp: edges_def)
  next
    case False
    then obtain c where c: "c \<in> set (children doc n)" "c \<notin> A" "c \<noteq> n" "(c, y) \<in> (edges doc (insert n A))\<^sup>*"
      using step.IH by blast
    moreover have "(y, z) \<in> edges doc (insert n A)" using step.hyps(2) step.prems False by (auto simp: edges_def)
    ultimately show ?thesis by (meson rtrancl.rtrancl_into_rtrancl)
  qed
qed simp

lemma walk_complete:
  assumes "n \<notin> set active" and "(n, m) \<in> (edges doc (set active))\<^sup>*"
  shows "own_events doc m \<subseteq> set (walk doc active n)"
  using assms
proof (induction "card ({..<length doc} - set active)" arbitrary: n active rule: less_induct)
  case less
  show ?case
  proof (cases "m = n")
    case True
    then show ?thesis using walk_parts [OF less.prems(1)] by blast
  next
    case False
    obtain c where c: "c \<in> set (children doc n)" "c \<notin> set active" "c \<noteq> n"
      "(c, m) \<in> (edges doc (insert n (set active)))\<^sup>*"
      using last_exit [OF less.prems(2) False] by blast
    have "children doc n \<noteq> []" using c(1) by auto
    then have "n < length doc" by (auto simp: children_def node_kind_def split: if_splits)
    then have "card ({..<length doc} - set (n # active)) < card ({..<length doc} - set active)"
      using inactive_decreases less.prems(1) by blast
    then have "own_events doc m \<subseteq> set (walk doc (n # active) c)"
      using less.hyps [of "n # active" c] c(2,3,4) by simp
    then show ?thesis using walk_parts [OF less.prems(1)] c(1) by blast
  qed
qed

text \<open>The nodes of a document.\<close>

definition reaches :: "yaml_doc \<Rightarrow> nat \<Rightarrow> nat \<Rightarrow> bool" where
  "reaches doc start n \<longleftrightarrow> (start, n) \<in> {(m, c). c \<in> set (children doc m)}\<^sup>*"

lemma walk_sees:
  assumes "reaches doc start n" and "node_kind doc n = MappingNode kvs" and "(k, v) \<in> set kvs"
    and "node_kind doc k = ScalarNode tag ''uses''"
  shows "UsesEntry (node_line doc k + 1) (uses_reference doc v) \<in> set (walk doc [] start)"
proof -
  have "own_events doc n \<subseteq> set (walk doc [] start)"
    by (rule walk_complete) (use assms(1) in \<open>simp_all add: reaches_def edges_def\<close>)
  moreover have "UsesEntry (node_line doc k + 1) (uses_reference doc v) \<in> own_events doc n"
    using assms(2-4) by (force simp: own_events_def uses_entry_def)
  ultimately show ?thesis by blast
qed

section \<open>What is admitted\<close>

text \<open>A local action, or one pinned to a full commit.\<close>

definition pinned_reference :: "string \<Rightarrow> bool" where
  "pinned_reference r \<longleftrightarrow> starts ''./'' r \<or>
     (\<exists>action commit. r = action @ ''@'' @ commit \<and> full_commit_match commit)"

lemma rsplit1_text:
  assumes "rsplit1 c s = Some (a, b)" shows "s = a @ [c] @ b"
proof -
  let ?tail = "rev (takeWhile (\<lambda>x. x \<noteq> c) (rev s))"
  have "c \<in> set s" and ab: "b = ?tail" "a = take (length s - length ?tail - 1) s"
    using assms by (auto simp: rsplit1_def Let_def split: if_splits)
  then obtain ys zs where s: "s = ys @ c # zs" "c \<notin> set zs" by (meson split_list_last)
  have "takeWhile (\<lambda>x. x \<noteq> c) (rev s) = rev zs"
    unfolding s(1) using s(2) by (simp add: takeWhile_append2 takeWhile_append)
  then show ?thesis using ab s by simp
qed

lemma pinned_intros:
  "starts ''./'' s \<Longrightarrow> pinned_reference s"
  "rsplit1 (CHR ''@'') s = Some (a, c) \<Longrightarrow> full_commit_match c \<Longrightarrow> pinned_reference s"
  unfolding pinned_reference_def by (simp, metis rsplit1_text append_Cons append_Nil)

lemma parse_entry_step:
  assumes "parse_entry ls (l, r) st = Some st'"
  shows "\<exists>es. ac_errors st' = ac_errors st @ es"
    and "set (ac_reported st) \<subseteq> set (ac_reported st')"
    and "set (ac_reported st) = {} \<or> ac_errors st \<noteq> [] \<Longrightarrow> set (ac_reported st') = {} \<or> ac_errors st' \<noteq> []"
    and "ac_errors st' = [] \<Longrightarrow> set (ac_reported st) = {} \<Longrightarrow>
      \<exists>s. r = Some s \<and> pinned_reference s \<and> action_pin (ls ! (l - 1)) = Some s"
  using assms
  by (auto simp: parse_entry_def Let_def split: if_splits option.splits prod.splits intro: pinned_intros)

lemma parse_entries_pinned:
  assumes "parse_entries ls es st = Some st'" and "ac_errors st' = []" and "ac_reported st = []"
  shows "ac_errors st = [] \<and> (\<forall>(l, r) \<in> set es. \<exists>s. r = Some s \<and> pinned_reference s \<and> action_pin (ls ! (l - 1)) = Some s)"
  using assms
proof (induction es arbitrary: st)
  case (Cons e es)
  obtain l r where e: "e = (l, r)" by (cases e)
  obtain st1 where st1: "parse_entry ls (l, r) st = Some st1" "parse_entries ls es st1 = Some st'"
    using Cons.prems(1) by (auto simp: e bind_eq_Some_conv)
  show ?case
  proof (cases "ac_reported st1 = []")
    case True
    then show ?thesis
      using Cons.IH [OF st1(2) Cons.prems(2) True] parse_entry_step(1,4) [OF st1(1)] Cons.prems(3) e by auto
  next
    case False
    have "ac_errors x = [] \<Longrightarrow> parse_entries ls ys y = Some x \<Longrightarrow> ac_errors y = []" for ys x y
      by (induction ys arbitrary: y) (auto simp: bind_eq_Some_conv dest!: parse_entry_step(1))
    then have "ac_errors st1 = []" using st1(2) Cons.prems(2) by blast
    then show ?thesis using parse_entry_step(3) [OF st1(1)] Cons.prems(3) False by simp
  qed
qed simp

text \<open>
  C35. No workflow escapes.  A workflow that is parsed without an error is one mapping, and every entry
  \<open>uses\<close> of every mapping that can be reached in it, through whatever nesting and aliases, has a
  string for a value, which its source line shows and which names a local action or one pinned to a
  full commit.
\<close>

theorem actions_pinned:
  assumes "parse_actions (Inr (doc, start)) text = Some (actions, [])"
    and "reaches doc start n" and "node_kind doc n = MappingNode kvs" and "(k, v) \<in> set kvs"
    and "node_kind doc k = ScalarNode tag ''uses''"
  shows "\<exists>s. uses_reference doc v = Some s \<and> pinned_reference s \<and>
    action_pin (splitlines text ! node_line doc k) = Some s"
proof -
  obtain entries errors where u: "yaml_uses_nodes (Inr (doc, start)) = (entries, errors)" by (metis surj_pair)
  obtain st where st: "parse_entries (splitlines text) entries
      \<lparr>ac_actions = [], ac_occurrences = \<lambda>_. 0, ac_errors = errors, ac_reported = []\<rparr> = Some st" "ac_errors st = []"
    using assms(1) u by (auto simp: parse_actions_def)
  have all: "errors = []" "\<forall>(l, r) \<in> set entries. \<exists>s. r = Some s \<and> pinned_reference s \<and>
      action_pin (splitlines text ! (l - 1)) = Some s"
    using parse_entries_pinned [OF st] by simp_all
  have "(node_line doc k + 1, uses_reference doc v) \<in> set entries"
  proof -
    obtain kvs' where "node_kind doc start = MappingNode kvs'"
      using u all(1) by (auto simp: yaml_uses_nodes_def split: yaml_kind.splits)
    then have "entries = List.map_filter (\<lambda>e. case e of UsesEntry l r \<Rightarrow> Some (l, r) | _ \<Rightarrow> None) (walk doc [] start)"
      using u by (simp add: yaml_uses_nodes_def Let_def)
    then show ?thesis using walk_sees [OF assms(2-5)] by (force simp: List.map_filter_def)
  qed
  then show ?thesis using all(2) by fastforce
qed


text \<open>A workflow whose list of steps names its only step twice, through an alias.\<close>

definition sample_workflow :: yaml_doc where
  "sample_workflow =
     [\<lparr>yn_line = 0, yn_kind = MappingNode [(1, 2)]\<rparr>, \<lparr>yn_line = 0, yn_kind = ScalarNode yaml_str ''steps''\<rparr>,
      \<lparr>yn_line = 0, yn_kind = SequenceNode [3, 3]\<rparr>, \<lparr>yn_line = 1, yn_kind = MappingNode [(4, 5)]\<rparr>,
      \<lparr>yn_line = 1, yn_kind = ScalarNode yaml_str ''uses''\<rparr>, \<lparr>yn_line = 1, yn_kind = ScalarNode yaml_str ''./a''\<rparr>]"

lemma sample_workflow_parsed:
  "parse_actions (Inr (sample_workflow, 0)) (''steps:'' @ [CHR 0x0A] @ '' - uses: ./a #'') = Some ([], [])"
  by code_simp

theorem actions_pinned_witness:
  "\<exists>s. uses_reference sample_workflow 5 = Some s \<and> pinned_reference s \<and>
    action_pin (splitlines (''steps:'' @ [CHR 0x0A] @ '' - uses: ./a #'') ! node_line sample_workflow 4) = Some s"
proof (rule actions_pinned [OF sample_workflow_parsed, where n = 3 and kvs = "[(4, 5)]" and tag = yaml_str])
  have "(0, 2) \<in> {(m, c). c \<in> set (children sample_workflow m)}" "(2, 3) \<in> {(m, c). c \<in> set (children sample_workflow m)}"
    by (simp_all add: children_def node_kind_def sample_workflow_def)
  then show "reaches sample_workflow 0 3" unfolding reaches_def by (meson rtrancl.simps)
qed (simp_all add: node_kind_def sample_workflow_def)

end
