(* ===== verification/Admission_Cooldown.thy ===== *)
theory Admission_Cooldown
  imports Admission_Actions "HOL-Library.Char_ord" "HOL-Library.List_Lexorder" "HOL-Library.Product_Lexorder"
begin

text \<open>
  The cooldown of \<open>src/scripts/dependency_admission.py\<close>: what changed since the base, how old it is
  according to PyPI and GitHub, the exception for a hotfix, the inventory, and the verdict.

  The metadata services are arguments: \<open>pypi\<close> and \<open>github\<close> give \<open>None\<close> where \<open>request_json\<close> raises its
  \<open>RuntimeError\<close>.  Times are aware; a naive one is left out.  A difference of packages compares all
  their fields.
\<close>

section \<open>What changed\<close>

type_synonym pkg_key = "string \<times> string"

definition package_key :: "package \<Rightarrow> pkg_key" where
  "package_key p = (pk_name p, pk_version p)"

text \<open>\<open>{package_key(p): p for p in packages}\<close>: the last package with a key.\<close>

definition by_key :: "package list \<Rightarrow> pkg_key \<Rightarrow> package option" where
  "by_key packages key = map_of (rev (map (\<lambda>p. (package_key p, p)) packages)) key"

definition changed_packages :: "package list \<Rightarrow> package list option \<Rightarrow> string \<Rightarrow> package list" where
  "changed_packages current base project_package =
     (case base of
        None \<Rightarrow> []
      | Some b \<Rightarrow>
          filter (\<lambda>p. pk_name p \<noteq> project_package \<and> by_key b (package_key p) \<noteq> Some p) current)"

text \<open>Keys of actions are the path, the action and its occurrence.\<close>

type_synonym action_key = "string \<times> string \<times> nat"

definition action_changes ::
    "(action_key \<times> string) list \<Rightarrow> (action_key \<times> string) list \<Rightarrow> (string \<times> string) list" where
  "action_changes current base =
     sort (map (\<lambda>((path, action, n), commit). (action, commit))
       (filter (\<lambda>(key, commit). map_of base key \<noteq> Some commit) current))"

text \<open>The actions of all workflows, and the errors: each is its path, its composed document and its text.\<close>

type_synonym workflow = "string \<times> (nat + (yaml_doc \<times> nat)) \<times> string"

type_synonym actions = "(action_key \<times> string) list \<times> action_error list"

fun current_actions :: "workflow list \<Rightarrow> actions option" where
  "current_actions [] = Some ([], [])"
| "current_actions ((path, composed, text) # ws) =
     (case parse_actions composed text of
        None \<Rightarrow> None
      | Some (parsed, errors) \<Rightarrow>
          (case current_actions ws of
             None \<Rightarrow> None
           | Some (actions, later) \<Rightarrow>
               Some (map (\<lambda>((action, n), commit). ((path, action, n), commit)) parsed @ actions, errors @ later)))"

text \<open>The same of the base: a workflow that is not in it is skipped.\<close>

definition base_actions :: "(string \<Rightarrow> string option) \<Rightarrow> (string \<Rightarrow> nat + (yaml_doc \<times> nat)) \<Rightarrow> string list \<Rightarrow> actions option" where
  "base_actions git_text compose paths =
     current_actions (List.map_filter (\<lambda>path. map_option (\<lambda>text. (path, compose text, text)) (git_text path)) paths)"

section \<open>How old it is\<close>

text \<open>Microseconds, cut to milliseconds.\<close>

definition uv_timestamp :: "(string \<Rightarrow> int option) \<Rightarrow> string \<Rightarrow> int option" where
  "uv_timestamp parse_iso value = map_option (\<lambda>t. t - t mod 1000) (parse_iso (utc_offset value))"

record pypi_file =
  pf_url :: string
  pf_sha256 :: "string option"
  pf_upload_time :: "string option"

datatype cooldown_error =
    NoMetadata string string | NotOnPypi string string | DigestDiffers string string
  | NoUploadTime string string | TimeDiffers string string
  | BadRepository string | CommitMismatch string string | NoCommitDate string string
  | BadWorkflow action_error | TooFresh string string | NoBaseLock

definition py_max :: "int list \<Rightarrow> int option" where
  "py_max ts = (if ts = [] then None else Some (Max (set ts)))"

text \<open>\<open>f"sha256:{digest}"\<close>\<close>

definition pypi_digest :: "pypi_file \<Rightarrow> string" where
  "pypi_digest f = ''sha256:'' @ (case pf_sha256 f of Some d \<Rightarrow> d | None \<Rightarrow> ''None'')"

text \<open>One artifact: its errors, and its canonical upload time when there is one.\<close>

definition verify_artifact ::
    "(string \<Rightarrow> int option) \<Rightarrow> pkg_key \<Rightarrow> pypi_file list \<Rightarrow> artifact \<Rightarrow> cooldown_error list \<times> int option" where
  "verify_artifact parse_iso key files a =
     (let name = fst key; version = snd key in
      case map_of (rev (map (\<lambda>f. (pf_url f, f)) files)) (text_or_empty (at_url a)) of
        None \<Rightarrow> ([NotOnPypi name version], None)
      | Some f \<Rightarrow>
          let digest_errors =
                (if at_hash a \<noteq> Some (pypi_digest f)
                 then [DigestDiffers name version] else [])
          in case Option.bind (pf_upload_time f) (uv_timestamp parse_iso) of
               None \<Rightarrow> (digest_errors @ [NoUploadTime name version], None)
             | Some canonical_time \<Rightarrow>
                 (digest_errors @
                  (if uv_timestamp parse_iso (text_or_empty (at_upload_time a)) \<noteq> Some canonical_time
                   then [TimeDiffers name version] else []),
                  Some canonical_time))"

definition verify_pypi_package ::
    "(string \<Rightarrow> int option) \<Rightarrow> (pkg_key \<Rightarrow> pypi_file list option) \<Rightarrow> package \<Rightarrow> cooldown_error list \<times> int option" where
  "verify_pypi_package parse_iso pypi p =
     (case pypi (package_key p) of
        None \<Rightarrow> ([NoMetadata (pk_name p) (pk_version p)], None)
      | Some files \<Rightarrow>
          let checked = map (verify_artifact parse_iso (package_key p) files) (artifacts_of p)
          in (concat (map fst checked), py_max (List.map_filter snd checked)))"

record github_commit =
  gc_sha :: "string option"
  gc_date :: "string option"

text \<open>\<open>action.split("/")\<close>: two parts at least.\<close>

definition verify_github_action ::
    "(string \<Rightarrow> int option) \<Rightarrow> (string \<Rightarrow> string \<Rightarrow> github_commit option) \<Rightarrow> string \<Rightarrow> string
     \<Rightarrow> cooldown_error list \<times> int option" where
  "verify_github_action parse_iso github action commit =
     (let parts = split_on (CHR ''/'') action in
      if length parts < 2 then ([BadRepository action], None)
      else case github (parts ! 0 @ ''/'' @ parts ! 1) commit of
        None \<Rightarrow> ([NoMetadata action commit], None)
      | Some meta \<Rightarrow>
          if gc_sha meta \<noteq> Some commit then ([CommitMismatch action commit], None)
          else case Option.bind (gc_date meta) (\<lambda>d. parse_iso (utc_offset d)) of
                 None \<Rightarrow> ([NoCommitDate action commit], None)
               | Some committed \<Rightarrow> ([], Some committed))"

definition latest_upload :: "(string \<Rightarrow> int option) \<Rightarrow> package \<Rightarrow> int option" where
  "latest_upload parse_iso p =
     (let times = map (\<lambda>a. Option.bind (at_upload_time a) (\<lambda>t. parse_iso (utc_offset t))) (artifacts_of p)
      in if None \<in> set times then None else py_max (List.map_filter id times))"

section \<open>The exception for a hotfix\<close>

record pull_request =
  pr_labels :: "string option list"
  pr_body :: "string option"

text \<open>The rest of the text at the start of every line, for \<open>^\<close> with \<open>re.MULTILINE\<close>.\<close>

fun line_tails :: "bool \<Rightarrow> string \<Rightarrow> string list" where
  "line_tails at_start [] = (if at_start then [[]] else [])"
| "line_tails at_start (c # cs) =
     (if at_start then (c # cs) # line_tails (c = CHR 0x0A) cs else line_tails (c = CHR 0x0A) cs)"

definition line_tails_of :: "string \<Rightarrow> string list" where
  "line_tails_of s = line_tails True s"

text \<open>\<open>(?im)^Hotfix rationale:\s*\S.+$\<close> and \<open>(?im)^Upstream:\s*https://\S+$\<close>, searched\<close>

definition hotfix_rationale :: "string \<Rightarrow> bool" where
  "hotfix_rationale body =
     list_ex (\<lambda>t. starts ''hotfix rationale:'' (lower_text t) \<and>
       (case dropWhile is_space (drop 17 t) of c # d # _ \<Rightarrow> d \<noteq> CHR 0x0A | _ \<Rightarrow> False)) (line_tails_of body)"

definition hotfix_upstream :: "string \<Rightarrow> bool" where
  "hotfix_upstream body =
     list_ex (\<lambda>t. starts ''upstream:'' (lower_text t) \<and>
       (let url = dropWhile is_space (drop 9 t); path = drop 8 url;
            rest = dropWhile (\<lambda>c. \<not> is_space c) path
        in starts ''https://'' (lower_text url) \<and> takeWhile (\<lambda>c. \<not> is_space c) path \<noteq> [] \<and>
           (rest = [] \<or> hd rest = CHR 0x0A))) (line_tails_of body)"

definition hotfix_exception :: "pull_request option \<Rightarrow> string \<Rightarrow> bool" where
  "hotfix_exception event hotfix_label =
     (case event of
        None \<Rightarrow> False
      | Some pr \<Rightarrow>
          let body = text_or_empty (pr_body pr)
          in Some hotfix_label \<in> set (pr_labels pr) \<and> hotfix_rationale body \<and> hotfix_upstream body)"

section \<open>The cooldown\<close>

definition fresh_error :: "int \<Rightarrow> int \<Rightarrow> string \<times> string \<Rightarrow> int option \<Rightarrow> cooldown_error list" where
  "fresh_error now cooldown key published =
     (case published of
        None \<Rightarrow> [TooFresh (fst key) (snd key)]
      | Some t \<Rightarrow> if now - t < cooldown then [TooFresh (fst key) (snd key)] else [])"

text \<open>\<open>actions\<close>: the changed actions with the errors of the workflows, or \<open>None\<close> without \<open>include_actions\<close>.\<close>

definition validate_cooldown ::
    "(string \<Rightarrow> int option) \<Rightarrow> (pkg_key \<Rightarrow> pypi_file list option) \<Rightarrow> (string \<Rightarrow> string \<Rightarrow> github_commit option)
     \<Rightarrow> bool \<Rightarrow> ((string \<times> string) list \<times> action_error list) option \<Rightarrow> int \<Rightarrow> int \<Rightarrow> pull_request option
     \<Rightarrow> string \<Rightarrow> string \<Rightarrow> package list \<Rightarrow> package list option \<Rightarrow> cooldown_error list" where
  "validate_cooldown parse_iso pypi github verify_canonical actions now cooldown event hotfix_label
       project_package current base =
     (if base = None then [NoBaseLock]
      else
        let packages = map (\<lambda>p.
              let (errors, uploaded) = (if verify_canonical then verify_pypi_package parse_iso pypi p
                                        else ([], latest_upload parse_iso p))
              in (errors, fresh_error now cooldown (package_key p) uploaded))
              (changed_packages current base project_package);
            (updates, workflow_errors) = (case actions of None \<Rightarrow> ([], []) | Some a \<Rightarrow> a);
            checked_actions = map (\<lambda>(action, commit).
              let (errors, committed) = (if verify_canonical then verify_github_action parse_iso github action commit
                                         else ([], None))
              in (errors, fresh_error now cooldown (action, commit) committed)) updates;
            errors = concat (map fst packages) @ map BadWorkflow workflow_errors @ concat (map fst checked_actions);
            too_fresh = concat (map snd packages) @ concat (map snd checked_actions)
        in if too_fresh = [] \<or> hotfix_exception event hotfix_label then errors else errors @ too_fresh)"

section \<open>The inventory\<close>

definition names_of :: "package list \<Rightarrow> string list" where
  "names_of packages = sort (remdups (map pk_name packages))"

datatype inventory_line =
    NoBase | NothingChanged | Updated string | NewPackage string | RemovedPackage string
  | MetadataChanged string string | ManifestChanged string

definition same_versions :: "package list \<Rightarrow> package list \<Rightarrow> string \<Rightarrow> bool" where
  "same_versions current base name =
     (set (map pk_version (filter (\<lambda>p. pk_name p = name) current)) =
      set (map pk_version (filter (\<lambda>p. pk_name p = name) base)))"

definition inventory ::
    "package list \<Rightarrow> package list option \<Rightarrow> pyproject \<Rightarrow> pyproject option \<Rightarrow> string \<Rightarrow> inventory_line list" where
  "inventory current base current_project base_project project_package =
     (case base of
        None \<Rightarrow> [NoBase]
      | Some b \<Rightarrow>
          let added = filter (\<lambda>n. n \<notin> set (names_of b)) (names_of current);
              removed = filter (\<lambda>n. n \<notin> set (names_of current)) (names_of b);
              changed = filter (\<lambda>n. n \<in> set (names_of b) \<and> \<not> same_versions current b n) (names_of current);
              metadata_changed = filter (\<lambda>k. fst k \<noteq> project_package \<and> by_key b k \<noteq> None \<and>
                by_key current k \<noteq> by_key b k) (sort (remdups (map package_key current)))
          in (if added = [] \<and> removed = [] \<and> changed = [] \<and> metadata_changed = [] then [NothingChanged] else []) @
             map Updated changed @ map NewPackage added @ map RemovedPackage removed @
             map (\<lambda>k. MetadataChanged (fst k) (snd k)) metadata_changed) @
     (case base_project of
        None \<Rightarrow> []
      | Some bp \<Rightarrow>
          let before = requirement_groups bp; after = requirement_groups current_project
          in map ManifestChanged (filter (\<lambda>g. map_of before g \<noteq> map_of after g)
               (sort (remdups (map fst before @ map fst after)))))"

section \<open>The verdict\<close>

datatype verdict_error = Structure admission_error | Workflow action_error | Cooldown cooldown_error

text \<open>
  \<open>main\<close>: the exit code, the inventory it prints and the errors it reports.  \<open>current\<close> and \<open>base\<close> are
  the actions of the workflows; the command line, the files and the texts of git are arguments.
\<close>

definition admission_main ::
    "(string \<Rightarrow> int option) \<Rightarrow> (pkg_key \<Rightarrow> pypi_file list option) \<Rightarrow> (string \<Rightarrow> string \<Rightarrow> github_commit option)
     \<Rightarrow> bool \<Rightarrow> bool \<Rightarrow> int \<Rightarrow> pull_request option \<Rightarrow> actions \<Rightarrow> actions
     \<Rightarrow> pyproject \<Rightarrow> pyproject option \<Rightarrow> package list \<Rightarrow> package list option
     \<Rightarrow> nat \<times> inventory_line list \<times> verdict_error list" where
  "admission_main parse_iso pypi github preflight enforce_cooldown now event current base
       project base_project lock base_lock =
     (let config = admission_config project;
          report = inventory lock base_lock project base_project (as_project_package config);
          errors = map Structure (validate_lock parse_iso (as_project_package config) lock) @
            map Structure (validate_requirements project lock) @
            (if preflight then [] else map Workflow (snd current)) @
            (if enforce_cooldown
             then map Cooldown (validate_cooldown parse_iso pypi github True
                    (if preflight then None else Some (action_changes (fst current) (fst base), snd current @ snd base)) now
                    (as_cooldown_days config * 86400000000) event (as_hotfix_label config)
                    (as_project_package config) lock base_lock)
             else [])
      in (if errors = [] then 0 else 1, report, errors))"

section \<open>What the cooldown enforces\<close>

text \<open>A package that PyPI confirms: every artifact is there, with its digest and upload time.\<close>

definition confirmed_artifact ::
    "(string \<Rightarrow> int option) \<Rightarrow> pypi_file list \<Rightarrow> int \<Rightarrow> artifact \<Rightarrow> bool" where
  "confirmed_artifact parse_iso files latest a \<longleftrightarrow>
     (\<exists>f \<in> set files. \<exists>text time. pf_url f = text_or_empty (at_url a) \<and> at_hash a = Some (pypi_digest f) \<and>
        pf_upload_time f = Some text \<and> uv_timestamp parse_iso text = Some time \<and> time \<le> latest)"

lemma verify_artifact_confirmed:
  assumes "verify_artifact parse_iso key files a = ([], t)"
  shows "\<exists>time. t = Some time \<and> (\<forall>latest. time \<le> latest \<longrightarrow> confirmed_artifact parse_iso files latest a)"
proof -
  obtain f where f: "map_of (rev (map (\<lambda>f. (pf_url f, f)) files)) (text_or_empty (at_url a)) = Some f"
    using assms by (cases "map_of (rev (map (\<lambda>f. (pf_url f, f)) files)) (text_or_empty (at_url a))")
      (simp_all add: verify_artifact_def)
  then have found: "f \<in> set files" "pf_url f = text_or_empty (at_url a)" by (auto dest!: map_of_SomeD)
  obtain time where time: "Option.bind (pf_upload_time f) (uv_timestamp parse_iso) = Some time" "t = Some time"
      "at_hash a = Some (pypi_digest f)"
    using assms f by (auto simp: verify_artifact_def Let_def split: option.splits if_splits)
  obtain stamp where "pf_upload_time f = Some stamp" "uv_timestamp parse_iso stamp = Some time"
    using time(1) by (auto simp: bind_eq_Some_conv)
  then have "time \<le> latest \<longrightarrow> confirmed_artifact parse_iso files latest a" for latest
    unfolding confirmed_artifact_def using found time(3) by metis
  then show ?thesis using time(2) by blast
qed

lemma py_max_ge: "py_max ts = Some m \<Longrightarrow> t \<in> set ts \<Longrightarrow> t \<le> m"
  by (auto simp: py_max_def split: if_splits)

lemma verify_package_confirmed:
  assumes "verify_pypi_package parse_iso pypi p = ([], Some latest)"
  shows "\<exists>files. pypi (package_key p) = Some files \<and> artifacts_of p \<noteq> [] \<and>
    (\<forall>a \<in> set (artifacts_of p). confirmed_artifact parse_iso files latest a)"
proof -
  obtain files where files: "pypi (package_key p) = Some files"
    using assms by (cases "pypi (package_key p)") (simp_all add: verify_pypi_package_def)
  let ?checked = "map (verify_artifact parse_iso (package_key p) files) (artifacts_of p)"
  have errors: "\<forall>c \<in> set ?checked. fst c = []" and latest: "py_max (List.map_filter snd ?checked) = Some latest"
    using assms files by (auto simp: verify_pypi_package_def Let_def)
  have "confirmed_artifact parse_iso files latest a" if "a \<in> set (artifacts_of p)" for a
  proof -
    have "fst (verify_artifact parse_iso (package_key p) files a) = []" using errors that by simp
    then obtain t where t: "verify_artifact parse_iso (package_key p) files a = ([], t)"
      by (metis prod.collapse)
    then obtain time where time: "t = Some time"
      "\<forall>latest. time \<le> latest \<longrightarrow> confirmed_artifact parse_iso files latest a"
      using verify_artifact_confirmed by blast
    have "time \<in> set (List.map_filter snd ?checked)"
      using that t time(1) by (force simp: List.map_filter_def image_iff)
    then show ?thesis using time(2) py_max_ge [OF latest] by blast
  qed
  moreover have "artifacts_of p \<noteq> []"
    using latest by (auto simp: py_max_def List.map_filter_def)
  ultimately show ?thesis using files by blast
qed

lemma fresh_error_none: "fresh_error now cooldown key published = [] \<longleftrightarrow> (\<exists>t. published = Some t \<and> cooldown \<le> now - t)"
  by (auto simp: fresh_error_def split: option.split)

lemma verified_action:
  assumes "verify_github_action parse_iso github action commit = ([], Some committed)"
  shows "\<exists>repository meta date. github repository commit = Some meta \<and> gc_sha meta = Some commit \<and>
    gc_date meta = Some date \<and> parse_iso (utc_offset date) = Some committed"
  using assms by (auto simp: verify_github_action_def Let_def bind_eq_Some_conv split: if_splits option.splits)

text \<open>
  What the cooldown enforces.  When the verdict of an enforced admission on a changed lock file is
  good and no hotfix was granted, every package that is not the project's own and is new or not what
  the base had has artifacts, all of which PyPI confirms with the digest and the upload time of the
  lock, the latest of them uploaded no less than the cooldown ago; every changed action is a commit
  GitHub confirms that is as old; and no workflow had an error.
\<close>

lemma cooldown_enforced:
  assumes "fst (admission_main parse_iso pypi github False True now event current base_acts
      project base_project lock (Some base)) = 0"
    and "\<not> hotfix_exception event (as_hotfix_label (admission_config project))"
  shows "(\<forall>p \<in> set lock. pk_name p \<noteq> as_project_package (admission_config project) \<longrightarrow>
      by_key base (package_key p) \<noteq> Some p \<longrightarrow>
      (\<exists>files latest. pypi (package_key p) = Some files \<and> artifacts_of p \<noteq> [] \<and>
        (\<forall>a \<in> set (artifacts_of p). confirmed_artifact parse_iso files latest a) \<and>
        as_cooldown_days (admission_config project) * 86400000000 \<le> now - latest)) \<and>
    (\<forall>(action, commit) \<in> set (action_changes (fst current) (fst base_acts)).
      \<exists>repository meta date committed. github repository commit = Some meta \<and> gc_sha meta = Some commit \<and>
        gc_date meta = Some date \<and> parse_iso (utc_offset date) = Some committed \<and>
        as_cooldown_days (admission_config project) * 86400000000 \<le> now - committed) \<and>
    snd current = []"
proof -
  let ?config = "admission_config project" and ?updates = "action_changes (fst current) (fst base_acts)"
  let ?days = "as_cooldown_days ?config * 86400000000"
  let ?package = "\<lambda>p. case verify_pypi_package parse_iso pypi p of
    (errors, uploaded) \<Rightarrow> (errors, fresh_error now ?days (package_key p) uploaded)"
  let ?action = "\<lambda>(action, commit). case verify_github_action parse_iso github action commit of
    (errors, committed) \<Rightarrow> (errors, fresh_error now ?days (action, commit) committed)"
  have "validate_cooldown parse_iso pypi github True (Some (?updates, snd current @ snd base_acts)) now ?days event
      (as_hotfix_label ?config) (as_project_package ?config) lock (Some base) = []"
    and workflows: "snd current = []"
    using assms(1) by (auto simp: admission_main_def Let_def split: if_splits)
  then have clean: "\<forall>p \<in> set (changed_packages lock (Some base) (as_project_package ?config)). ?package p = ([], [])"
      "\<forall>u \<in> set ?updates. ?action u = ([], [])"
    using assms(2)
    by (auto simp: validate_cooldown_def Let_def prod_eq_iff case_prod_beta split: if_splits)
  have "\<exists>files latest. pypi (package_key p) = Some files \<and> artifacts_of p \<noteq> [] \<and>
        (\<forall>a \<in> set (artifacts_of p). confirmed_artifact parse_iso files latest a) \<and> ?days \<le> now - latest"
    if "p \<in> set lock" "pk_name p \<noteq> as_project_package ?config" "by_key base (package_key p) \<noteq> Some p" for p
  proof -
    have "?package p = ([], [])" using clean(1) that by (simp add: changed_packages_def)
    then obtain latest where v: "verify_pypi_package parse_iso pypi p = ([], Some latest)" "?days \<le> now - latest"
      by (auto simp: fresh_error_none split: prod.splits)
    show ?thesis using verify_package_confirmed [OF v(1)] v(2) by blast
  qed
  moreover have "\<exists>repository meta date committed. github repository commit = Some meta \<and> gc_sha meta = Some commit \<and>
        gc_date meta = Some date \<and> parse_iso (utc_offset date) = Some committed \<and> ?days \<le> now - committed"
    if "(action, commit) \<in> set ?updates" for action commit
  proof -
    have "?action (action, commit) = ([], [])" using clean(2) that by blast
    then obtain committed where "verify_github_action parse_iso github action commit = ([], Some committed)"
        "?days \<le> now - committed"
      by (auto simp: fresh_error_none split: prod.splits)
    then show ?thesis using verified_action by blast
  qed
  ultimately show ?thesis using workflows by auto
qed


text \<open>A release that updates the YAML parser, eight days after its upload.\<close>

definition sample_artifact :: "string \<Rightarrow> artifact" where
  "sample_artifact name = \<lparr>at_url = Some (pypi_files @ name), at_hash = Some (''sha256:'' @ replicate 64 (CHR ''0'')),
     at_upload_time = Some ''day 0''\<rparr>"

definition sample_package :: "string \<Rightarrow> string \<Rightarrow> package" where
  "sample_package name version = \<lparr>pk_name = name, pk_version = version,
     pk_source = [(''registry'', pypi_registry)], pk_sdist = Some (sample_artifact name), pk_wheels = [], pk_rest = []\<rparr>"

definition sample_lock :: "package list" where
  "sample_lock = [\<lparr>pk_name = ''d'', pk_version = ''1'', pk_source = [(''editable'', ''.'')], pk_sdist = None,
     pk_wheels = [], pk_rest = []\<rparr>, sample_package ''h'' ''1'', sample_package ''pyyaml'' ''6'']"

definition sample_pyproject :: pyproject where
  "sample_pyproject = \<lparr>pj_name = ''d'', pj_build_requires = [''h==1''], pj_dependencies = [], pj_optional = [],
     pj_groups = [(''build'', [''h==1'']), (''admission'', [''PyYAML==6''])],
     pj_admission = \<lparr>ta_project_package = None, ta_build_group = None, ta_parser_group = None,
       ta_cooldown_days = None, ta_hotfix_label = None\<rparr>\<rparr>"

definition sample_iso :: "string \<Rightarrow> int option" where
  "sample_iso s = (if s = ''day 0'' then Some 0 else None)"

definition sample_pypi :: "pkg_key \<Rightarrow> pypi_file list option" where
  "sample_pypi key = Some [\<lparr>pf_url = pypi_files @ fst key, pf_sha256 = Some (replicate 64 (CHR ''0'')),
     pf_upload_time = Some ''day 0''\<rparr>]"

end
