(* ===== verification/Admission_Run.thy ===== *)
theory Admission_Run
  imports Admission_Cooldown
begin

text \<open>
  \<open>main\<close> of \<open>src/scripts/dependency_admission.py\<close> on a checkout: which files it reads, what it asks git
  for, and what it does when they are not there.

  The checkout, git and the parsers are a \<open>admission_site\<close>.  A run is the exit code with the report, or
  the exception that ends the script.
\<close>

section \<open>The checkout\<close>

text \<open>
  \<open>st_files\<close>: the texts of the work tree.  \<open>st_git\<close>: what \<open>git show ref:path\<close> prints, \<open>None\<close> for a
  failure.  \<open>st_lock\<close>, \<open>st_project\<close>: what \<open>tomllib.loads\<close> makes of a text, \<open>None\<close> for its error.
\<close>

record admission_site =
  st_files :: "string \<Rightarrow> string option"
  st_workflows :: "string list"
  st_git :: "string \<Rightarrow> string \<Rightarrow> string option"
  st_lock :: "string \<Rightarrow> package list option"
  st_project :: "string \<Rightarrow> pyproject option"
  st_yaml :: "string \<Rightarrow> nat + (yaml_doc \<times> nat)"
  st_iso :: "string \<Rightarrow> int option"





text \<open>\<open>not ref or set(ref) == {"0"}\<close>\<close>

definition no_ref :: "string \<Rightarrow> bool" where
  "no_ref ref = list_all (\<lambda>c. c = CHR ''0'') ref"

definition git_text :: "admission_site \<Rightarrow> string \<Rightarrow> string \<Rightarrow> string option" where
  "git_text site ref path = (if no_ref ref then None else st_git site ref path)"


section \<open>The workflows\<close>

definition workflow_paths :: "admission_site \<Rightarrow> string list" where
  "workflow_paths site = sort (remdups (map (\<lambda>name. ''.github/workflows/'' @ name)
     (filter (\<lambda>n. ends_with n ''.yml'') (st_workflows site) @
      filter (\<lambda>n. ends_with n ''.yaml'') (st_workflows site))))"



definition index_error :: exn where
  "index_error = py_exn (UserC ''IndexError'' [LookupErrorC]) ''list index out of range''"


definition site_base_actions :: "admission_site \<Rightarrow> string \<Rightarrow> actions result" where
  "site_base_actions site ref =
     (case base_actions (git_text site ref) (st_yaml site) (workflow_paths site) of
        None \<Rightarrow> Inl index_error | Some a \<Rightarrow> Inr a)"

section \<open>The run\<close>


section \<open>What an enforced run admits\<close>

lemma current_actions_clean:
  "current_actions ws = Some (acts, []) \<Longrightarrow> (path, composed, text) \<in> set ws \<Longrightarrow>
   \<exists>parsed. parse_actions composed text = Some (parsed, [])"
  by (induction ws arbitrary: acts rule: current_actions.induct) (auto split: option.splits)




lemma site_base_actions_clean:
  assumes "site_base_actions site ref = Inr (acts, [])" and "path \<in> set (workflow_paths site)"
    and "git_text site ref path = Some text"
  shows "\<exists>parsed. parse_actions (st_yaml site text) text = Some (parsed, [])"
proof -
  have "(path, st_yaml site text, text) \<in> set (List.map_filter
      (\<lambda>path. map_option (\<lambda>text. (path, st_yaml site text, text)) (git_text site ref path)) (workflow_paths site))"
    using assms(2,3) by (force simp: List.map_filter_def image_iff)
  then show ?thesis
    using assms(1) current_actions_clean
    by (fastforce simp: site_base_actions_def base_actions_def split: option.splits)
qed






end
