(* ===== verification/Deployment.thy ===== *)
theory Deployment
  imports Dj_Backend Huey_Adapter
begin

text \<open>
  A whole deployment: the producers, the dispatcher over the Django backend, the Huey wiring as its
  transport and a Huey consumer as its worker, on one database.

  Huey is not under \<open>src\<close>: \<open>consume\<close> takes the oldest message and calls the registered task function
  with its identifier; what the function returns or raises stays in Huey.  In immediate mode enqueueing
  a task runs it at once.  \<open>dp_ran\<close> records the handlers that were called, with their arguments.  Time
  is counted in calls: \<open>cs_clk k p n\<close> is the \<open>n\<close>-th reading of the clock in phase \<open>p\<close> of call \<open>k\<close>.
\<close>

section \<open>The parts and their state\<close>

record ('h, 'f) consumer =
  cs_call :: "'h \<Rightarrow> json list \<Rightarrow> dict \<Rightarrow> context_var \<Rightarrow> exn option \<times> context_var"
  cs_policies :: "('h, 'f) policy_state"
  cs_fn :: "'f \<Rightarrow> int \<Rightarrow> backoff_value result"
  cs_jitter :: rat
  cs_clk :: "nat \<Rightarrow> nat \<Rightarrow> nat \<Rightarrow> datetime"
  cs_broker :: "nat \<Rightarrow> string \<Rightarrow> exn option"
  cs_backend :: backend
  cs_version :: string

record deployment =
  dp_db :: ledger
  dp_heartbeats :: heartbeats
  dp_huey :: huey
  dp_ran :: "(string \<times> json list) list"
  dp_calls :: nat

definition called :: "deployment \<Rightarrow> deployment" where
  "called dp = dp\<lparr>dp_calls := Suc (dp_calls dp)\<rparr>"

text \<open>\<open>_process\<close> of the wiring, in a thread whose trace context is empty.\<close>

definition wiring_process :: "('h, 'f) consumer \<Rightarrow> string \<Rightarrow> deployment \<Rightarrow> bool result \<times> deployment" where
  "wiring_process cs task_id dp =
     (let clk = cs_clk cs (dp_calls dp);
          handlers = (case fst (django_process_claim (clk 0) task_id (dp_db dp)) of
             None \<Rightarrow> []
           | Some task \<Rightarrow>
               (case resolve_handler (task_type task) None (resolve_policy (cs_policies cs) (task_type task)) of
                  Inl _ \<Rightarrow> [] | Inr _ \<Rightarrow> [(task_id, args task)]));
          (res, db, _) = django_process_task (cs_call cs) (cs_policies cs) (cs_fn cs) (cs_jitter cs) clk
             (\<lambda>db. db) None None task_id (dp_db dp, None)
      in (res, (called dp)\<lparr>dp_db := db, dp_ran := dp_ran dp @ handlers\<rparr>))"

definition deliver :: "('h, 'f) consumer \<Rightarrow> deployment \<Rightarrow> string \<Rightarrow> deployment" where
  "deliver cs dp task_id = snd (wiring_process cs task_id dp)"

definition consume :: "('h, 'f) consumer \<Rightarrow> deployment \<Rightarrow> deployment" where
  "consume cs dp =
     (case hy_queue (dp_huey dp) of
        [] \<Rightarrow> dp
      | (name, task_id) # q \<Rightarrow>
          let dp' = dp\<lparr>dp_huey := (dp_huey dp)\<lparr>hy_queue := q\<rparr>\<rparr>
          in if name \<in> set (map fst (hy_tasks (dp_huey dp))) then deliver cs dp' task_id else dp')"

text \<open>\<open>dispatch\<close> of the wiring.\<close>

definition contrib_dispatch ::
    "bool \<Rightarrow> ('h, 'f) consumer \<Rightarrow> huey_adapter \<Rightarrow> string \<Rightarrow> deployment \<Rightarrow> exn option \<times> deployment" where
  "contrib_dispatch immediate cs adapter task_id dp =
     (case huey_dispatch (cs_broker cs (dp_calls dp)) adapter task_id (dp_huey dp) of
        (Inl e, h) \<Rightarrow> (Some e, (called dp)\<lparr>dp_huey := h\<rparr>)
      | (Inr _, h) \<Rightarrow>
          (None, (if immediate then consume cs else (\<lambda>x. x)) ((called dp)\<lparr>dp_huey := h\<rparr>)))"

text \<open>The calls of the dispatcher, with the database up.\<close>

definition deployment_io :: "bool \<Rightarrow> ('h, 'f) consumer \<Rightarrow> huey_adapter \<Rightarrow> deployment dispatch_io" where
  "deployment_io immediate cs adapter =
     \<lparr>op_claim = (\<lambda>n dp.
        let (ids, db) = django_claim (cs_backend cs) (cs_clk cs (dp_calls dp) 0) (\<lambda>_ _. False) alone n (dp_db dp)
        in (Inr ids, (called dp)\<lparr>dp_db := db\<rparr>)),
      op_release = (\<lambda>ids dp. (Inr (), (called dp)\<lparr>dp_db := django_release ids (dp_db dp)\<rparr>)),
      op_run_sweep = (\<lambda>dp.
        let (result, db) = django_run_sweep (cs_backend cs) (cs_clk cs (dp_calls dp)) (\<lambda>_. False) (\<lambda>_. alone) (dp_db dp)
        in (Inr result, (called dp)\<lparr>dp_db := db\<rparr>)),
      op_heartbeat = Some (\<lambda>dp. (Inr (), (called dp)\<lparr>dp_heartbeats :=
        django_heartbeat (cs_version cs) (cs_backend cs) (cs_clk cs (dp_calls dp) 0 0) (dp_heartbeats dp)\<rparr>)),
      op_next_due = Some (\<lambda>dp.
        (Inr (django_next_due (cs_backend cs) (cs_clk cs (dp_calls dp) 0 0) (dp_db dp)), called dp)),
      op_wait_for_work = (\<lambda>t dp. (Inr False, called dp)),
      op_close = (\<lambda>dp. (Inr (), (called dp)\<lparr>dp_heartbeats :=
        django_close_heartbeat True (cs_backend cs) (dp_heartbeats dp)\<rparr>)),
      op_dispatch_fn = contrib_dispatch immediate cs adapter,
      op_monotonic = (\<lambda>dp. (of_int (cs_clk cs (dp_calls dp) 0 0) / of_int second, called dp)),
      op_wall_clock = (\<lambda>dp. (cs_clk cs (dp_calls dp) 0 0, called dp)),
      op_stop_wait = (\<lambda>t dp. (Inr (), called dp)), op_stop_is_set = (\<lambda>_. False)\<rparr>"

section \<open>One delivery\<close>

text \<open>What a deployment needs to complete a task: it is due, not near its deadline, and its handler succeeds.\<close>

definition completes :: "('h, 'f) consumer \<Rightarrow> task_row \<Rightarrow> bool" where
  "completes cs r \<longleftrightarrow>
     (\<forall>k p n. (\<forall>t. scheduled_for r = Some t \<longrightarrow> t \<le> cs_clk cs k p n) \<and>
       (\<forall>t. expires_at r = Some t \<longrightarrow> cs_clk cs k p n < t)) \<and>
     (\<exists>h. p_handler (resolve_policy (cs_policies cs) (task_type r)) = Some h \<and>
       (\<forall>var. fst (cs_call cs h (args r) (kwargs r) var) = None))"

lemma deliver_completed:
  assumes "find_row i (dp_db dp) = Some r" and "status r = COMPLETED"
  shows "deliver cs dp i = called dp"
  using assms
  by (simp add: deliver_def wiring_process_def django_process_task_def django_process_claim_def Let_def called_def)

lemma deliver_completes:
  assumes "find_row i (dp_db dp) = Some r" and "status r \<in> {PENDING, DISPATCHING}" and "completes cs r"
  shows "dp_ran (deliver cs dp i) = dp_ran dp @ [(i, args r)]"
    and "j \<noteq> i \<Longrightarrow> find_row j (dp_db (deliver cs dp i)) = find_row j (dp_db dp)"
    and "\<exists>s. find_row i (dp_db (deliver cs dp i)) = Some s \<and> status s = COMPLETED \<and> attempts s = attempts r + 1"
    and "map row_id (dp_db (deliver cs dp i)) = map row_id (dp_db dp)"
    and "dp_huey (deliver cs dp i) = dp_huey dp"
proof -
  obtain h where h: "p_handler (resolve_policy (cs_policies cs) (task_type r)) = Some h"
      "\<And>var. fst (cs_call cs h (args r) (kwargs r) var) = None"
    using assms(3) by (auto simp: completes_def)
  have time: "\<not> (case expires_at r of None \<Rightarrow> False | Some e \<Rightarrow> e \<le> cs_clk cs k p n)"
      "\<not> (case scheduled_for r of None \<Rightarrow> False | Some s \<Rightarrow> s > cs_clk cs k p n)" for k p n
    using assms(3) by (auto simp: completes_def not_le not_less split: option.split)
  let ?clk = "cs_clk cs (dp_calls dp)"
  let ?f = "\<lambda>s. s\<lparr>status := PROCESSING, started_at := Some (?clk 0 0), dispatching_at := None,
      attempts := attempts r + 1, updated_at := ?clk 0 1\<rparr>"
  let ?g = "\<lambda>s. s\<lparr>status := COMPLETED, completed_at := Some (?clk 1 0), error := '''', updated_at := ?clk 1 1\<rparr>"
  let ?started = "r\<lparr>status := PROCESSING, started_at := Some (?clk 0 0), dispatching_at := None,
      attempts := attempts r + 1\<rparr>"
  have claim: "django_process_claim (?clk 0) i (dp_db dp) = (Some ?started, set_row i ?f (dp_db dp))"
    using assms(1,2) time by (auto simp: django_process_claim_def Let_def)
  have row: "find_row i (set_row i ?f (dp_db dp)) = Some (?f r)"
    using assms(1) by (simp add: find_row_set_row)
  obtain token var where trace: "set_trace_context (Some (extract_trace_context (Some (task_metadata r)))) None = (token, var)"
    by (metis surj_pair)
  obtain var' where ran: "cs_call cs h (args r) (kwargs r) var = (None, var')"
    using h(2) [of var] by (metis prod.collapse)
  have db: "deliver cs dp i = (called dp)\<lparr>dp_db := set_row i ?g (set_row i ?f (dp_db dp)),
      dp_ran := dp_ran dp @ [(i, args r)]\<rparr>"
    using h(1) row
    by (simp add: deliver_def wiring_process_def Let_def django_process_task_def claim resolve_handler_def
        trace ran django_process_finish_def)
  show "dp_ran (deliver cs dp i) = dp_ran dp @ [(i, args r)]" "dp_huey (deliver cs dp i) = dp_huey dp"
    by (simp_all add: db called_def)
  show "find_row j (dp_db (deliver cs dp i)) = find_row j (dp_db dp)" if "j \<noteq> i"
    using that by (simp add: db find_row_set_row)
  show "\<exists>s. find_row i (dp_db (deliver cs dp i)) = Some s \<and> status s = COMPLETED \<and> attempts s = attempts r + 1"
    using assms(1) by (simp add: db find_row_set_row)
  show "map row_id (dp_db (deliver cs dp i)) = map row_id (dp_db dp)"
    by (simp add: db)
qed


section \<open>Deliveries\<close>

lemma fromkeys_snoc: "fromkeys (xs @ [x]) = (if x \<in> set xs then fromkeys xs else fromkeys xs @ [x])"
  by (simp add: fromkeys_def)

text \<open>
  Any sequence of deliveries, with repetitions and in any order: each task runs once, at its first
  delivery.
\<close>

lemma deliveries_complete:
  assumes "\<forall>i \<in> set xs. \<exists>r. find_row i (dp_db dp) = Some r \<and> status r \<in> {PENDING, DISPATCHING} \<and> completes cs r"
  shows "dp_ran (foldl (deliver cs) dp xs) =
      dp_ran dp @ map (\<lambda>i. (i, args (the (find_row i (dp_db dp))))) (fromkeys xs) \<and>
    (\<forall>j. j \<notin> set xs \<longrightarrow> find_row j (dp_db (foldl (deliver cs) dp xs)) = find_row j (dp_db dp)) \<and>
    (\<forall>i \<in> set xs. \<exists>s. find_row i (dp_db (foldl (deliver cs) dp xs)) = Some s \<and> status s = COMPLETED \<and>
       attempts s = attempts (the (find_row i (dp_db dp))) + 1)"
  using assms
proof (induction xs rule: rev_induct)
  case Nil
  then show ?case by (simp add: fromkeys_def)
next
  case (snoc y ys)
  let ?dp = "foldl (deliver cs) dp ys"
  have IH: "dp_ran ?dp = dp_ran dp @ map (\<lambda>i. (i, args (the (find_row i (dp_db dp))))) (fromkeys ys)"
      "\<And>j. j \<notin> set ys \<Longrightarrow> find_row j (dp_db ?dp) = find_row j (dp_db dp)"
      "\<And>i. i \<in> set ys \<Longrightarrow> \<exists>s. find_row i (dp_db ?dp) = Some s \<and> status s = COMPLETED \<and>
         attempts s = attempts (the (find_row i (dp_db dp))) + 1"
    using snoc by auto
  show ?case
  proof (cases "y \<in> set ys")
    case True
    then obtain s where "find_row y (dp_db ?dp) = Some s" "status s = COMPLETED" using IH(3) by blast
    then have "deliver cs ?dp y = called ?dp" by (rule deliver_completed)
    then show ?thesis
      using True IH insert_absorb [OF True] by (simp add: fromkeys_snoc called_def)
  next
    case False
    obtain r where r: "find_row y (dp_db dp) = Some r" "status r \<in> {PENDING, DISPATCHING}" "completes cs r"
      using snoc.prems by auto
    then have y: "find_row y (dp_db ?dp) = Some r" using IH(2) False by simp
    note d = deliver_completes [OF y r(2,3)]
    show ?thesis
    proof (intro conjI allI impI ballI)
      show "dp_ran (foldl (deliver cs) dp (ys @ [y])) =
          dp_ran dp @ map (\<lambda>i. (i, args (the (find_row i (dp_db dp))))) (fromkeys (ys @ [y]))"
        using False IH(1) d(1) r(1) by (simp add: fromkeys_snoc)
      show "find_row j (dp_db (foldl (deliver cs) dp (ys @ [y]))) = find_row j (dp_db dp)"
        if "j \<notin> set (ys @ [y])" for j
        using that IH(2) [of j] d(2) [of j] by simp
      show "\<exists>s. find_row i (dp_db (foldl (deliver cs) dp (ys @ [y]))) = Some s \<and> status s = COMPLETED \<and>
          attempts s = attempts (the (find_row i (dp_db dp))) + 1" if "i \<in> set (ys @ [y])" for i
      proof (cases "i = y")
        case True
        then show ?thesis using d(3) r(1) by simp
      next
        case i: False
        then show ?thesis using that IH(3) [of i] d(2) [of i] by simp
      qed
    qed
  qed
qed

lemma find_row_update_where:
  "(\<And>r. row_id (f r) = row_id r) \<Longrightarrow>
   find_row j (update_where P f db) = map_option (\<lambda>r. if P r then f r else r) (find_row j db)"
  by (induction db) (auto simp: find_row_def update_where_def)

lemma django_claim_rows:
  assumes "distinct (map row_id db)" and "django_claim b clk locked alone n db = (ids, db1)" and "i \<in> set ids"
  shows "\<exists>r. find_row i db = Some r \<and> status r \<in> {PENDING, FAILED} \<and>
    find_row i db1 = Some (r\<lparr>status := DISPATCHING, dispatching_at := Some (clk 0)\<rparr>)"
proof -
  let ?expire = "\<lambda>r. r\<lparr>status := EXPIRED, expired_at := Some (clk 0), dispatching_at := None\<rparr>"
    and ?take = "\<lambda>r. r\<lparr>status := DISPATCHING, dispatching_at := Some (clk 0)\<rparr>"
  let ?expired = "take n (map row_id (filter (\<lambda>r. status r \<in> {PENDING, FAILED} \<and> expires_at r \<noteq> None \<and>
      sql_le (expires_at r) (clk 0) \<and>
      (case b_queues b of None \<Rightarrow> True | Some qs \<Rightarrow> queue r \<in> set qs) \<and> \<not> locked 0 (row_id r)) db))"
  let ?v = "update_where (\<lambda>r. row_id r \<in> set ?expired) ?expire db"
  have v: "(if ?expired = [] then db else ?v) = ?v" by (auto simp: update_where_none)
  have "\<exists>r \<in> set ?v. row_id r = i \<and> status r \<in> {PENDING, FAILED}" and
    db1: "db1 = update_where (\<lambda>r. row_id r \<in> set ids \<and> status r \<in> {PENDING, FAILED}) ?take ?v"
    using assms(2,3) unfolding django_claim_def Let_def v
    by (auto split: if_splits dest!: select_ids_in)
  then obtain s where s: "s \<in> set ?v" "row_id s = i" "status s \<in> {PENDING, FAILED}" by blast
  have "distinct (map row_id ?v)" using assms(1) by simp
  then have row: "find_row i ?v = Some s" using s(1,2) find_row_unique by blast
  moreover have "find_row i db = Some s"
  proof -
    obtain r where r: "find_row i db = Some r" "s = (if row_id r \<in> set ?expired then ?expire r else r)"
      using row by (auto simp: find_row_update_where)
    then show ?thesis using s(3) by (auto split: if_splits)
  qed
  ultimately show ?thesis using s assms(3) by (auto simp: db1 find_row_update_where)
qed

section \<open>A batch, from the claim to the handlers\<close>

lemma send_queued:
  assumes "ha_process_task a = Some w" and "\<And>k i. cs_broker cs k i = None"
  shows "send_ids (deployment_io False cs a) ids n dp = (AllSent, dp\<lparr>
    dp_huey := (dp_huey dp)\<lparr>hy_queue := hy_queue (dp_huey dp) @ map (Pair (ha_task_name a)) ids\<rparr>,
    dp_calls := dp_calls dp + length ids\<rparr>)"
proof (induction ids arbitrary: n dp)
  case Nil
  then show ?case by simp
next
  case (Cons i ids)
  then show ?case
    by (simp add: deployment_io_def contrib_dispatch_def huey_dispatch_def assms called_def)
qed

lemma claimed_completes:
  "completes cs (r\<lparr>status := st, dispatching_at := t\<rparr>) = completes cs r"
  by (simp add: completes_def)

end
