(* ===== verification/Deployment_Properties.thy ===== *)
theory Deployment_Properties
  imports Deployment Claim_Properties Dispatcher_Properties
begin

text \<open>
  From the claim to the handler: what one batch of a deployment comes to, whatever the transport does
  with the messages it took.
\<close>






end
