(* ===== verification/Wheel_Smoke.thy ===== *)
theory Wheel_Smoke
  imports Deployment Dj_Commands Py_Text
begin

text \<open>
  \<open>scripts/wheel_smoke.py\<close>: the scenario a first consumer goes through, on a deployment.

  The scenario talks to a PostgreSQL server and to Redis.  Here both are the deployment: dropping and
  creating the database and migrating it leave an empty table.  \<open>time.sleep\<close> is a call, and a reading of
  the clock is one of the next call.  The identifiers the database mints are given.
\<close>

section \<open>The script's state\<close>












section \<open>What the script calls\<close>










section \<open>The scenario\<close>




















section \<open>The script\<close>





section \<open>What the scenario comes to\<close>






end
