(* ===== verification/Schema.thy ===== *)
theory Schema
  imports Ledger Heartbeat Py_Text
begin

text \<open>
  The schema: the tables declared by \<open>django/models.py\<close> and by \<open>sqlalchemy/models.py\<close>, and the two
  Django migrations as lists of operations with what the operations document that they do, forwards and
  backwards, to the schema and to the rows.

  A column carries the attributes the code gives it.  \<open>serialize=False\<close>, which Django derives from
  \<open>primary_key=True\<close>, and the verbose names are left out.
\<close>

section \<open>Tables\<close>

datatype column_type = CharColumn nat | TextColumn | IntegerColumn | JsonColumn | JsonbColumn | TimeColumn

datatype column_default =
    NoDefault | DefaultText string | DefaultInt int | DefaultList | DefaultDict | DefaultUuid | DefaultNow

record column =
  c_type :: column_type
  c_null :: bool
  c_primary :: bool
  c_index :: bool
  c_default :: column_default
  c_auto_now :: bool
  c_choices :: "(string \<times> string) list"
  c_blank :: bool
  c_editable :: bool

definition field :: "column_type \<Rightarrow> column" where
  "field ty = \<lparr>c_type = ty, c_null = False, c_primary = False, c_index = False, c_default = NoDefault,
     c_auto_now = False, c_choices = [], c_blank = False, c_editable = True\<rparr>"

abbreviation optional_time :: column where
  "optional_time \<equiv> (field TimeColumn)\<lparr>c_null := True, c_blank := True\<rparr>"

text \<open>A conjunct of the condition of a partial index.\<close>

datatype condition = StatusIs string | StatusIn "string list" | NotNull string

record index =
  i_name :: string
  i_fields :: "string list"
  i_where :: "condition list"

record table =
  t_name :: string
  t_columns :: "(string \<times> column) list"
  t_unique :: "(string \<times> string list) list"
  t_indexes :: "index list"

text \<open>The models of an application by lower-case name.\<close>

type_synonym schema = "(string \<times> table) list"

section \<open>The Django models\<close>

definition status_choices :: "(string \<times> string) list" where
  "status_choices =
     [(status_value PENDING, ''Pending''), (status_value DISPATCHING, ''Dispatching''),
      (status_value PROCESSING, ''Processing''), (status_value COMPLETED, ''Completed''),
      (status_value FAILED, ''Failed''), (status_value DEAD, ''Dead''), (status_value EXPIRED, ''Expired'')]"

definition django_task_columns :: "(string \<times> column) list" where
  "django_task_columns =
     [(''id'', (field (CharColumn 36))\<lparr>c_primary := True, c_default := DefaultUuid, c_editable := False\<rparr>),
      (''task_type'', (field (CharColumn 100))\<lparr>c_index := True\<rparr>),
      (''status'', (field (CharColumn 20))\<lparr>c_choices := status_choices,
         c_default := DefaultText (status_value PENDING), c_index := True\<rparr>),
      (''args'', (field JsonbColumn)\<lparr>c_default := DefaultList, c_blank := True\<rparr>),
      (''kwargs'', (field JsonbColumn)\<lparr>c_default := DefaultDict, c_blank := True\<rparr>),
      (''metadata'', (field JsonbColumn)\<lparr>c_default := DefaultDict, c_blank := True\<rparr>),
      (''queue'', (field (CharColumn 50))\<lparr>c_default := DefaultText ''default''\<rparr>),
      (''priority'', (field IntegerColumn)\<lparr>c_default := DefaultInt 0\<rparr>),
      (''attempts'', (field IntegerColumn)\<lparr>c_default := DefaultInt 0\<rparr>),
      (''max_attempts'', (field IntegerColumn)\<lparr>c_default := DefaultInt 5\<rparr>),
      (''error'', (field TextColumn)\<lparr>c_default := DefaultText '''', c_blank := True\<rparr>),
      (''created_at'', (field TimeColumn)\<lparr>c_default := DefaultNow, c_index := True\<rparr>),
      (''updated_at'', (field TimeColumn)\<lparr>c_auto_now := True\<rparr>),
      (''scheduled_for'', optional_time),
      (''initial_scheduled_for'', (field TimeColumn)\<lparr>c_null := True, c_editable := False\<rparr>),
      (''dispatching_at'', optional_time),
      (''started_at'', optional_time),
      (''completed_at'', optional_time),
      (''expires_at'', optional_time),
      (''expired_at'', optional_time),
      (''idempotency_key'', (field (CharColumn 255))\<lparr>c_null := True, c_blank := True\<rparr>)]"

definition django_task_indexes :: "index list" where
  "django_task_indexes =
     [\<lparr>i_name = ''ix_task_pending_sched'', i_fields = [''scheduled_for''], i_where = [StatusIs ''pending'']\<rparr>,
      \<lparr>i_name = ''ix_task_dispatching'', i_fields = [''dispatching_at''], i_where = [StatusIs ''dispatching'']\<rparr>,
      \<lparr>i_name = ''ix_task_processing_started'', i_fields = [''started_at''], i_where = [StatusIs ''processing'']\<rparr>,
      \<lparr>i_name = ''ix_task_failed_sched'', i_fields = [''scheduled_for''], i_where = [StatusIs ''failed'']\<rparr>,
      \<lparr>i_name = ''ix_task_expires'', i_fields = [''expires_at''],
        i_where = [NotNull ''expires_at'', StatusIn [''pending'', ''dispatching'', ''failed'']]\<rparr>,
      \<lparr>i_name = ''ix_task_type_created'', i_fields = [''task_type'', ''created_at''], i_where = []\<rparr>]"

definition django_task_table :: table where
  "django_task_table =
     \<lparr>t_name = ''task_entries'', t_columns = django_task_columns,
      t_unique = [(''uq_task_type_idempotency_key'', [''task_type'', ''idempotency_key''])],
      t_indexes = django_task_indexes\<rparr>"

definition django_heartbeat_table :: table where
  "django_heartbeat_table =
     \<lparr>t_name = ''dewey_dispatcher_heartbeats'',
      t_columns =
        [(''instance_id'', (field (CharColumn 36))\<lparr>c_primary := True\<rparr>),
         (''dewey_version'', field (CharColumn 50)),
         (''backend'', field (CharColumn 50)),
         (''database'', field (CharColumn 200)),
         (''queues'', (field JsonbColumn)\<lparr>c_null := True, c_blank := True\<rparr>),
         (''started_at'', field TimeColumn),
         (''last_seen_at'', field TimeColumn)],
      t_unique = [],
      t_indexes =
        [\<lparr>i_name = ''ix_heartbeat_last_seen'', i_fields = [''last_seen_at''], i_where = []\<rparr>,
         \<lparr>i_name = ''ix_heartbeat_backend_db'', i_fields = [''backend'', ''database''], i_where = []\<rparr>]\<rparr>"

definition django_models :: schema where
  "django_models = [(''taskentry'', django_task_table), (''dispatcherheartbeat'', django_heartbeat_table)]"

section \<open>The SQLAlchemy models\<close>

text \<open>\<open>onupdate=utcnow\<close> is \<open>c_auto_now\<close>; forms, and so \<open>blank\<close> and \<open>editable\<close>, are Django's.\<close>

definition expiry_candidate_statuses :: "string list" where
  "expiry_candidate_statuses = [status_value PENDING, status_value DISPATCHING, status_value FAILED]"

definition sa_task_columns :: "(string \<times> column) list" where
  "sa_task_columns =
     [(''id'', (field (CharColumn 36))\<lparr>c_primary := True, c_default := DefaultUuid\<rparr>),
      (''task_type'', (field (CharColumn 100))\<lparr>c_index := True\<rparr>),
      (''status'', (field (CharColumn 20))\<lparr>c_default := DefaultText (status_value PENDING), c_index := True\<rparr>),
      (''args'', (field JsonColumn)\<lparr>c_default := DefaultList\<rparr>),
      (''kwargs'', (field JsonColumn)\<lparr>c_default := DefaultDict\<rparr>),
      (''metadata'', (field JsonColumn)\<lparr>c_default := DefaultDict\<rparr>),
      (''queue'', (field (CharColumn 50))\<lparr>c_default := DefaultText ''default''\<rparr>),
      (''priority'', (field IntegerColumn)\<lparr>c_default := DefaultInt 0\<rparr>),
      (''attempts'', (field IntegerColumn)\<lparr>c_default := DefaultInt 0\<rparr>),
      (''max_attempts'', (field IntegerColumn)\<lparr>c_default := DefaultInt 5\<rparr>),
      (''error'', (field TextColumn)\<lparr>c_default := DefaultText ''''\<rparr>),
      (''created_at'', (field TimeColumn)\<lparr>c_default := DefaultNow\<rparr>),
      (''updated_at'', (field TimeColumn)\<lparr>c_default := DefaultNow, c_auto_now := True\<rparr>),
      (''scheduled_for'', (field TimeColumn)\<lparr>c_null := True\<rparr>),
      (''initial_scheduled_for'', (field TimeColumn)\<lparr>c_null := True\<rparr>),
      (''dispatching_at'', (field TimeColumn)\<lparr>c_null := True\<rparr>),
      (''started_at'', (field TimeColumn)\<lparr>c_null := True\<rparr>),
      (''completed_at'', (field TimeColumn)\<lparr>c_null := True\<rparr>),
      (''expires_at'', (field TimeColumn)\<lparr>c_null := True\<rparr>),
      (''expired_at'', (field TimeColumn)\<lparr>c_null := True\<rparr>),
      (''idempotency_key'', (field (CharColumn 255))\<lparr>c_null := True\<rparr>)]"

definition sa_task_table :: table where
  "sa_task_table =
     \<lparr>t_name = ''task_entries'', t_columns = sa_task_columns,
      t_unique = [(''uq_task_type_idempotency_key'', [''task_type'', ''idempotency_key''])],
      t_indexes =
        [\<lparr>i_name = ''ix_task_entries_pending_scheduled_for'', i_fields = [''scheduled_for''],
           i_where = [StatusIs (status_value PENDING)]\<rparr>,
         \<lparr>i_name = ''ix_task_entries_dispatching_at'', i_fields = [''dispatching_at''],
           i_where = [StatusIs (status_value DISPATCHING)]\<rparr>,
         \<lparr>i_name = ''ix_task_entries_processing_started'', i_fields = [''started_at''],
           i_where = [StatusIs (status_value PROCESSING)]\<rparr>,
         \<lparr>i_name = ''ix_task_entries_failed_scheduled_for'', i_fields = [''scheduled_for''],
           i_where = [StatusIs (status_value FAILED)]\<rparr>,
         \<lparr>i_name = ''ix_task_entries_expires_at'', i_fields = [''expires_at''],
           i_where = [StatusIn expiry_candidate_statuses, NotNull ''expires_at'']\<rparr>,
         \<lparr>i_name = ''ix_task_entries_type_created'', i_fields = [''task_type'', ''created_at''], i_where = []\<rparr>]\<rparr>"

definition sa_heartbeat_table :: table where
  "sa_heartbeat_table =
     \<lparr>t_name = ''dewey_dispatcher_heartbeats'',
      t_columns =
        [(''instance_id'', (field (CharColumn 36))\<lparr>c_primary := True\<rparr>),
         (''dewey_version'', field (CharColumn 50)),
         (''backend'', field (CharColumn 50)),
         (''database'', field (CharColumn 200)),
         (''queues'', (field JsonColumn)\<lparr>c_null := True\<rparr>),
         (''started_at'', field TimeColumn),
         (''last_seen_at'', field TimeColumn)],
      t_unique = [],
      t_indexes =
        [\<lparr>i_name = ''ix_dewey_heartbeats_last_seen'', i_fields = [''last_seen_at''], i_where = []\<rparr>,
         \<lparr>i_name = ''ix_dewey_heartbeats_backend_database'', i_fields = [''backend'', ''database''], i_where = []\<rparr>]\<rparr>"

end
