(* ===== verification/Migrations.thy ===== *)
theory Migrations
  imports Schema
begin

text \<open>
  \<open>django/migrations\<close>: the operations of both migrations, and what migrating forwards and backwards
  does to the schema and to the rows.  Django is not under \<open>src\<close>: an operation has the effect its
  documentation states, and fails when it names a model or a column that is not there.
\<close>

section \<open>A database with a schema\<close>

text \<open>The value of a column; a row has one for every column its table has.\<close>

datatype cell = CText string | CInt int | CTime datetime | CList "json list" | CDict "(string \<times> json) list" | CNull

type_synonym row = "string \<rightharpoonup> cell"
type_synonym rows = "string \<Rightarrow> row list"

record database =
  db_schema :: schema
  db_rows :: rows

fun nullable :: "('a \<Rightarrow> cell) \<Rightarrow> 'a option \<Rightarrow> cell" where
  "nullable f None = CNull"
| "nullable f (Some x) = f x"

definition task_cells :: "task_row \<Rightarrow> row" where
  "task_cells r = map_of
     [(''id'', CText (row_id r)), (''task_type'', CText (task_type r)),
      (''status'', CText (status_value (status r))),
      (''args'', CList (args r)), (''kwargs'', CDict (kwargs r)), (''metadata'', CDict (task_metadata r)),
      (''queue'', CText (queue r)), (''priority'', CInt (priority r)),
      (''attempts'', CInt (attempts r)), (''max_attempts'', CInt (max_attempts r)),
      (''error'', CText (error r)),
      (''created_at'', CTime (created_at r)), (''updated_at'', CTime (updated_at r)),
      (''scheduled_for'', nullable CTime (scheduled_for r)),
      (''initial_scheduled_for'', nullable CTime (initial_scheduled_for r)),
      (''dispatching_at'', nullable CTime (dispatching_at r)),
      (''started_at'', nullable CTime (started_at r)), (''completed_at'', nullable CTime (completed_at r)),
      (''expires_at'', nullable CTime (expires_at r)), (''expired_at'', nullable CTime (expired_at r)),
      (''idempotency_key'', nullable CText (idempotency_key r))]"

text \<open>Whether a row is in a partial index.\<close>

fun holds :: "condition \<Rightarrow> row \<Rightarrow> bool" where
  "holds (StatusIs s) r = (r ''status'' = Some (CText s))"
| "holds (StatusIn ss) r = (\<exists>s \<in> set ss. r ''status'' = Some (CText s))"
| "holds (NotNull c) r = (r c \<noteq> Some CNull \<and> r c \<noteq> None)"

definition indexed :: "index \<Rightarrow> row \<Rightarrow> bool" where
  "indexed ix r = list_all (\<lambda>c. holds c r) (i_where ix)"

section \<open>Operations\<close>

datatype operation =
    CreateModel string table
  | AddField string string column
  | AlterField string string column
  | RunPython "rows \<Rightarrow> rows" "rows \<Rightarrow> rows"
  | AddIndex string index

definition has_column :: "string \<Rightarrow> table \<Rightarrow> bool" where
  "has_column f t = (f \<in> set (map fst (t_columns t)))"

fun set_assoc :: "string \<Rightarrow> 'a \<Rightarrow> (string \<times> 'a) list \<Rightarrow> (string \<times> 'a) list" where
  "set_assoc k v [] = []"
| "set_assoc k v ((k', v') # xs) = (if k' = k then (k, v) # xs else (k', v') # set_assoc k v xs)"

text \<open>
  The state of the schema after an operation.  A column added to a table that may hold rows has to
  admit \<open>NULL\<close>: the migrations give no one-off default.
\<close>

fun state_forwards :: "operation \<Rightarrow> schema \<Rightarrow> schema option" where
  "state_forwards (CreateModel n t) s =
     (if lower_text n \<in> set (map fst s) then None else Some (s @ [(lower_text n, t)]))"
| "state_forwards (AddField m f c) s =
     (case map_of s m of
        None \<Rightarrow> None
      | Some t \<Rightarrow>
          if has_column f t \<or> \<not> c_null c then None
          else Some (set_assoc m (t\<lparr>t_columns := t_columns t @ [(f, c)]\<rparr>) s))"
| "state_forwards (AlterField m f c) s =
     (case map_of s m of
        None \<Rightarrow> None
      | Some t \<Rightarrow>
          if \<not> has_column f t then None
          else Some (set_assoc m (t\<lparr>t_columns := set_assoc f c (t_columns t)\<rparr>) s))"
| "state_forwards (RunPython f b) s = Some s"
| "state_forwards (AddIndex m ix) s =
     (case map_of s m of
        None \<Rightarrow> None
      | Some t \<Rightarrow>
          if \<not> list_all (\<lambda>f. has_column f t) (i_fields ix) then None
          else Some (set_assoc m (t\<lparr>t_indexes := t_indexes t @ [ix]\<rparr>) s))"

text \<open>What an operation does to the rows, forwards and backwards.\<close>

fun rows_forwards :: "operation \<Rightarrow> rows \<Rightarrow> rows" where
  "rows_forwards (CreateModel n t) rows = rows(lower_text n := [])"
| "rows_forwards (AddField m f c) rows = rows(m := map (\<lambda>r. r(f \<mapsto> CNull)) (rows m))"
| "rows_forwards (RunPython f b) rows = f rows"
| "rows_forwards _ rows = rows"

fun rows_backwards :: "operation \<Rightarrow> rows \<Rightarrow> rows" where
  "rows_backwards (CreateModel n t) rows = rows(lower_text n := [])"
| "rows_backwards (AddField m f c) rows = rows(m := map (\<lambda>r. r(f := None)) (rows m))"
| "rows_backwards (RunPython f b) rows = b rows"
| "rows_backwards _ rows = rows"

fun migrate :: "operation list \<Rightarrow> database \<Rightarrow> database option" where
  "migrate [] db = Some db"
| "migrate (op # ops) db =
     (case state_forwards op (db_schema db) of
        None \<Rightarrow> None
      | Some s \<Rightarrow> migrate ops \<lparr>db_schema = s, db_rows = rows_forwards op (db_rows db)\<rparr>)"

text \<open>Backwards from the state of a migration to the state \<open>s\<close> before it, last operation first.\<close>

fun unmigrate :: "operation list \<Rightarrow> schema \<Rightarrow> database \<Rightarrow> database option" where
  "unmigrate [] s db = (if db_schema db = s then Some db else None)"
| "unmigrate (op # ops) s db =
     (case state_forwards op s of
        None \<Rightarrow> None
      | Some s' \<Rightarrow>
          (case unmigrate ops s' db of
             None \<Rightarrow> None
           | Some db' \<Rightarrow> Some \<lparr>db_schema = s, db_rows = rows_backwards op (db_rows db')\<rparr>))"

section \<open>\<open>0001_initial\<close>\<close>

definition legacy_choices :: "(string \<times> string) list" where
  "legacy_choices =
     [(''pending'', ''Pending''), (''dispatching'', ''Dispatching''), (''processing'', ''Processing''),
      (''completed'', ''Completed''), (''failed'', ''Failed''), (''dead'', ''Dead'')]"

definition legacy_columns :: "(string \<times> column) list" where
  "legacy_columns =
     [(''id'', (field (CharColumn 36))\<lparr>c_default := DefaultUuid, c_editable := False, c_primary := True\<rparr>),
      (''task_type'', (field (CharColumn 100))\<lparr>c_index := True\<rparr>),
      (''status'', (field (CharColumn 20))\<lparr>c_choices := legacy_choices, c_index := True,
         c_default := DefaultText ''pending''\<rparr>),
      (''args'', (field JsonbColumn)\<lparr>c_blank := True, c_default := DefaultList\<rparr>),
      (''kwargs'', (field JsonbColumn)\<lparr>c_blank := True, c_default := DefaultDict\<rparr>),
      (''metadata'', (field JsonbColumn)\<lparr>c_blank := True, c_default := DefaultDict\<rparr>),
      (''queue'', (field (CharColumn 50))\<lparr>c_default := DefaultText ''default''\<rparr>),
      (''priority'', (field IntegerColumn)\<lparr>c_default := DefaultInt 0\<rparr>),
      (''attempts'', (field IntegerColumn)\<lparr>c_default := DefaultInt 0\<rparr>),
      (''max_attempts'', (field IntegerColumn)\<lparr>c_default := DefaultInt 5\<rparr>),
      (''error'', (field TextColumn)\<lparr>c_blank := True, c_default := DefaultText ''''\<rparr>),
      (''created_at'', (field TimeColumn)\<lparr>c_index := True, c_default := DefaultNow\<rparr>),
      (''updated_at'', (field TimeColumn)\<lparr>c_auto_now := True\<rparr>),
      (''scheduled_for'', optional_time),
      (''dispatching_at'', optional_time),
      (''started_at'', optional_time),
      (''completed_at'', optional_time),
      (''idempotency_key'', (field (CharColumn 255))\<lparr>c_blank := True, c_null := True\<rparr>)]"

definition legacy_indexes :: "index list" where
  "legacy_indexes =
     [\<lparr>i_name = ''ix_task_pending_sched'', i_fields = [''scheduled_for''], i_where = [StatusIs ''pending'']\<rparr>,
      \<lparr>i_name = ''ix_task_dispatching'', i_fields = [''dispatching_at''], i_where = [StatusIs ''dispatching'']\<rparr>,
      \<lparr>i_name = ''ix_task_processing_started'', i_fields = [''started_at''], i_where = [StatusIs ''processing'']\<rparr>,
      \<lparr>i_name = ''ix_task_failed_sched'', i_fields = [''scheduled_for''], i_where = [StatusIs ''failed'']\<rparr>,
      \<lparr>i_name = ''ix_task_type_created'', i_fields = [''task_type'', ''created_at''], i_where = []\<rparr>]"

definition migration_0001 :: "operation list" where
  "migration_0001 =
     [CreateModel ''TaskEntry''
        \<lparr>t_name = ''task_entries'', t_columns = legacy_columns,
         t_unique = [(''uq_task_type_idempotency_key'', [''task_type'', ''idempotency_key''])],
         t_indexes = legacy_indexes\<rparr>]"

section \<open>\<open>0002_task_expiry_and_dispatcher_heartbeat\<close>\<close>

definition restore_legacy_terminal_status :: "rows \<Rightarrow> rows" where
  "restore_legacy_terminal_status rows =
     rows(''taskentry'' := map (\<lambda>r.
       if r ''status'' = Some (CText ''expired'') then r(''status'' \<mapsto> CText ''dead'') else r) (rows ''taskentry''))"

definition migrated_heartbeats :: table where
  "migrated_heartbeats =
     \<lparr>t_name = ''dewey_dispatcher_heartbeats'',
      t_columns =
        [(''instance_id'', (field (CharColumn 36))\<lparr>c_primary := True\<rparr>),
         (''dewey_version'', field (CharColumn 50)),
         (''backend'', field (CharColumn 50)),
         (''database'', field (CharColumn 200)),
         (''queues'', (field JsonbColumn)\<lparr>c_blank := True, c_null := True\<rparr>),
         (''started_at'', field TimeColumn),
         (''last_seen_at'', field TimeColumn)],
      t_unique = [],
      t_indexes =
        [\<lparr>i_name = ''ix_heartbeat_last_seen'', i_fields = [''last_seen_at''], i_where = []\<rparr>,
         \<lparr>i_name = ''ix_heartbeat_backend_db'', i_fields = [''backend'', ''database''], i_where = []\<rparr>]\<rparr>"

definition migration_0002 :: "operation list" where
  "migration_0002 =
     [CreateModel ''DispatcherHeartbeat'' migrated_heartbeats,
      AddField ''taskentry'' ''expires_at'' optional_time,
      AddField ''taskentry'' ''expired_at'' optional_time,
      AddField ''taskentry'' ''initial_scheduled_for'' ((field TimeColumn)\<lparr>c_editable := False, c_null := True\<rparr>),
      AlterField ''taskentry'' ''status''
        ((field (CharColumn 20))\<lparr>
           c_choices := [(''pending'', ''Pending''), (''dispatching'', ''Dispatching''),
             (''processing'', ''Processing''), (''completed'', ''Completed''), (''failed'', ''Failed''),
             (''dead'', ''Dead''), (''expired'', ''Expired'')],
           c_index := True, c_default := DefaultText ''pending''\<rparr>),
      RunPython (\<lambda>rows. rows) restore_legacy_terminal_status,
      AddIndex ''taskentry'' \<lparr>i_name = ''ix_task_expires'', i_fields = [''expires_at''],
        i_where = [NotNull ''expires_at'', StatusIn [''pending'', ''dispatching'', ''failed'']]\<rparr>]"

section \<open>Comparing schemas\<close>

definition same_set :: "('a \<Rightarrow> 'a \<Rightarrow> bool) \<Rightarrow> 'a list \<Rightarrow> 'a list \<Rightarrow> bool" where
  "same_set eq xs ys = (length xs = length ys \<and> list_all (\<lambda>x. list_ex (eq x) ys) xs \<and>
     list_all (\<lambda>y. list_ex (\<lambda>x. eq x y) xs) ys)"

text \<open>Equal up to the order of columns, indexes and constraints: \<open>makemigrations\<close> has nothing to write.\<close>

definition same_table :: "table \<Rightarrow> table \<Rightarrow> bool" where
  "same_table t u = (t_name t = t_name u \<and> same_set (=) (t_columns t) (t_columns u) \<and>
     same_set (=) (t_unique t) (t_unique u) \<and> same_set (=) (t_indexes t) (t_indexes u))"

definition same_schema :: "schema \<Rightarrow> schema \<Rightarrow> bool" where
  "same_schema s t = same_set (\<lambda>(n, x) (m, y). n = m \<and> same_table x y) s t"

text \<open>
  What the other integration must find in the database: types, with \<open>json\<close> and \<open>jsonb\<close> alike,
  nullability, the primary key, and the value a column gets when none is given.
\<close>

definition storage :: "column_type \<Rightarrow> column_type" where
  "storage ty = (if ty = JsonbColumn then JsonColumn else ty)"

definition default_value :: "column \<Rightarrow> column_default" where
  "default_value c = (if c_auto_now c then DefaultNow else c_default c)"

definition same_column :: "string \<times> column \<Rightarrow> string \<times> column \<Rightarrow> bool" where
  "same_column = (\<lambda>(f, c) (g, d). f = g \<and> storage (c_type c) = storage (c_type d) \<and> c_null c = c_null d \<and>
     c_primary c = c_primary d \<and> default_value c = default_value d \<and> c_auto_now c = c_auto_now d)"

definition same_index :: "index \<Rightarrow> index \<Rightarrow> bool" where
  "same_index i j = (i_fields i = i_fields j \<and> same_set (=) (i_where i) (i_where j))"

definition mirrors :: "table \<Rightarrow> table \<Rightarrow> bool" where
  "mirrors t u = (t_name t = t_name u \<and> same_set same_column (t_columns t) (t_columns u) \<and>
     same_set (=) (t_unique t) (t_unique u) \<and> same_set same_index (t_indexes t) (t_indexes u))"

definition column_indexes :: "table \<Rightarrow> string list" where
  "column_indexes t = map fst (filter (\<lambda>(_, c). c_index c) (t_columns t))"

end
