(* ===== verification/Schema_Properties.thy ===== *)
theory Schema_Properties
  imports Migrations Worker_Properties
begin

text \<open>
  The migrations build the schema of the models, both integrations can work on it, migrating back and
  forth keeps the tasks, and what an upgrade leaves of idempotent creation.
\<close>

section \<open>The two states of the schema\<close>

definition empty_database :: database where
  "empty_database = \<lparr>db_schema = [], db_rows = (\<lambda>_. [])\<rparr>"

definition schema_after :: "operation list \<Rightarrow> schema" where
  "schema_after ops = (case migrate ops empty_database of None \<Rightarrow> [] | Some db \<Rightarrow> db_schema db)"

lemmas table_defs = django_task_table_def django_task_columns_def django_task_indexes_def status_choices_def
  django_heartbeat_table_def sa_task_table_def sa_task_columns_def sa_heartbeat_table_def
  expiry_candidate_statuses_def legacy_choices_def legacy_columns_def legacy_indexes_def migrated_heartbeats_def

lemma migrated_schema:
  "map_option (\<lambda>db. same_schema (db_schema db) django_models) (migrate (migration_0001 @ migration_0002) empty_database)
    = Some True"
  by code_simp



lemma lowered: "lower_text ''TaskEntry'' = ''taskentry''" "lower_text ''DispatcherHeartbeat'' = ''dispatcherheartbeat''"
  by code_simp+

lemma schemas:
  "schema_after migration_0001 = [(''taskentry'', \<lparr>t_name = ''task_entries'', t_columns = legacy_columns,
     t_unique = [(''uq_task_type_idempotency_key'', [''task_type'', ''idempotency_key''])],
     t_indexes = legacy_indexes\<rparr>)]"
  by (simp add: schema_after_def migration_0001_def empty_database_def lowered)

lemma names_distinct:
  "map fst legacy_columns = [''id'', ''task_type'', ''status'', ''args'', ''kwargs'', ''metadata'', ''queue'', ''priority'',
     ''attempts'', ''max_attempts'', ''error'', ''created_at'', ''updated_at'', ''scheduled_for'', ''dispatching_at'',
     ''started_at'', ''completed_at'', ''idempotency_key'']"
  by (simp add: legacy_columns_def)

section \<open>A row of 0.4 and a row of 0.5\<close>

definition legacy_cells :: "task_row \<Rightarrow> row" where
  "legacy_cells r = task_cells r |` set (map fst legacy_columns)"

definition upgraded :: "task_row \<Rightarrow> task_row" where
  "upgraded r = r\<lparr>initial_scheduled_for := None, expires_at := None, expired_at := None\<rparr>"

definition downgraded :: "task_row \<Rightarrow> task_row" where
  "downgraded r = (if status r = EXPIRED then r\<lparr>status := DEAD\<rparr> else r)"

lemma cells_upgraded:
  "(legacy_cells r)(''expires_at'' \<mapsto> CNull, ''expired_at'' \<mapsto> CNull, ''initial_scheduled_for'' \<mapsto> CNull)
    = task_cells (upgraded r)"
  by (rule ext) (simp add: legacy_cells_def names_distinct task_cells_def upgraded_def restrict_map_def)

lemma cells_restored:
  "(if task_cells r ''status'' = Some (CText ''expired'') then (task_cells r)(''status'' \<mapsto> CText ''dead'') else task_cells r)
    = task_cells (downgraded r)"
  by (cases "status r") (auto simp: task_cells_def downgraded_def fun_eq_iff)

lemma cells_downgraded:
  "(task_cells r)(''initial_scheduled_for'' := None, ''expired_at'' := None, ''expires_at'' := None) = legacy_cells r"
  by (rule ext) (simp add: legacy_cells_def names_distinct task_cells_def restrict_map_def)

section \<open>Migrating, schema and rows apart\<close>

lemma migrate_append:
  "migrate (xs @ ys) db = (case migrate xs db of None \<Rightarrow> None | Some db' \<Rightarrow> migrate ys db')"
  by (induction xs arbitrary: db) (auto split: option.split)

text \<open>Which schema comes out does not depend on the rows; the rows go through the operations in order.\<close>

lemma migrate_rows:
  "migrate ops \<lparr>db_schema = s, db_rows = rows\<rparr> = Some d \<Longrightarrow>
   migrate ops \<lparr>db_schema = s, db_rows = rows'\<rparr> = Some \<lparr>db_schema = db_schema d, db_rows = fold rows_forwards ops rows'\<rparr>"
  by (induction ops arbitrary: s rows rows') (auto split: option.splits)

text \<open>What was migrated can be migrated back, to the schema before, whatever was done to the rows since.\<close>

lemma unmigrate_rows:
  "migrate ops \<lparr>db_schema = s, db_rows = rows\<rparr> = Some d \<Longrightarrow>
   unmigrate ops s \<lparr>db_schema = db_schema d, db_rows = rows'\<rparr> = Some \<lparr>db_schema = s, db_rows = foldr rows_backwards ops rows'\<rparr>"
  by (induction ops arbitrary: s rows) (auto split: option.splits)

lemma migrations_apply:
  "migrate migration_0001 \<lparr>db_schema = [], db_rows = rows\<rparr> =
     Some \<lparr>db_schema = schema_after migration_0001, db_rows = rows(''taskentry'' := [])\<rparr>"
  "migrate migration_0002 \<lparr>db_schema = schema_after migration_0001, db_rows = rows'\<rparr> =
     Some \<lparr>db_schema = schema_after (migration_0001 @ migration_0002), db_rows = fold rows_forwards migration_0002 rows'\<rparr>"
  "unmigrate migration_0002 (schema_after migration_0001)
     \<lparr>db_schema = schema_after (migration_0001 @ migration_0002), db_rows = rows'\<rparr> =
     Some \<lparr>db_schema = schema_after migration_0001, db_rows = foldr rows_backwards migration_0002 rows'\<rparr>"
proof -
  show first: "migrate migration_0001 \<lparr>db_schema = [], db_rows = rows\<rparr> =
      Some \<lparr>db_schema = schema_after migration_0001, db_rows = rows(''taskentry'' := [])\<rparr>" for rows
    unfolding schemas by (simp add: migration_0001_def lowered)
  obtain d where d: "migrate (migration_0001 @ migration_0002) empty_database = Some d"
    using migrated_schema by auto
  then have "migrate migration_0002 \<lparr>db_schema = schema_after migration_0001, db_rows = (\<lambda>_. [])(''taskentry'' := [])\<rparr> = Some d"
    by (simp add: migrate_append empty_database_def first)
  note second = migrate_rows [OF this] unmigrate_rows [OF this]
  have "db_schema d = schema_after (migration_0001 @ migration_0002)"
    using d by (simp add: schema_after_def)
  then show "migrate migration_0002 \<lparr>db_schema = schema_after migration_0001, db_rows = rows'\<rparr> =
      Some \<lparr>db_schema = schema_after (migration_0001 @ migration_0002), db_rows = fold rows_forwards migration_0002 rows'\<rparr>"
    "unmigrate migration_0002 (schema_after migration_0001)
     \<lparr>db_schema = schema_after (migration_0001 @ migration_0002), db_rows = rows'\<rparr> =
     Some \<lparr>db_schema = schema_after migration_0001, db_rows = foldr rows_backwards migration_0002 rows'\<rparr>"
    using second by simp_all
qed

lemma rows_upgraded:
  "fold rows_forwards migration_0002 (rows(''taskentry'' := map legacy_cells ts)) =
   rows(''taskentry'' := map (task_cells \<circ> upgraded) ts, ''dispatcherheartbeat'' := [])"
  by (rule ext) (simp add: migration_0002_def lowered cells_upgraded [symmetric] comp_def)

lemma rows_downgraded:
  "foldr rows_backwards migration_0002 (rows(''taskentry'' := map task_cells ts)) =
   rows(''taskentry'' := map (legacy_cells \<circ> downgraded) ts, ''dispatcherheartbeat'' := [])"
  by (rule ext)
     (simp add: migration_0002_def lowered restore_legacy_terminal_status_def comp_def cells_restored cells_downgraded)

section \<open>The properties\<close>

text \<open>
  C38. The shipped migrations and the models do not drift.  Migrating an empty database through
  \<open>0001_initial\<close> and \<open>0002\<close> succeeds and builds exactly the schema the models declare: the same tables,
  columns with all their attributes, constraints, indexes and index conditions, up to their order.
\<close>

theorem migrations_build_models:
  "\<exists>s. migrate (migration_0001 @ migration_0002) \<lparr>db_schema = [], db_rows = rows\<rparr> =
      Some \<lparr>db_schema = s, db_rows = rows(''taskentry'' := [], ''dispatcherheartbeat'' := [])\<rparr> \<and>
    same_schema s django_models"
proof -
  have "same_schema (schema_after (migration_0001 @ migration_0002)) django_models"
    using migrated_schema by (auto simp: schema_after_def)
  then show ?thesis
    using rows_upgraded [of rows "[]"] by (simp add: migrate_append migrations_apply)
qed


text \<open>
  C20. Upgrading from 0.4 keeps every task, with no deadline and no creation-time schedule; downgrading,
  whatever 0.5 has done to the tasks in between, drops the three columns and the heartbeats, turns the
  tasks that expired into \<open>DEAD\<close> ones, which 0.4 knows, and changes nothing else, so that going there
  and back restores a database of 0.4.
\<close>

theorem migration_roundtrip:
  "migrate migration_0002 \<lparr>db_schema = schema_after migration_0001,
       db_rows = rows(''taskentry'' := map legacy_cells ts)\<rparr> =
     Some \<lparr>db_schema = schema_after (migration_0001 @ migration_0002),
       db_rows = rows(''taskentry'' := map (task_cells \<circ> upgraded) ts, ''dispatcherheartbeat'' := [])\<rparr> \<and>
   unmigrate migration_0002 (schema_after migration_0001)
     \<lparr>db_schema = schema_after (migration_0001 @ migration_0002), db_rows = rows(''taskentry'' := map task_cells us)\<rparr> =
     Some \<lparr>db_schema = schema_after migration_0001,
       db_rows = rows(''taskentry'' := map (legacy_cells \<circ> downgraded) us, ''dispatcherheartbeat'' := [])\<rparr> \<and>
   status_value (status (downgraded u)) \<in> fst ` set legacy_choices \<and>
   legacy_cells (downgraded (upgraded u)) = legacy_cells (downgraded u)"
proof -
  have "status_value (status (downgraded u)) \<in> fst ` set legacy_choices"
    by (cases "status u") (simp_all add: downgraded_def legacy_choices_def)
  moreover have "legacy_cells (downgraded (upgraded u)) = legacy_cells (downgraded u)"
    by (rule ext) (simp add: legacy_cells_def names_distinct task_cells_def upgraded_def downgraded_def restrict_map_def)
  ultimately show ?thesis
    by (simp add: migrations_apply rows_upgraded rows_downgraded)
qed

lemma instant_None: "check_request rq = Inr () \<Longrightarrow> instant (rq_scheduled_for rq) = None \<longleftrightarrow> rq_scheduled_for rq = None"
  by (cases "rq_scheduled_for rq" rule: option.exhaust; cases "the (rq_scheduled_for rq)")
     (simp_all add: check_request_def require_timezone_aware_def)

text \<open>
  C18. A task 0.4 created under a key is not recognised after the upgrade when it had a schedule: the
  migration leaves its creation-time schedule empty, so \<open>create_or_get_task\<close> with the very request that
  describes it raises an \<open>IdempotencyConflictError\<close> that names \<open>scheduled_for\<close>, and nothing else.  Without a
  schedule the same call returns the task.  Either way the caller's transaction is as it was.
\<close>

theorem upgraded_keys:
  assumes "or_default '''' (rq_idempotency_key rq) \<noteq> ''''" and "check_request rq = Inr ()"
    and "encode_request rq = Inr (js, kvs)" and "rq_expires_at rq = None"
    and "differing_fields (expected_row st new_id clk rq js kvs) r = []"
    and "find_key (rq_task_type rq) (rq_idempotency_key rq) (working t) = Some (upgraded r)"
  shows "snd (create_or_get_task is_pg st new_id clk (\<lambda>db. db) rq t) = t \<and>
    (case fst (create_or_get_task is_pg st new_id clk (\<lambda>db. db) rq t) of
       Inr task \<Rightarrow> rq_scheduled_for rq = None \<and> task = upgraded r
     | Inl e \<Rightarrow> rq_scheduled_for rq \<noteq> None \<and> exn_class e = IdempotencyConflictErrorC \<and>
         exn_fields e = [''scheduled_for''])"
proof -
  have "differing_fields (expected_row st new_id clk rq js kvs) (upgraded r) =
      (if rq_scheduled_for rq = None then [] else [''scheduled_for''])"
    using assms(4,5) instant_None [OF assms(2)]
    by (auto simp: differing_fields_def upgraded_def expected_row_def new_row_def split: if_splits option.splits)
  then show ?thesis
    by (simp add: create_or_get_found [OF assms(1,2,3,6)] Let_def idempotency_conflict_def)
qed

definition legacy_request :: task_request where
  "legacy_request = sample_request\<lparr>rq_scheduled_for := Some (Aware 5000), rq_expires_at := None\<rparr>"

definition legacy_task :: task_row where
  "legacy_task = (sample_row ''a'' PENDING)\<lparr>args := [JInt 1], queue := ''default'', max_attempts := 5,
     scheduled_for := Some 5000, initial_scheduled_for := Some 5000, idempotency_key := Some ''k''\<rparr>"

theorem upgraded_keys_witness:
  "(case fst (create_or_get_task True no_policy ''b'' sample_clock (\<lambda>db. db) legacy_request
       (begin_transaction [upgraded legacy_task] [])) of
      Inr task \<Rightarrow> False | Inl e \<Rightarrow> exn_fields e = [''scheduled_for''])"
proof -
  let ?t = "begin_transaction [upgraded legacy_task] []"
  have h: "or_default '''' (rq_idempotency_key legacy_request) \<noteq> ''''" "check_request legacy_request = Inr ()"
    "encode_request legacy_request = Inr ([JInt 1], [])" "rq_expires_at legacy_request = None"
    "differing_fields (expected_row no_policy ''b'' sample_clock legacy_request [JInt 1] []) legacy_task = []"
    "find_key (rq_task_type legacy_request) (rq_idempotency_key legacy_request) (working ?t) = Some (upgraded legacy_task)"
    by code_simp+
  have "rq_scheduled_for legacy_request \<noteq> None" by (simp add: legacy_request_def)
  then show ?thesis
    using upgraded_keys [OF h, of True] by (auto split: sum.splits)
qed

end
