(* ===== verification/Public_Names.thy ===== *)
theory Public_Names
  imports Dj_Package
begin

text \<open>
  The packages that re-export: \<open>dewey\<close>, \<open>dewey.core\<close> and \<open>dewey.sqlalchemy\<close>.

  \<open>from m import n\<close> runs the submodule \<open>m\<close> unless it was run, together with the submodules \<open>m\<close> imports,
  and each is bound in the package under its name; then it binds \<open>n\<close> to the attribute of \<open>m\<close>.  Which
  submodules a submodule imports is an argument, \<open>loads\<close>.
\<close>

section \<open>Import statements\<close>

type_synonym import_stmt = "string \<times> string list"
type_synonym namespace = "string \<Rightarrow> pkg_value option"

text \<open>The name of the package's own submodule in a dotted one.\<close>

definition head_of :: "string \<Rightarrow> string" where
  "head_of m = takeWhile (\<lambda>c. c \<noteq> CHR ''.'') m"

definition from_import ::
    "string list \<Rightarrow> (string \<Rightarrow> string list) \<Rightarrow> import_stmt \<Rightarrow> namespace \<times> string list \<Rightarrow> namespace \<times> string list" where
  "from_import subs loads stmt p =
     (let (m, names) = stmt;
          new = filter (\<lambda>s. s \<in> set subs \<and> s \<notin> set (snd p)) (loads m @ [head_of m]);
          bound = foldl (\<lambda>g s. g(s \<mapsto> Submodule s)) (fst p) new
      in (foldl (\<lambda>g n. g(n \<mapsto> Attribute m n)) bound names, snd p @ new))"

definition run_imports :: "string list \<Rightarrow> (string \<Rightarrow> string list) \<Rightarrow> import_stmt list \<Rightarrow> namespace" where
  "run_imports subs loads stmts =
     fst (foldl (\<lambda>p stmt. from_import subs loads stmt p) (Map.empty, []) stmts)"

section \<open>\<open>dewey\<close>\<close>

definition dewey_submodules :: "string list" where
  "dewey_submodules = [''adapters'', ''contrib'', ''core'', ''dispatcher'', ''django'', ''errors'', ''listen_sync'',
     ''policy'', ''serialization'', ''sqlalchemy'']"

definition dewey_imports :: "import_stmt list" where
  "dewey_imports =
     [(''importlib.metadata'', [''PackageNotFoundError'', ''version'']),
      (''core.states'', [''TaskStatus'']),
      (''errors'', [''DeweyError'', ''DuplicateTaskTypeError'', ''IdempotencyConflictError'', ''NonRetryableError'',
         ''RetryAfter'', ''SerializationError'', ''TransientError'', ''UnknownTaskTypeError'']),
      (''policy'', [''TASK_DEFAULTS'', ''BackoffPolicy'', ''Constant'', ''Custom'', ''Exponential'', ''PolicyRegistry'',
         ''TaskPolicy'', ''clear_project_policies'', ''configure_policies'', ''registry'', ''resolve_policy'', ''task'']),
      (''serialization'', [''encode_args'', ''encode_kwargs''])]"

text \<open>\<open>__version__\<close>: of the installed distribution, or the one of a source tree.\<close>

definition package_version :: "string option \<Rightarrow> string" where
  "package_version installed = (case installed of None \<Rightarrow> ''0.0.0.dev0'' | Some v \<Rightarrow> v)"

definition dewey_all :: "string list" where
  "dewey_all =
     [''TASK_DEFAULTS'', ''BackoffPolicy'', ''Constant'', ''Custom'', ''DeweyError'', ''DuplicateTaskTypeError'',
      ''Exponential'', ''IdempotencyConflictError'', ''NonRetryableError'', ''PolicyRegistry'', ''RetryAfter'',
      ''SerializationError'', ''TaskPolicy'', ''TaskStatus'', ''TransientError'', ''UnknownTaskTypeError'',
      ''__version__'', ''clear_project_policies'', ''configure_policies'', ''encode_args'', ''encode_kwargs'',
      ''registry'', ''resolve_policy'', ''task'']"

section \<open>\<open>dewey.core\<close>\<close>

definition core_submodules :: "string list" where
  "core_submodules = [''backoff'', ''execution'', ''heartbeat'', ''logging'', ''states'', ''types'', ''validation'']"

definition core_imports :: "import_stmt list" where
  "core_imports =
     [(''backoff'', [''BackoffFn'', ''default_task_backoff'', ''retry_delay'']),
      (''heartbeat'', [''DispatcherHeartbeat'']),
      (''logging'', [''TRACE_METADATA_KEY'', ''TraceContextFilter'', ''bind_to_metadata'', ''extract_trace_context'',
         ''get_trace_context'', ''reset_trace_context'', ''restore_trace_context'', ''set_trace_context'',
         ''update_trace_context'']),
      (''states'', [''TaskStatus'', ''should_die'', ''should_retry'']),
      (''types'', [''TaskEntry''])]"

definition core_all :: "string list" where
  "core_all =
     [''TaskStatus'', ''should_retry'', ''should_die'', ''BackoffFn'', ''default_task_backoff'', ''retry_delay'',
      ''DispatcherHeartbeat'', ''TRACE_METADATA_KEY'', ''TraceContextFilter'', ''bind_to_metadata'',
      ''extract_trace_context'', ''get_trace_context'', ''reset_trace_context'', ''restore_trace_context'',
      ''set_trace_context'', ''update_trace_context'', ''TaskEntry'']"

section \<open>\<open>dewey.sqlalchemy\<close>\<close>

definition sa_submodules :: "string list" where
  "sa_submodules = [''async_executor'', ''async_queries'', ''async_sweep'', ''dispatch'', ''executor'', ''listen'',
     ''models'', ''queries'', ''sweep'']"

definition sa_imports :: "import_stmt list" where
  "sa_imports =
     [(''async_executor'', [''create_or_get_task_async'', ''create_task_async'', ''process_task_async'']),
      (''async_queries'', [''bulk_retry_async'', ''get_dead_async'', ''get_dispatchers_async'', ''get_dispatching_async'',
         ''get_expired_async'', ''get_failed_async'', ''get_pending_async'', ''get_processing_async'',
         ''get_recent_async'', ''get_stats_async'', ''get_stuck_async'', ''get_task_async'', ''kill_task_async'',
         ''purge_completed_async'', ''retry_task_async'']),
      (''async_sweep'', [''sweep_async'', ''sweep_dispatching_async'', ''sweep_expired_async'', ''sweep_failed_async'',
         ''sweep_stuck_async'']),
      (''dispatch'', [''AsyncSQLAlchemyDispatchBackend'', ''SQLAlchemyDispatchBackend'']),
      (''executor'', [''create_or_get_task'', ''create_task'', ''process_task'']),
      (''listen'', [''DEFAULT_WORK_CHANNEL'', ''AsyncPostgresWorkListener'', ''WorkNotification'',
         ''notify_work_available'', ''notify_work_available_async'']),
      (''models'', [''Base'', ''DispatcherHeartbeatModel'', ''TaskEntryModel'']),
      (''queries'', [''bulk_retry'', ''get_dead'', ''get_dispatchers'', ''get_dispatching'', ''get_expired'', ''get_failed'',
         ''get_pending'', ''get_processing'', ''get_recent'', ''get_stats'', ''get_stuck'', ''get_task'', ''kill_task'',
         ''purge_completed'', ''retry_task'']),
      (''sweep'', [''sweep'', ''sweep_dispatching'', ''sweep_expired'', ''sweep_failed'', ''sweep_stuck''])]"

definition sa_all :: "string list" where
  "sa_all =
     [''SQLAlchemyDispatchBackend'', ''AsyncSQLAlchemyDispatchBackend'', ''Base'', ''TaskEntryModel'',
      ''DispatcherHeartbeatModel'', ''DEFAULT_WORK_CHANNEL'', ''AsyncPostgresWorkListener'', ''WorkNotification'',
      ''notify_work_available'', ''notify_work_available_async'',
      ''create_or_get_task'', ''create_task'', ''process_task'',
      ''sweep'', ''sweep_failed'', ''sweep_stuck'', ''sweep_dispatching'', ''sweep_expired'',
      ''get_stats'', ''get_pending'', ''get_dispatchers'', ''get_dispatching'', ''get_processing'', ''get_stuck'',
      ''get_expired'', ''get_failed'', ''get_dead'', ''get_task'', ''get_recent'', ''retry_task'', ''bulk_retry'',
      ''kill_task'', ''purge_completed'',
      ''create_or_get_task_async'', ''create_task_async'', ''process_task_async'',
      ''sweep_async'', ''sweep_failed_async'', ''sweep_stuck_async'', ''sweep_dispatching_async'', ''sweep_expired_async'',
      ''get_stats_async'', ''get_pending_async'', ''get_dispatchers_async'', ''get_dispatching_async'',
      ''get_processing_async'', ''get_stuck_async'', ''get_expired_async'', ''get_failed_async'', ''get_dead_async'',
      ''get_task_async'', ''get_recent_async'', ''retry_task_async'', ''bulk_retry_async'', ''kill_task_async'',
      ''purge_completed_async'']"

section \<open>What a name is bound to\<close>

text \<open>
  The module whose attribute a name is for good: the last statement that binds it, provided that no
  submodule loaded after it has that name.
\<close>

fun settled :: "string list \<Rightarrow> import_stmt list \<Rightarrow> string \<Rightarrow> string option" where
  "settled subs [] n = None"
| "settled subs ((m, names) # rest) n =
     (case settled subs rest n of
        Some m' \<Rightarrow> Some m'
      | None \<Rightarrow>
          if n \<in> set names \<and> n \<notin> set (concat (map snd rest)) \<and> (rest = [] \<or> n \<notin> set subs)
          then Some m else None)"

lemma foldl_bind: "foldl (\<lambda>g n. g(n \<mapsto> f n)) g ns n = (if n \<in> set ns then Some (f n) else g n)"
  by (induction ns arbitrary: g) auto

lemma from_import_names:
  "fst (from_import subs loads (m, names) p) n =
     (if n \<in> set names then Some (Attribute m n)
      else if n \<in> set subs \<and> n \<notin> set (snd p) \<and> n \<in> set (loads m @ [head_of m]) then Some (Submodule n)
      else fst p n)"
  by (auto simp: from_import_def Let_def foldl_bind)

lemma imports_keep:
  assumes "n \<notin> set (concat (map snd stmts))" and "stmts = [] \<or> n \<notin> set subs"
  shows "fst (foldl (\<lambda>p stmt. from_import subs loads stmt p) p stmts) n = fst p n"
  using assms
proof (induction stmts arbitrary: p)
  case (Cons stmt stmts)
  then show ?case by (cases stmt) (simp add: from_import_names)
qed simp

lemma settled_binds:
  "settled subs stmts n = Some m \<Longrightarrow>
   fst (foldl (\<lambda>p stmt. from_import subs loads stmt p) p stmts) n = Some (Attribute m n)"
proof (induction stmts arbitrary: p)
  case (Cons stmt stmts)
  obtain m' names where stmt: "stmt = (m', names)" by (cases stmt)
  show ?case
  proof (cases "settled subs stmts n")
    case None
    then have "m' = m" "n \<in> set names" "n \<notin> set (concat (map snd stmts))" "stmts = [] \<or> n \<notin> set subs"
      using Cons.prems by (auto simp: stmt split: if_splits)
    then show ?thesis by (simp add: stmt imports_keep from_import_names)
  next
    case (Some a)
    then show ?thesis using Cons by (simp add: stmt)
  qed
qed simp

lemma exported_names:
  "list_all (\<lambda>n. n = ''__version__'' \<or> settled dewey_submodules dewey_imports n \<noteq> None) dewey_all"
  "list_all (\<lambda>n. settled core_submodules core_imports n \<noteq> None) core_all"
  "list_all (\<lambda>n. settled sa_submodules sa_imports n \<noteq> None) sa_all"
  by code_simp+

lemma flavours:
  "list_all (\<lambda>(n, m). settled sa_submodules sa_imports n = Some m \<and>
     settled sa_submodules sa_imports (n @ ''_async'') = Some (''async_'' @ m)) lazy_names"
  by code_simp

text \<open>
  The public operations exist in three flavours under one name.  Every name \<open>dewey.django\<close> offers is
  a function of the same submodule of \<open>dewey.sqlalchemy\<close>, and with the suffix \<open>_async\<close> of its
  asynchronous twin, whatever the submodules import of one another; so \<open>dewey.sqlalchemy.sweep\<close> is
  the function and never the submodule of that name.  Every name the packages export is bound.
\<close>

lemma public_names:
  "list_all (\<lambda>(n, m).
      run_imports sa_submodules loads sa_imports n = Some (Attribute m n) \<and>
      run_imports sa_submodules loads sa_imports (n @ ''_async'') = Some (Attribute (''async_'' @ m) (n @ ''_async'')))
    lazy_names"
  "list_all (\<lambda>n. run_imports sa_submodules loads sa_imports n \<noteq> None) sa_all"
  "list_all (\<lambda>n. run_imports core_submodules loads core_imports n \<noteq> None) core_all"
  "list_all (\<lambda>n. n = ''__version__'' \<or> run_imports dewey_submodules loads dewey_imports n \<noteq> None) dewey_all"
  using exported_names flavours unfolding list_all_iff run_imports_def
  by (fastforce dest: settled_binds)+

end
