(* ===== verification/Spec2Isabelle.thy ===== *)
theory Spec2Isabelle
  imports Policy_Properties Worker_Properties Claim_Properties Recovery_Properties
    Operator_Properties Dispatcher_Properties Parity_Properties System_Properties
    Async_Properties Async_Dispatcher_Properties Listener_Properties Async_Listener_Properties
    Setup_Properties Huey_Adapter Dj_Package Dj_Dispatcher_Properties Admission_Run
    Deployment_Properties Wheel_Smoke Schema_Properties Public_Names
begin

text \<open>
  Dewey is a task ledger: a producer inserts a row into \<open>task_entries\<close> in its own transaction, a
  dispatcher claims due rows and hands their identifiers to a transport, a worker processes the
  row in two commits around a handler, and a recovery sweep, run by the dispatcher, returns rows
  that were lost on the way.  The development models the Python package under
  \<open>src/src/dewey\<close>: its core, its SQLAlchemy integration (synchronous and asynchronous) and its Django
  integration, with the commands, the checks and the Huey transport, and the script that admits the
  dependencies of a release.

  \<^bold>\<open>How the parts interact.\<close>  All components share one table.  \<open>create_task\<close> puts a \<open>PENDING\<close> row
  in it; \<open>claim\<close> turns due \<open>PENDING\<close> and \<open>FAILED\<close> rows into \<open>DISPATCHING\<close> ones and expires those
  past their deadline; the dispatcher loop sends what was claimed and calls \<open>release\<close> for what
  could not be sent; \<open>process_task\<close> takes \<open>PENDING\<close> and \<open>DISPATCHING\<close> rows through \<open>PROCESSING\<close> to
  \<open>COMPLETED\<close>, \<open>FAILED\<close> or \<open>DEAD\<close>; the four sweeps recover overdue \<open>FAILED\<close>, expired,
  \<open>DISPATCHING\<close> and \<open>PROCESSING\<close> rows; operators retry, kill and purge.  The policy layer decides
  what a failed attempt becomes and when it is due again.

  \<^bold>\<open>The theories and the code.\<close>
  \<^item> \<open>Dewey_Prelude\<close>: instants, SQL comparisons on nullable columns, row-wise updates and
    \<open>ORDER BY ... LIMIT\<close> on a table kept as a list, and the facts the components share.
  \<^item> \<open>Py_Runtime\<close>: exception classes and \<open>isinstance\<close>, floats, \<open>timedelta\<close>, \<open>datetime\<close>, and
    \<open>errors.py\<close>.  \<open>Task_States\<close>: \<open>core/states.py\<close>.  \<open>Task_Policy\<close>: \<open>policy.py\<close> and
    \<open>core/backoff.py\<close>.  \<open>Failure_Handling\<close>: \<open>core/execution.py\<close>.  \<open>Json_Args\<close>:
    \<open>serialization.py\<close>.  \<open>Trace_Context\<close>: \<open>core/logging.py\<close>.  \<open>Heartbeat\<close>: \<open>core/heartbeat.py\<close>.
  \<^item> \<open>Ledger\<close>: the row of \<open>sqlalchemy/models.py\<close>, its unique constraints, notifications and the
    caller's transaction.  \<open>Task_Lifecycle\<close>: the specification of a row as a step relation
    \<open>row_step\<close>, and the locale \<open>row_invariant\<close> of the invariants such steps keep.
  \<^item> \<open>Sa_Executor\<close>, \<open>Sa_Sweep\<close>, \<open>Sa_Dispatch\<close>, \<open>Sa_Queries\<close>: \<open>executor.py\<close>, \<open>sweep.py\<close>, the
    synchronous half of \<open>dispatch.py\<close>, and \<open>queries.py\<close> of \<open>sqlalchemy\<close>.  \<open>Dj_Executor\<close>,
    \<open>Dj_Sweep\<close>, \<open>Dj_Dispatch\<close>, \<open>Dj_Queries\<close>: their Django counterparts.
  \<^item> \<open>Dispatcher\<close>: the loop of \<open>dispatcher.py\<close> over the record \<open>dispatch_io\<close> of the calls it makes.
    \<open>Dispatch_Contract\<close>: the locale \<open>dispatch_backend\<close> of what the loop needs from a backend, its
    extension \<open>resilient_backend\<close>, and what the loop guarantees over them.  \<open>Sa_Backend\<close>: a site
    (database, transport, clocks, other processes) and the interpretation of both locales on it.
  \<^item> \<open>Async_Runtime\<close>: coroutines, as functions of an event loop that may throw an exception in at any
    await and lets others run there.  \<open>Async_Executor\<close>, \<open>Async_Sweep\<close>, \<open>Async_Queries\<close>,
    \<open>Async_Dispatch\<close>, \<open>Async_Dispatcher\<close>, \<open>Async_Backend\<close>: \<open>async_executor.py\<close>, \<open>async_sweep.py\<close>,
    \<open>async_queries.py\<close>, the asynchronous half of \<open>dispatch.py\<close>, \<open>AsyncDispatcher\<close>, and both together.
  \<^item> \<open>Py_Io\<close>: statements that change a state and may raise, with \<open>try\<close> and \<open>finally\<close>.
    \<open>Work_Listener\<close>: \<open>listen_sync.py\<close> over a database driver any call of which may raise, and
    \<open>wait_for_work\<close> and \<open>close\<close> of both synchronous backends.  \<open>Json_Text\<close>: \<open>json.dumps\<close> and
    \<open>json.loads\<close> on texts as lists of code points.  \<open>Async_Listener\<close>: the listener of
    \<open>sqlalchemy/listen.py\<close> and the asynchronous backend's \<open>wait_for_work\<close> and \<open>close\<close>.
  \<^item> \<open>Dj_Package\<close>: the lazy names of \<open>django/__init__.py\<close>.  \<open>Public_Names\<close>: what the imports of
    \<open>dewey\<close>, \<open>dewey.core\<close> and \<open>dewey.sqlalchemy\<close> bind their public names to.
    \<open>Dj_Config\<close>: \<open>django/conf.py\<close> and \<open>django/checks.py\<close>.  \<open>Dj_Commands\<close>: the commands \<open>dewey_dispatcher\<close> and \<open>dewey_doctor\<close>.
    \<open>Dj_Backend\<close>: a site with the Django backend, and the interpretation of the dispatcher's
    locales on it.  \<open>Huey_Adapter\<close>: \<open>adapters/huey.py\<close> and \<open>contrib/django_huey.py\<close>.
  \<^item> \<open>Py_Text\<close>: string methods.  \<open>Admission_Lock\<close>, \<open>Admission_Actions\<close>, \<open>Admission_Cooldown\<close>,
    \<open>Admission_Run\<close>: \<open>scripts/dependency_admission.py\<close>, the lock file and requirements, the YAML tree
    of a workflow, the changes against the base with their canonical metadata, and \<open>main\<close> on a
    checkout.
  \<^item> \<open>Deployment\<close>: producers, the dispatcher over the Django backend, the Huey wiring and a Huey
    consumer on one database.  \<open>Wheel_Smoke\<close>: \<open>scripts/wheel_smoke.py\<close>, the scenario of the release
    test, on such a deployment.
  \<^item> \<open>Schema\<close>: the tables that \<open>django/models.py\<close> and \<open>sqlalchemy/models.py\<close> declare.
    \<open>Migrations\<close>: the operations of \<open>django/migrations\<close>, forwards and backwards, on schema and rows.
  \<^item> \<open>Task_System\<close>: the reachable states of a table under every operation of both integrations.

  \<^bold>\<open>State and interference.\<close>  A committed table is a list of \<open>task_row\<close>.  An operation that runs
  several statements takes \<open>env\<close>, an arbitrary function per statement for what other
  transactions commit before it, and \<open>locked\<close>, the rows \<open>SKIP LOCKED\<close> leaves out.  Where the
  code relies on a row lock the theorem assumes \<open>respects_locks\<close>.  Clocks (\<open>clk\<close>), UUIDs, jitter
  draws and handlers are arguments; a clock need not be monotone unless a theorem says so.

  \<^bold>\<open>What the lemmas show.\<close>  \<open>Policy_Properties\<close>: the decision on a failed attempt, the retry
  window, the three policy layers, and stability of the argument encoding.
  \<open>Worker_Properties\<close>: creation, idempotent creation and processing on every branch.
  \<open>Claim_Properties\<close> and \<open>Recovery_Properties\<close>: the claim and the sweeps as functions of the
  table, their ownership guarantees under interference, and that no overdue row is left.
  \<open>Operator_Properties\<close>: operator actions and readiness.  \<open>Dispatcher_Properties\<close>: the loop under
  outages.  \<open>Parity_Properties\<close>: equivalence of the integrations.  \<open>Async_Properties\<close> and
  \<open>Async_Dispatcher_Properties\<close>: the asynchronous twins refine the synchronous ones, and what a
  cancellation at any await leaves behind.  \<open>Listener_Properties\<close> and \<open>Async_Listener_Properties\<close>:
  connections are not leaked, waits are bounded, payloads survive the way through the database.
  \<open>Setup_Properties\<close>: settings, checks and readiness.  \<open>Dj_Dispatcher_Properties\<close>: the command over
  the Django backend.  \<open>Deployment_Properties\<close>: a claimed batch, sent through the queue and delivered
  at least once, runs every handler exactly once.  \<open>Schema_Properties\<close>: the migrations build the models'
  schema, both integrations can share it, and what upgrading and downgrading do to the tasks.
  The \<open>Admission\<close> theories end with what an admitted release guarantees.
  \<open>System_Properties\<close>: invariants of every reachable state, the life of a task, and that no task is
  stranded.

  \<^bold>\<open>Bounds and termination.\<close>  A bounded run of the dispatcher is a recursion on its number of
  iterations; the unbounded run is a partial function whose value \<open>None\<close> is running forever, and
  \<open>stop_ends_the_run\<close> gives its result once the stop event is set.  The depth guard of the
  argument encoder is the code's own.  The JSON reader has fuel, twice the length of the text and
  one, and \<open>json_loads_any_fuel\<close> shows that a larger bound gives the same answer.
  The walk over a YAML tree ends because a node on the active path is not entered again.  The polling
  loop of the release test has 80 rounds: 4 seconds of sleeps of 0.05 seconds.

  \<^bold>\<open>Not modelled.\<close>  Log and console output; binary rounding of floats (a finite float is an exact
  rational); the texts of some error messages; the length limits of text columns (a longer value is an
  error of the \<open>INSERT\<close>); Django's migration recorder and its executor's choice of what to run;
  \<open>__dir__\<close>.  Parameters of the model: the database driver and asyncpg (which calls raise, what
  arrives), Huey's broker, \<open>import_string\<close>, the system checks of other applications, the YAML and TOML parsers, \<open>fromisoformat\<close>, what git prints, PyPI and GitHub.
\<close>

end
